theory Spec2Isabelle
  imports Complex_Main "HOL-Library.AList"
begin

section \<open>Subagent registry (src/agents/subagent-registry.ts)\<close>

text \<open>
  Epoch milliseconds (\<open>Date.now()\<close>, the timestamps of a record) are integers.  An optional
  field \<open>f?: T\<close> is a \<open>T option\<close>, \<open>None\<close> standing for \<open>undefined\<close>.  The cleanup policy
  \<open>"delete" | "keep"\<close> is a datatype.
\<close>

datatype cleanup_policy = Delete | Keep

datatype outcome_status = StatusOk | StatusError | StatusTimeout | StatusUnknown

record SubagentRunOutcome =
  status :: outcome_status
  error :: "string option"

datatype thread_id = ThreadNum int | ThreadStr string

record DeliveryContext =
  channel :: "string option"
  to :: "string option"
  accountId :: "string option"
  threadId :: "thread_id option"

record SubagentRunRecord =
  runId :: string
  childSessionKey :: string
  requesterSessionKey :: string
  requesterOrigin :: "DeliveryContext option"
  requesterDisplayKey :: string
  task :: string
  cleanup :: cleanup_policy
  label :: "string option"
  createdAt :: int
  startedAt :: "int option"
  endedAt :: "int option"
  outcome :: "SubagentRunOutcome option"
  archiveAtMs :: "int option"
  cleanupCompletedAt :: "int option"
  cleanupHandled :: "bool option"

text \<open>
  The envelope \<open>{version, runs}\<close> that \<open>saveSubagentRegistryToDisk\<close> hands to
  \<open>saveJsonFile\<close>.  It is polymorphic in the record so that the loader, which works on
  unvalidated JSON, can use it as well.
\<close>

record 'r PersistedSubagentRegistry =
  version :: nat
  runs :: "string \<rightharpoonup> 'r"

definition REGISTRY_VERSION :: nat where
  "REGISTRY_VERSION = 2"

text \<open>
  \<open>saveSubagentRegistryToDisk\<close> copies the map into a plain object, one assignment
  \<open>serialized[runId] = entry\<close> per run.  For the key \<open>__proto__\<close> that assignment runs the setter
  of \<open>Object.prototype\<close>: it makes the entry the prototype of \<open>serialized\<close> and creates no
  property, so the run is not among the properties of \<open>runs\<close> and is not written.  Every other
  key becomes a property.
\<close>

definition saveSubagentRegistryToDisk :: "(string \<rightharpoonup> 'r) \<Rightarrow> 'r PersistedSubagentRegistry" where
  "saveSubagentRegistryToDisk rs =
     \<lparr>version = REGISTRY_VERSION, runs = rs(''__proto__'' := None)\<rparr>"

text \<open>
  The module state: the process-wide map \<open>subagentRuns\<close>, and the envelopes written so far
  (the calls of \<open>saveJsonFile\<close>, oldest first).  \<open>persistSubagentRuns\<close> swallows a failing
  write, so the memory state never depends on the write's success.
\<close>

record registry =
  subagentRuns :: "string \<rightharpoonup> SubagentRunRecord"
  saved :: "SubagentRunRecord PersistedSubagentRegistry list"

definition persistSubagentRuns :: "registry \<Rightarrow> registry" where
  "persistSubagentRuns g = g\<lparr>saved := saved g @ [saveSubagentRegistryToDisk (subagentRuns g)]\<rparr>"

text \<open>JavaScript truthiness of an optional number (\<open>if (entry.cleanupCompletedAt)\<close>) and of
  an optional boolean (\<open>if (entry.cleanupHandled)\<close>): \<open>undefined\<close> and \<open>0\<close> are falsy.\<close>

definition truthyNum :: "int option \<Rightarrow> bool" where
  "truthyNum v = (case v of None \<Rightarrow> False | Some n \<Rightarrow> n \<noteq> 0)"

definition truthyBool :: "bool option \<Rightarrow> bool" where
  "truthyBool v = (case v of None \<Rightarrow> False | Some b \<Rightarrow> b)"

definition beginSubagentCleanup :: "string \<Rightarrow> registry \<Rightarrow> bool \<times> registry" where
  "beginSubagentCleanup rid g =
     (case subagentRuns g rid of
        None \<Rightarrow> (False, g)
      | Some entry \<Rightarrow>
          if truthyNum (cleanupCompletedAt entry) then (False, g)
          else if truthyBool (cleanupHandled entry) then (False, g)
          else (True,
                persistSubagentRuns
                  (g\<lparr>subagentRuns := (subagentRuns g)(rid \<mapsto> entry\<lparr>cleanupHandled := Some True\<rparr>)\<rparr>)))"

text \<open>\<open>finalizeSubagentCleanup(runId, cleanup, didAnnounce)\<close>; \<open>now\<close> is what \<open>Date.now()\<close>
  returns in the last branch.\<close>

definition finalizeSubagentCleanup ::
  "string \<Rightarrow> cleanup_policy \<Rightarrow> bool \<Rightarrow> int \<Rightarrow> registry \<Rightarrow> registry" where
  "finalizeSubagentCleanup rid cl didAnnounce now g =
     (case subagentRuns g rid of
        None \<Rightarrow> g
      | Some entry \<Rightarrow>
          if cl = Delete then
            persistSubagentRuns (g\<lparr>subagentRuns := (subagentRuns g)(rid := None)\<rparr>)
          else if \<not> didAnnounce then
            persistSubagentRuns
              (g\<lparr>subagentRuns := (subagentRuns g)(rid \<mapsto> entry\<lparr>cleanupHandled := Some False\<rparr>)\<rparr>)
          else
            persistSubagentRuns
              (g\<lparr>subagentRuns := (subagentRuns g)(rid \<mapsto> entry\<lparr>cleanupCompletedAt := Some now\<rparr>)\<rparr>))"

text \<open>
  The two completion triggers.  The lifecycle listener (\<open>ensureListener\<close>) handles an event
  of the \<open>lifecycle\<close> stream; the watcher (\<open>waitForSubagentCompletion\<close>) handles the answer
  of \<open>agent.wait\<close>.  Both return whether they launched \<open>runSubagentAnnounceFlow\<close>.
\<close>

datatype lifecycle_phase = PhaseStart | PhaseEnd | PhaseError | PhaseOther

record lifecycle_event =
  evt_runId :: string
  evt_phase :: lifecycle_phase
  evt_startedAt :: "int option"
  evt_endedAt :: "int option"
  evt_error :: "string option"

definition onLifecycleEvent :: "lifecycle_event \<Rightarrow> int \<Rightarrow> registry \<Rightarrow> bool \<times> registry" where
  "onLifecycleEvent evt now g =
     (case subagentRuns g (evt_runId evt) of
        None \<Rightarrow> (False, g)
      | Some entry \<Rightarrow>
          if evt_phase evt = PhaseStart then
            (if truthyNum (evt_startedAt evt)
             then (False, persistSubagentRuns
                     (g\<lparr>subagentRuns := (subagentRuns g)
                          (evt_runId evt \<mapsto> entry\<lparr>startedAt := evt_startedAt evt\<rparr>)\<rparr>))
             else (False, g))
          else if evt_phase evt \<noteq> PhaseEnd \<and> evt_phase evt \<noteq> PhaseError then (False, g)
          else
            let ended = (case evt_endedAt evt of Some t \<Rightarrow> t | None \<Rightarrow> now);
                oc = (if evt_phase evt = PhaseError
                      then \<lparr>status = StatusError, error = evt_error evt\<rparr>
                      else \<lparr>status = StatusOk, error = None\<rparr>);
                entry' = entry\<lparr>endedAt := Some ended, outcome := Some oc\<rparr>;
                g' = persistSubagentRuns
                       (g\<lparr>subagentRuns := (subagentRuns g)(evt_runId evt \<mapsto> entry')\<rparr>)
            in beginSubagentCleanup (evt_runId evt) g')"

datatype wait_status = WaitOk | WaitError | WaitTimeout | WaitOther

record wait_result =
  wait_status :: wait_status
  wait_startedAt :: "int option"
  wait_endedAt :: "int option"
  wait_error :: "string option"

definition onAgentWaitResult :: "string \<Rightarrow> wait_result \<Rightarrow> int \<Rightarrow> registry \<Rightarrow> bool \<times> registry" where
  "onAgentWaitResult rid w now g =
     (if wait_status w \<noteq> WaitOk \<and> wait_status w \<noteq> WaitError then (False, g)
      else case subagentRuns g rid of
        None \<Rightarrow> (False, g)
      | Some entry \<Rightarrow>
          let e1 = (case wait_startedAt w of Some t \<Rightarrow> entry\<lparr>startedAt := Some t\<rparr> | None \<Rightarrow> entry);
              e2 = (case wait_endedAt w of Some t \<Rightarrow> e1\<lparr>endedAt := Some t\<rparr> | None \<Rightarrow> e1);
              e3 = (if \<not> truthyNum (endedAt e2) then e2\<lparr>endedAt := Some now\<rparr> else e2);
              oc = (if wait_status w = WaitError
                    then \<lparr>status = StatusError, error = wait_error w\<rparr>
                    else \<lparr>status = StatusOk, error = None\<rparr>);
              e4 = e3\<lparr>outcome := Some oc\<rparr>;
              g' = persistSubagentRuns (g\<lparr>subagentRuns := (subagentRuns g)(rid \<mapsto> e4)\<rparr>)
          in beginSubagentCleanup rid g')"

text \<open>A registry with one fresh run, as \<open>registerSubagentRun\<close> leaves it, and variants of
  it; they serve as concrete inputs below.\<close>

definition run0 :: SubagentRunRecord where
  "run0 = \<lparr>runId = ''r1'', childSessionKey = ''agent:main:subagent:u1'',
     requesterSessionKey = ''main'', requesterOrigin = None, requesterDisplayKey = ''main'',
     task = ''summarise foo'', cleanup = Keep, label = Some ''foo'', createdAt = 1000,
     startedAt = Some 1000, endedAt = None, outcome = None, archiveAtMs = None,
     cleanupCompletedAt = None, cleanupHandled = Some False\<rparr>"

definition registry0 :: registry where
  "registry0 = \<lparr>subagentRuns = [''r1'' \<mapsto> run0], saved = []\<rparr>"

definition registryZero :: registry where
  "registryZero = \<lparr>subagentRuns = [''r1'' \<mapsto> run0\<lparr>cleanupCompletedAt := Some 0\<rparr>], saved = []\<rparr>"

section \<open>Node subscription index (src/gateway/server-node-subscriptions.ts)\<close>

text \<open>
  \<open>String.prototype.trim\<close> removes white space at both ends.  Characters are bytes here, so
  the white space is the ASCII part of ECMAScript's (tab, line feed, vertical tab, form
  feed, carriage return, space).

  A \<open>Map<string, Set<string>>\<close> is a map to lists: a JavaScript \<open>Set\<close> iterates in insertion
  order, and \<open>unsubscribeAll\<close> loops over one.  \<open>Set.add\<close> appends an element that is not
  there, \<open>Set.delete\<close> removes it, \<open>size === 0\<close> is the empty list.
\<close>

definition isWhiteSpace :: "char \<Rightarrow> bool" where
  "isWhiteSpace c = (c \<in> set [CHR 0x09, CHR 0x0A, CHR 0x0B, CHR 0x0C, CHR 0x0D, CHR '' ''])"

definition trim :: "string \<Rightarrow> string" where
  "trim s = rev (dropWhile isWhiteSpace (rev (dropWhile isWhiteSpace s)))"

type_synonym subscription_map = "string \<rightharpoonup> string list"

record NodeSubscriptionManager =
  nodeSubscriptions :: subscription_map
  sessionSubscribers :: subscription_map

definition createNodeSubscriptionManager :: NodeSubscriptionManager where
  "createNodeSubscriptionManager = \<lparr>nodeSubscriptions = Map.empty, sessionSubscribers = Map.empty\<rparr>"

definition setAdd :: "string \<Rightarrow> string list \<Rightarrow> string list" where
  "setAdd x xs = (if x \<in> set xs then xs else xs @ [x])"

text \<open>The pattern \<open>set?.delete(x); if (set?.size === 0) map.delete(key)\<close>, which the source
  writes out three times.\<close>

definition deleteAndPrune :: "string \<Rightarrow> string \<Rightarrow> subscription_map \<Rightarrow> subscription_map" where
  "deleteAndPrune key x m =
     (case m key of
        None \<Rightarrow> m
      | Some xs \<Rightarrow>
          let xs' = removeAll x xs
          in if length xs' = 0 then m(key := None) else m(key \<mapsto> xs'))"

definition subscribe :: "string \<Rightarrow> string \<Rightarrow> NodeSubscriptionManager \<Rightarrow> NodeSubscriptionManager" where
  "subscribe nodeId sessionKey m =
     (let normalizedNodeId = trim nodeId;
          normalizedSessionKey = trim sessionKey
      in if normalizedNodeId = [] \<or> normalizedSessionKey = [] then m
         else
           let nodeSet = (case nodeSubscriptions m normalizedNodeId of None \<Rightarrow> [] | Some xs \<Rightarrow> xs)
           in if normalizedSessionKey \<in> set nodeSet then m
              else
                let sessionSet = (case sessionSubscribers m normalizedSessionKey of
                                    None \<Rightarrow> [] | Some ys \<Rightarrow> ys)
                in m\<lparr>nodeSubscriptions :=
                        (nodeSubscriptions m)(normalizedNodeId \<mapsto> nodeSet @ [normalizedSessionKey]),
                      sessionSubscribers :=
                        (sessionSubscribers m)(normalizedSessionKey \<mapsto> setAdd normalizedNodeId sessionSet)\<rparr>)"

definition unsubscribe :: "string \<Rightarrow> string \<Rightarrow> NodeSubscriptionManager \<Rightarrow> NodeSubscriptionManager" where
  "unsubscribe nodeId sessionKey m =
     (let normalizedNodeId = trim nodeId;
          normalizedSessionKey = trim sessionKey
      in if normalizedNodeId = [] \<or> normalizedSessionKey = [] then m
         else m\<lparr>nodeSubscriptions :=
                   deleteAndPrune normalizedNodeId normalizedSessionKey (nodeSubscriptions m),
                 sessionSubscribers :=
                   deleteAndPrune normalizedSessionKey normalizedNodeId (sessionSubscribers m)\<rparr>)"

definition unsubscribeAll :: "string \<Rightarrow> NodeSubscriptionManager \<Rightarrow> NodeSubscriptionManager" where
  "unsubscribeAll nodeId m =
     (let normalizedNodeId = trim nodeId
      in case nodeSubscriptions m normalizedNodeId of
           None \<Rightarrow> m
         | Some nodeSet \<Rightarrow>
             m\<lparr>sessionSubscribers :=
                  fold (\<lambda>sessionKey. deleteAndPrune sessionKey normalizedNodeId) nodeSet
                    (sessionSubscribers m),
               nodeSubscriptions := (nodeSubscriptions m)(normalizedNodeId := None)\<rparr>)"

datatype subscription_op =
  Subscribe string string | Unsubscribe string string | UnsubscribeAll string

fun applyOp :: "subscription_op \<Rightarrow> NodeSubscriptionManager \<Rightarrow> NodeSubscriptionManager" where
  "applyOp (Subscribe n s) m = subscribe n s m"
| "applyOp (Unsubscribe n s) m = unsubscribe n s m"
| "applyOp (UnsubscribeAll n) m = unsubscribeAll n m"

definition runOps :: "subscription_op list \<Rightarrow> NodeSubscriptionManager" where
  "runOps ops = fold applyOp ops createNodeSubscriptionManager"

definition hasMember :: "subscription_map \<Rightarrow> string \<Rightarrow> string \<Rightarrow> bool" where
  "hasMember m k y = (case m k of None \<Rightarrow> False | Some ys \<Rightarrow> y \<in> set ys)"

definition symmetric :: "NodeSubscriptionManager \<Rightarrow> bool" where
  "symmetric m =
     (\<forall>n s. hasMember (nodeSubscriptions m) n s = hasMember (sessionSubscribers m) s n)"

definition noEmptySets :: "NodeSubscriptionManager \<Rightarrow> bool" where
  "noEmptySets m = (\<forall>k. nodeSubscriptions m k \<noteq> Some [] \<and> sessionSubscribers m k \<noteq> Some [])"

text \<open>A sequence of operations used as a concrete input below: with padded ids, a repeated
  subscription, and removals that empty a set on either side.\<close>

definition ops0 :: "subscription_op list" where
  "ops0 = [Subscribe ''node-a'' ''s1'', Subscribe '' node-a '' ''s2'', Subscribe ''node-b'' ''s1'',
           Unsubscribe ''node-a'' ''s2'', UnsubscribeAll ''node-b'', Subscribe ''node-c'' ''s3'',
           Unsubscribe ''node-a'' ''s1'']"

section \<open>JavaScript values and the delivery context (utils/delivery-context.ts)\<close>

text \<open>
  What \<open>JSON.parse\<close> returns, and what an untyped field of a record holds at run time.
  Numbers are integers (timestamps and thread ids).  An object is the list of its entries in
  order; \<open>undefined\<close> is \<open>None\<close> of \<open>json option\<close>.
\<close>

datatype json =
    JNull
  | JBool bool
  | JNum int
  | JStr string
  | JArr "json list"
  | JObj "(string \<times> json) list"

text \<open>Property access \<open>v.k\<close>: the values read here have no own property but an object's
  entries.\<close>

fun getField :: "json \<Rightarrow> string \<Rightarrow> json option" where
  "getField (JObj kvs) k = map_of kvs k"
| "getField v k = None"

text \<open>\<open>typeof v === "string"\<close>, \<open>"number"\<close>, \<open>"boolean"\<close>, each returning the value.\<close>

fun asString :: "json option \<Rightarrow> string option" where
  "asString (Some (JStr s)) = Some s"
| "asString v = None"

fun asNumber :: "json option \<Rightarrow> int option" where
  "asNumber (Some (JNum n)) = Some n"
| "asNumber v = None"

fun asBoolean :: "json option \<Rightarrow> bool option" where
  "asBoolean (Some (JBool b)) = Some b"
| "asBoolean v = None"

text \<open>\<open>Boolean(v)\<close>, also the test of \<open>if (v)\<close> and \<open>!v\<close>.\<close>

fun truthy :: "json option \<Rightarrow> bool" where
  "truthy None = False"
| "truthy (Some JNull) = False"
| "truthy (Some (JBool b)) = b"
| "truthy (Some (JNum n)) = (n \<noteq> 0)"
| "truthy (Some (JStr s)) = (s \<noteq> [])"
| "truthy (Some (JArr xs)) = True"
| "truthy (Some (JObj kvs)) = True"

text \<open>\<open>typeof v === "object"\<close> for a truthy \<open>v\<close>.\<close>

fun isObject :: "json option \<Rightarrow> bool" where
  "isObject (Some (JArr xs)) = True"
| "isObject (Some (JObj kvs)) = True"
| "isObject v = False"

text \<open>\<open>a ?? b\<close>: \<open>b\<close> when \<open>a\<close> is \<open>undefined\<close> or \<open>null\<close>.\<close>

fun nullish :: "json option \<Rightarrow> json option \<Rightarrow> json option" where
  "nullish None b = b"
| "nullish (Some JNull) b = b"
| "nullish (Some v) b = Some v"

definition orElse :: "'a option \<Rightarrow> 'a option \<Rightarrow> 'a option" where
  "orElse a b = (case a of Some v \<Rightarrow> Some v | None \<Rightarrow> b)"

text \<open>\<open>s || undefined\<close> on an optional string: the empty string is falsy.\<close>

definition nonEmpty :: "string option \<Rightarrow> string option" where
  "nonEmpty s = (case s of Some (c # cs) \<Rightarrow> Some (c # cs) | _ \<Rightarrow> None)"

text \<open>An object literal: a field whose value is \<open>undefined\<close> reads like a missing one.\<close>

definition field :: "string \<Rightarrow> json option \<Rightarrow> (string \<times> json) list" where
  "field k v = (case v of None \<Rightarrow> [] | Some x \<Rightarrow> [(k, x)])"

definition threadJson :: "thread_id \<Rightarrow> json" where
  "threadJson t = (case t of ThreadNum n \<Rightarrow> JNum n | ThreadStr s \<Rightarrow> JStr s)"

definition deliveryContextJson :: "DeliveryContext \<Rightarrow> json" where
  "deliveryContextJson c =
     JObj (field ''channel'' (map_option JStr (channel c)) @
           field ''to'' (map_option JStr (to c)) @
           field ''accountId'' (map_option JStr (accountId c)) @
           field ''threadId'' (map_option threadJson (threadId c)))"

text \<open>
  \<open>normalizeMessageChannel\<close> and \<open>normalizeAccountId\<close> live in modules outside this slice
  (\<open>./message-channel.js\<close>, \<open>./account-id.js\<close>); the functions below take them as the
  parameters \<open>nmc\<close> and \<open>naid\<close>.  Thread ids are integers, so \<open>Math.trunc\<close> is the identity and
  \<open>Number.isFinite\<close> holds.
\<close>

definition normalizeDeliveryContext ::
  "(string \<Rightarrow> string option) \<Rightarrow> (json option \<Rightarrow> string option) \<Rightarrow> json option
     \<Rightarrow> DeliveryContext option" where
  "normalizeDeliveryContext nmc naid context =
     (if \<not> truthy context then None
      else case context of
        None \<Rightarrow> None
      | Some ctx \<Rightarrow>
          let channel' = (case asString (getField ctx ''channel'') of
                            Some c \<Rightarrow> orElse (nmc c) (Some (trim c))
                          | None \<Rightarrow> None);
              to' = map_option trim (asString (getField ctx ''to''));
              accountId' = naid (getField ctx ''accountId'');
              normalizedThreadId =
                (case getField ctx ''threadId'' of
                   Some (JNum n) \<Rightarrow> Some (ThreadNum n)
                 | Some (JStr s) \<Rightarrow> (if trim s = [] then None else Some (ThreadStr (trim s)))
                 | _ \<Rightarrow> None)
          in if nonEmpty channel' = None \<and> nonEmpty to' = None \<and> nonEmpty accountId' = None
                \<and> normalizedThreadId = None
             then None
             else Some \<lparr>channel = nonEmpty channel', to = nonEmpty to', accountId = accountId',
                        threadId = normalizedThreadId\<rparr>)"

definition mergeDeliveryContext ::
  "(string \<Rightarrow> string option) \<Rightarrow> (json option \<Rightarrow> string option)
     \<Rightarrow> DeliveryContext option \<Rightarrow> DeliveryContext option \<Rightarrow> DeliveryContext option" where
  "mergeDeliveryContext nmc naid primary fallback =
     (let normalizedPrimary = normalizeDeliveryContext nmc naid (map_option deliveryContextJson primary);
          normalizedFallback = normalizeDeliveryContext nmc naid (map_option deliveryContextJson fallback)
      in if normalizedPrimary = None \<and> normalizedFallback = None then None
         else normalizeDeliveryContext nmc naid
                (Some (deliveryContextJson
                   \<lparr>channel = orElse (Option.bind normalizedPrimary channel)
                                     (Option.bind normalizedFallback channel),
                    to = orElse (Option.bind normalizedPrimary to) (Option.bind normalizedFallback to),
                    accountId = orElse (Option.bind normalizedPrimary accountId)
                                       (Option.bind normalizedFallback accountId),
                    threadId = orElse (Option.bind normalizedPrimary threadId)
                                      (Option.bind normalizedFallback threadId)\<rparr>)))"

text \<open>The fields of a session store entry that this slice reads.\<close>

record SessionEntry =
  sessionId :: "string option"
  entryChannel :: "string option"
  lastChannel :: "string option"
  lastTo :: "string option"
  lastAccountId :: "string option"
  lastThreadId :: "thread_id option"
  deliveryContext :: "DeliveryContext option"
  originThreadId :: "thread_id option"

definition deliveryContextFromSession ::
  "(string \<Rightarrow> string option) \<Rightarrow> (json option \<Rightarrow> string option)
     \<Rightarrow> SessionEntry option \<Rightarrow> DeliveryContext option" where
  "deliveryContextFromSession nmc naid entry =
     (case entry of
        None \<Rightarrow> None
      | Some e \<Rightarrow>
          let sourceThreadId =
                orElse (lastThreadId e)
                  (orElse (Option.bind (deliveryContext e) threadId) (originThreadId e))
          in mergeDeliveryContext nmc naid
               (normalizeDeliveryContext nmc naid
                  (Some (deliveryContextJson
                     \<lparr>channel = orElse (lastChannel e) (entryChannel e), to = lastTo e,
                      accountId = lastAccountId e, threadId = sourceThreadId\<rparr>)))
               (normalizeDeliveryContext nmc naid
                  (map_option deliveryContextJson (deliveryContext e))))"

section \<open>Registry persistence (src/agents/subagent-registry.store.ts)\<close>

text \<open>
  \<open>Object.entries\<close> of a parsed value: an object's entries, and for an array (which also
  passes \<open>typeof runsRaw === "object"\<close>) its elements under their decimal indices.
\<close>

fun showNat :: "nat \<Rightarrow> string" where
  "showNat n =
     (if n < 10 then [char_of (48 + n)] else showNat (n div 10) @ [char_of (48 + n mod 10)])"

definition objectEntries :: "json \<Rightarrow> (string \<times> json) list" where
  "objectEntries v =
     (case v of
        JObj kvs \<Rightarrow> kvs
      | JArr xs \<Rightarrow> zip (map showNat [0..<length xs]) xs
      | _ \<Rightarrow> [])"

text \<open>
  A loaded record: the three fields the loader computes, and \<open>rest\<close>, the entry's other
  fields as they were on disk (the spread \<open>...rest\<close>, which the three fields override; the
  four legacy fields are dropped).
\<close>

record LoadedRun =
  m_requesterOrigin :: "DeliveryContext option"
  m_cleanupCompletedAt :: "int option"
  m_cleanupHandled :: "bool option"
  m_rest :: "(string \<times> json) list"

definition legacyKeys :: "string list" where
  "legacyKeys = [''announceCompletedAt'', ''announceHandled'', ''requesterChannel'',
                 ''requesterAccountId'']"

definition computedKeys :: "string list" where
  "computedKeys = [''requesterOrigin'', ''cleanupCompletedAt'', ''cleanupHandled'']"

text \<open>The body of the loop for an entry that passed the two \<open>continue\<close> tests.\<close>

definition migrateEntry ::
  "(string \<Rightarrow> string option) \<Rightarrow> (json option \<Rightarrow> string option) \<Rightarrow> bool \<Rightarrow> json \<Rightarrow> LoadedRun" where
  "migrateEntry nmc naid isLegacy typed =
     (let legacyCompletedAt =
            (if isLegacy then asNumber (getField typed ''announceCompletedAt'') else None);
          cleanupCompletedAt' =
            (case asNumber (getField typed ''cleanupCompletedAt'') of
               Some n \<Rightarrow> Some n
             | None \<Rightarrow> legacyCompletedAt);
          cleanupHandled' =
            (case asBoolean (getField typed ''cleanupHandled'') of
               Some b \<Rightarrow> Some b
             | None \<Rightarrow>
                 if isLegacy
                 then Some (truthy (nullish (getField typed ''announceHandled'')
                                            (map_option JNum cleanupCompletedAt')))
                 else None);
          requesterOrigin' =
            normalizeDeliveryContext nmc naid
              (nullish (getField typed ''requesterOrigin'')
                 (Some (JObj (field ''channel''
                                (map_option JStr (asString (getField typed ''requesterChannel''))) @
                              field ''accountId''
                                (map_option JStr (asString (getField typed ''requesterAccountId'')))))))
      in \<lparr>m_requesterOrigin = requesterOrigin',
          m_cleanupCompletedAt = cleanupCompletedAt',
          m_cleanupHandled = cleanupHandled',
          m_rest = filter (\<lambda>(k, v). k \<notin> set legacyKeys \<and> k \<notin> set computedKeys)
                     (objectEntries typed)\<rparr>)"

text \<open>The two \<open>continue\<close> tests: the entry is an object whose \<open>runId\<close> is a non-empty
  string.\<close>

definition validEntry :: "json \<Rightarrow> bool" where
  "validEntry entry =
     (truthy (Some entry) \<and> isObject (Some entry)
      \<and> (case asString (getField entry ''runId'') of Some s \<Rightarrow> s \<noteq> [] | None \<Rightarrow> False))"

text \<open>The loop: the map \<open>out\<close> and the flag \<open>migrated\<close>.\<close>

fun loadLoop ::
  "(string \<Rightarrow> string option) \<Rightarrow> (json option \<Rightarrow> string option) \<Rightarrow> bool
     \<Rightarrow> (string \<times> json) list \<Rightarrow> (string \<rightharpoonup> LoadedRun) \<times> bool
     \<Rightarrow> (string \<rightharpoonup> LoadedRun) \<times> bool" where
  "loadLoop nmc naid isLegacy [] acc = acc"
| "loadLoop nmc naid isLegacy ((rid, entry) # rest) (out, migrated) =
     (if \<not> validEntry entry then loadLoop nmc naid isLegacy rest (out, migrated)
      else loadLoop nmc naid isLegacy rest
             (out(rid \<mapsto> migrateEntry nmc naid isLegacy entry),
              (if isLegacy then True else migrated)))"

text \<open>
  \<open>loadSubagentRegistryFromDisk\<close>: \<open>raw\<close> is what \<open>loadJsonFile\<close> returned (\<open>None\<close> for
  \<open>undefined\<close>).  The result is the loaded map and, when the loader called
  \<open>saveSubagentRegistryToDisk\<close>, the envelope it wrote (a failing write is caught and the map
  is returned all the same).
\<close>

definition loadSubagentRegistryFromDisk ::
  "(string \<Rightarrow> string option) \<Rightarrow> (json option \<Rightarrow> string option) \<Rightarrow> json option
     \<Rightarrow> (string \<rightharpoonup> LoadedRun) \<times> LoadedRun PersistedSubagentRegistry option" where
  "loadSubagentRegistryFromDisk nmc naid raw =
     (if \<not> truthy raw \<or> \<not> isObject raw then (Map.empty, None)
      else case raw of
        None \<Rightarrow> (Map.empty, None)
      | Some record \<Rightarrow>
          if getField record ''version'' \<noteq> Some (JNum 1) \<and> getField record ''version'' \<noteq> Some (JNum 2)
          then (Map.empty, None)
          else
            let runsRaw = getField record ''runs''
            in if \<not> truthy runsRaw \<or> \<not> isObject runsRaw then (Map.empty, None)
               else case runsRaw of
                 None \<Rightarrow> (Map.empty, None)
               | Some rs \<Rightarrow>
                   let isLegacy = (getField record ''version'' = Some (JNum 1));
                       (out, migrated) =
                          loadLoop nmc naid isLegacy (objectEntries rs) (Map.empty, False)
                   in (out, if migrated then Some (saveSubagentRegistryToDisk out) else None))"

text \<open>Concrete inputs: stand-ins for the two normalisers (lower-casing is not modelled: the
  channel is trimmed, the account id passed through when it is a string), a version-1 file
  with one run, an empty version-1 file, a version-1 file whose run carries both
  generations of fields, and a version-1 file whose only run is stored under the key
  \<open>__proto__\<close>.\<close>

definition nmc0 :: "string \<Rightarrow> string option" where
  "nmc0 c = (if trim c = [] then None else Some (trim c))"

definition naid0 :: "json option \<Rightarrow> string option" where
  "naid0 v = map_option trim (asString v)"

definition legacyRun :: json where
  "legacyRun = JObj [(''runId'', JStr ''r1''), (''childSessionKey'', JStr ''agent:main:subagent:u1''),
                     (''announceCompletedAt'', JNum 1700), (''announceHandled'', JBool True),
                     (''requesterChannel'', JStr ''slack''), (''requesterAccountId'', JStr ''acct-1'')]"

definition legacyFile :: json where
  "legacyFile = JObj [(''version'', JNum 1), (''runs'', JObj [(''r1'', legacyRun)])]"

definition emptyLegacyFile :: json where
  "emptyLegacyFile = JObj [(''version'', JNum 1), (''runs'', JObj [])]"

definition mixedRun :: json where
  "mixedRun = JObj [(''runId'', JStr ''r1''), (''cleanupCompletedAt'', JNum 5),
                    (''announceCompletedAt'', JNum 7)]"

definition mixedFile :: json where
  "mixedFile = JObj [(''version'', JNum 1), (''runs'', JObj [(''r1'', mixedRun)])]"

definition protoFile :: json where
  "protoFile = JObj [(''version'', JNum 1), (''runs'', JObj [(''__proto__'', legacyRun)])]"
section \<open>Subagent announce flow (src/agents/subagent-announce.ts)\<close>

datatype queue_mode =
  ModeSteer | ModeFollowup | ModeCollect | ModeSteerBacklog | ModeInterrupt | ModeOther

datatype announce_type = SubagentTask | CronJob

definition announceTypeText :: "announce_type \<Rightarrow> string" where
  "announceTypeText t = (case t of SubagentTask \<Rightarrow> ''subagent task'' | CronJob \<Rightarrow> ''cron job'')"

record AnnounceQueueItem =
  prompt :: string
  summaryLine :: "string option"
  enqueuedAt :: int
  sessionKey :: string
  origin :: "DeliveryContext option"

text \<open>The parameters of a gateway call of method \<open>agent\<close>.\<close>

record agent_call =
  ac_sessionKey :: string
  ac_message :: string
  ac_deliver :: bool
  ac_channel :: "string option"
  ac_accountId :: "string option"
  ac_to :: "string option"
  ac_threadId :: "string option"

text \<open>
  What the flow does to the outside, in order: the gateway calls \<open>agent.wait\<close>, \<open>agent\<close> (with
  whether it returned), \<open>sessions.patch\<close> and \<open>sessions.delete\<close>; an attempt to steer the
  message into the requester's embedded run (with its answer); and a call of
  \<open>enqueueAnnounce\<close>.
\<close>

datatype effect =
    AgentWait string int
  | QueueEmbeddedPiMessage string string bool
  | EnqueueAnnounce string AnnounceQueueItem queue_mode
  | Agent agent_call bool
  | SessionsPatch string string
  | SessionsDelete string bool

text \<open>An effect that puts the announcement before the requester: an accepted steer, an
  enqueued item, or an \<open>agent\<close> call.\<close>

fun publishes :: "effect \<Rightarrow> bool" where
  "publishes (QueueEmbeddedPiMessage sid msg accepted) = accepted"
| "publishes (EnqueueAnnounce k item mode) = True"
| "publishes (Agent c returned) = True"
| "publishes e = False"

text \<open>
  Everything the flow asks of its surroundings.  The configuration, the session store, the
  queue settings, the embedded-run registry, the gateway and the clock are outside this
  slice; their answers are the fields of a record.  A question asked several times may be
  answered differently each time: \<open>isEmbeddedPiRunActive\<close> takes the call site (0: on entry
  for the child, 1: after the settle wait, 2: after the reply retries, 3: for the requester
  in \<open>maybeQueueSubagentAnnounce\<close>), \<open>readLatestAssistantReply\<close> the number of reads before
  it.  \<open>agentWait\<close> and \<open>agentCallReturns\<close> say whether the gateway call throws; the other
  helpers are taken to return.  \<open>retryPolls\<close> is the number of iterations the retry loop
  makes before its deadline.
\<close>

record world =
  normalizeMessageChannel :: "string \<Rightarrow> string option"
  normalizeAccountId :: "json option \<Rightarrow> string option"
  mainKey :: string
  mainSessionKey :: string
  resolveAgentIdFromSessionKey :: "string \<Rightarrow> string"
  loadSessionStore :: "string \<Rightarrow> string \<Rightarrow> SessionEntry option"
  resolveQueueMode :: "SessionEntry \<Rightarrow> queue_mode"
  isEmbeddedPiRunActive :: "nat \<Rightarrow> string \<Rightarrow> bool"
  waitForEmbeddedPiRunEnd :: "string \<Rightarrow> int \<Rightarrow> bool"
  queueEmbeddedPiMessage :: "string \<Rightarrow> string \<Rightarrow> bool"
  agentWait :: "string \<Rightarrow> int \<Rightarrow> wait_result option"
  readLatestAssistantReply :: "nat \<Rightarrow> string \<Rightarrow> string option"
  retryPolls :: nat
  buildSubagentStatsLine :: "string \<Rightarrow> int option \<Rightarrow> int option \<Rightarrow> string"
  agentCallReturns :: "agent_call \<Rightarrow> bool"
  dateNow :: int

text \<open>Truthiness of an optional string, and \<open>a || b\<close> on strings.\<close>

definition truthyStr :: "string option \<Rightarrow> bool" where
  "truthyStr s = (case s of None \<Rightarrow> False | Some t \<Rightarrow> t \<noteq> [])"

definition strOr :: "string option \<Rightarrow> string \<Rightarrow> string" where
  "strOr s d = (if truthyStr s then (case s of Some t \<Rightarrow> t | None \<Rightarrow> d) else d)"

text \<open>\<open>reply?.trim()\<close> as a condition.\<close>

definition trimTruthy :: "string option \<Rightarrow> bool" where
  "trimTruthy s = (case s of None \<Rightarrow> False | Some t \<Rightarrow> trim t \<noteq> [])"

definition startsWith :: "string \<Rightarrow> string \<Rightarrow> bool" where
  "startsWith s p = (take (length p) s = p)"

text \<open>\<open>String(n)\<close> for an integer.\<close>

definition showInt :: "int \<Rightarrow> string" where
  "showInt i = (if i < 0 then CHR ''-'' # showNat (nat (- i)) else showNat (nat i))"

text \<open>The \<open>threadId\<close> argument of an \<open>agent\<close> call:
  \<open>origin?.threadId != null && origin.threadId !== "" ? String(origin.threadId) : undefined\<close>.\<close>

definition threadIdText :: "DeliveryContext option \<Rightarrow> string option" where
  "threadIdText oc =
     (case Option.bind oc threadId of
        None \<Rightarrow> None
      | Some (ThreadNum n) \<Rightarrow> Some (showInt n)
      | Some (ThreadStr s) \<Rightarrow> (if s = [] then None else Some s))"

definition resolveRequesterStoreKey :: "world \<Rightarrow> string \<Rightarrow> string" where
  "resolveRequesterStoreKey w requesterKey =
     (let raw = trim requesterKey
      in if raw = [] then raw
         else if raw = ''global'' \<or> raw = ''unknown'' then raw
         else if startsWith raw ''agent:'' then raw
         else if raw = ''main'' \<or> raw = mainKey w then mainSessionKey w
         else ''agent:'' @ resolveAgentIdFromSessionKey w raw @ '':'' @ raw)"

definition loadRequesterSessionEntry :: "world \<Rightarrow> string \<Rightarrow> SessionEntry option \<times> string" where
  "loadRequesterSessionEntry w requesterKey =
     (let canonicalKey = resolveRequesterStoreKey w requesterKey;
          agentId = resolveAgentIdFromSessionKey w canonicalKey
      in (loadSessionStore w agentId canonicalKey, canonicalKey))"

definition loadSessionEntryByKey :: "world \<Rightarrow> string \<Rightarrow> SessionEntry option" where
  "loadSessionEntryByKey w key = loadSessionStore w (resolveAgentIdFromSessionKey w key) key"

definition resolveAnnounceOrigin ::
  "world \<Rightarrow> SessionEntry option \<Rightarrow> DeliveryContext option \<Rightarrow> DeliveryContext option" where
  "resolveAnnounceOrigin w entry requesterOrigin' =
     mergeDeliveryContext (normalizeMessageChannel w) (normalizeAccountId w) requesterOrigin'
       (deliveryContextFromSession (normalizeMessageChannel w) (normalizeAccountId w) entry)"

datatype queue_result = Steered | Queued | NoQueue

text \<open>\<open>maybeQueueSubagentAnnounce\<close>: the answer (\<open>NoQueue\<close> is \<open>"none"\<close>) and the effects.\<close>

definition maybeQueueSubagentAnnounce ::
  "world \<Rightarrow> string \<Rightarrow> string \<Rightarrow> string option \<Rightarrow> DeliveryContext option
     \<Rightarrow> queue_result \<times> effect list" where
  "maybeQueueSubagentAnnounce w requesterKey triggerMessage summary requesterOrigin' =
     (let entry = fst (loadRequesterSessionEntry w requesterKey);
          canonicalKey = resolveRequesterStoreKey w requesterKey
      in case entry of
           None \<Rightarrow> (NoQueue, [])
         | Some e \<Rightarrow>
             (case sessionId e of
                None \<Rightarrow> (NoQueue, [])
              | Some sid \<Rightarrow>
                  if sid = [] then (NoQueue, [])
                  else
                    let mode = resolveQueueMode w e;
                        isActive = isEmbeddedPiRunActive w 3 sid;
                        shouldSteer = (mode = ModeSteer \<or> mode = ModeSteerBacklog);
                        steered = (shouldSteer \<and> queueEmbeddedPiMessage w sid triggerMessage);
                        steerEffects =
                          (if shouldSteer then [QueueEmbeddedPiMessage sid triggerMessage steered]
                           else [])
                    in if steered then (Steered, steerEffects)
                       else
                         let shouldFollowup =
                               (mode = ModeFollowup \<or> mode = ModeCollect
                                \<or> mode = ModeSteerBacklog \<or> mode = ModeInterrupt)
                         in if isActive \<and> (shouldFollowup \<or> mode = ModeSteer)
                            then (Queued,
                                  steerEffects @
                                  [EnqueueAnnounce canonicalKey
                                     \<lparr>prompt = triggerMessage, summaryLine = summary,
                                      enqueuedAt = dateNow w, sessionKey = canonicalKey,
                                      origin = resolveAnnounceOrigin w entry requesterOrigin'\<rparr>
                                     mode])
                            else (NoQueue, steerEffects)))"

text \<open>
  The three instruction lines that end the trigger message, as the UTF-8 bytes of the
  source's string literals.  The second one is a plain (double-quoted) literal, so the text
  \<open>${announceType}\<close> in it is not interpolated; the third names the sentinel \<open>NO_REPLY\<close>.
\<close>

definition instructionLine1 :: string where
  "instructionLine1 = map char_of
     [232, 175, 183, 228, 184, 186, 231, 148, 168, 230, 136, 183, 232, 135, 170, 231,
      132, 182, 229, 156, 176, 230, 128, 187, 231, 187, 147, 228, 187, 165, 228, 184,
      139, 229, 134, 133, 229, 174, 185, 227, 128, 130, 228, 191, 157, 230, 140, 129,
      231, 174, 128, 230, 180, 129, 239, 188, 136, 49, 45, 50, 229, 143, 165, 232, 175,
      157, 239, 188, 137, 227, 128, 130, 232, 135, 170, 231, 132, 182, 229, 156, 176,
      232, 158, 141, 229, 133, 165, 229, 175, 185, 232, 175, 157, 230, 181, 129, 231,
      168, 139, 228, 184, 173, 227, 128, 130 :: nat]"

definition instructionLine2 :: string where
  "instructionLine2 = map char_of
     [228, 184, 141, 233, 156, 128, 232, 166, 129, 230, 143, 144, 229, 143, 138, 230,
      138, 128, 230, 156, 175, 231, 187, 134, 232, 138, 130, 239, 188, 140, 228, 190,
      139, 229, 166, 130, 228, 187, 164, 231, 137, 140, 230, 149, 176, 233, 135, 143,
      227, 128, 129, 231, 187, 159, 232, 174, 161, 230, 149, 176, 230, 141, 174, 230,
      136, 150, 232, 191, 153, 230, 152, 175, 228, 184, 128, 228, 184, 170, 36, 123, 97,
      110, 110, 111, 117, 110, 99, 101, 84, 121, 112, 101, 125, 227, 128, 130 :: nat]"

definition instructionLine3 :: string where
  "instructionLine3 = map char_of
     [229, 166, 130, 230, 158, 156, 228, 184, 141, 233, 156, 128, 232, 166, 129, 232,
      191, 155, 232, 161, 140, 233, 128, 154, 231, 159, 165, 239, 188, 136, 228, 190,
      139, 229, 166, 130, 239, 188, 140, 230, 178, 161, 230, 156, 137, 231, 148, 168,
      230, 136, 183, 229, 143, 175, 232, 167, 129, 231, 187, 147, 230, 158, 156, 231,
      154, 132, 229, 134, 133, 233, 131, 168, 228, 187, 187, 229, 138, 161, 239, 188,
      137, 239, 188, 140, 228, 189, 160, 229, 143, 175, 228, 187, 165, 231, 148, 168, 39,
      78, 79, 95, 82, 69, 80, 76, 89, 39, 230, 157, 165, 229, 155, 158, 229, 186, 148,
      227, 128, 130 :: nat]"

text \<open>\<open>lines.join("\n")\<close>.\<close>

fun joinLines :: "string list \<Rightarrow> string" where
  "joinLines [] = []"
| "joinLines [l] = l"
| "joinLines (l # m # ls) = l @ [CHR 0x0A] @ joinLines (m # ls)"

text \<open>The status label (lines 565 to 572) and the trigger message (lines 576 to 593).\<close>

definition statusLabel :: "SubagentRunOutcome \<Rightarrow> string" where
  "statusLabel oc =
     (if status oc = StatusOk then ''completed successfully''
      else if status oc = StatusTimeout then ''timed out''
      else if status oc = StatusError then ''failed: '' @ strOr (error oc) ''unknown error''
      else ''finished with unknown status'')"

definition buildTriggerMessage ::
  "announce_type \<Rightarrow> string \<Rightarrow> SubagentRunOutcome \<Rightarrow> string option \<Rightarrow> string \<Rightarrow> string" where
  "buildTriggerMessage ty taskLabel oc reply statsLine =
     joinLines
       [''A '' @ announceTypeText ty @ '' '' @ [CHR 0x22] @ taskLabel @ [CHR 0x22] @ '' just ''
          @ statusLabel oc @ ''.'',
        [],
        ''Findings:'',
        strOr reply ''(no output)'',
        [],
        statsLine,
        [],
        instructionLine1,
        instructionLine2,
        instructionLine3]"

record flow_params =
  p_childSessionKey :: string
  p_childRunId :: string
  p_requesterSessionKey :: string
  p_requesterOrigin :: "DeliveryContext option"
  p_requesterDisplayKey :: string
  p_task :: string
  p_timeoutMs :: int
  p_cleanup :: cleanup_policy
  p_roundOneReply :: "string option"
  p_waitForCompletion :: "bool option"
  p_startedAt :: "int option"
  p_endedAt :: "int option"
  p_label :: "string option"
  p_outcome :: "SubagentRunOutcome option"
  p_announceType :: "announce_type option"

definition settleTimeoutMs :: "flow_params \<Rightarrow> int" where
  "settleTimeoutMs p = min (max (p_timeoutMs p) 1) 120000"

definition childSessionId :: "world \<Rightarrow> flow_params \<Rightarrow> string option" where
  "childSessionId w p =
     (case Option.bind (loadSessionEntryByKey w (p_childSessionKey p)) sessionId of
        None \<Rightarrow> None
      | Some s \<Rightarrow> (if trim s \<noteq> [] then Some (trim s) else None))"

text \<open>The loop of \<open>readLatestAssistantReplyWithRetry\<close>, entered with no usable reply: \<open>n\<close>
  iterations are left before the deadline, \<open>k\<close> reads were made so far.\<close>

fun retryLoop :: "world \<Rightarrow> string \<Rightarrow> nat \<Rightarrow> nat \<Rightarrow> string option" where
  "retryLoop w key 0 k = None"
| "retryLoop w key (Suc n) k =
     (let latest = readLatestAssistantReply w k key
      in if trimTruthy latest then latest else retryLoop w key n (Suc k))"

text \<open>
  The flow up to the point where the message is built (lines 463 to 554).  It ends by an
  early \<open>return false\<close> that keeps the child session (\<open>Deferred\<close>), by an exception of
  \<open>agent.wait\<close> (\<open>Threw\<close>), or with the outcome, the reply and the two timestamps in hand.
\<close>

datatype gathered =
    Deferred
  | Threw "effect list"
  | Gathered SubagentRunOutcome "string option" "int option" "int option" "effect list"

definition afterWait ::
  "world \<Rightarrow> flow_params \<Rightarrow> SubagentRunOutcome option \<Rightarrow> string option \<Rightarrow> nat
     \<Rightarrow> int option \<Rightarrow> int option \<Rightarrow> effect list \<Rightarrow> gathered" where
  "afterWait w p oc reply0 k started ended effs =
     (let reply1 = (if \<not> truthyStr reply0
                    then readLatestAssistantReply w k (p_childSessionKey p) else reply0);
          k1 = (if \<not> truthyStr reply0 then Suc k else k);
          reply2 = (if \<not> trimTruthy reply1
                    then retryLoop w (p_childSessionKey p) (retryPolls w) k1 else reply1)
      in if \<not> trimTruthy reply2
            \<and> (case childSessionId w p of
                  None \<Rightarrow> False | Some cid \<Rightarrow> isEmbeddedPiRunActive w 2 cid)
         then Deferred
         else Gathered (case oc of Some v \<Rightarrow> v | None \<Rightarrow> \<lparr>status = StatusUnknown, error = None\<rparr>)
                reply2 started ended effs)"

definition gatherReply :: "world \<Rightarrow> flow_params \<Rightarrow> gathered" where
  "gatherReply w p =
     (if (case childSessionId w p of
            None \<Rightarrow> False
          | Some cid \<Rightarrow>
              isEmbeddedPiRunActive w 0 cid
              \<and> \<not> waitForEmbeddedPiRunEnd w cid (settleTimeoutMs p)
              \<and> isEmbeddedPiRunActive w 1 cid)
      then Deferred
      else if \<not> truthyStr (p_roundOneReply p) \<and> p_waitForCompletion p \<noteq> Some False then
        (case agentWait w (p_childRunId p) (settleTimeoutMs p) of
           None \<Rightarrow> Threw [AgentWait (p_childRunId p) (settleTimeoutMs p)]
         | Some wait \<Rightarrow>
             let oc = (if wait_status wait = WaitTimeout
                       then Some \<lparr>status = StatusTimeout, error = None\<rparr>
                       else if wait_status wait = WaitError
                       then Some \<lparr>status = StatusError, error = wait_error wait\<rparr>
                       else if wait_status wait = WaitOk
                       then Some \<lparr>status = StatusOk, error = None\<rparr>
                       else p_outcome p);
                 started = (if wait_startedAt wait \<noteq> None \<and> \<not> truthyNum (p_startedAt p)
                            then wait_startedAt wait else p_startedAt p);
                 ended = (if wait_endedAt wait \<noteq> None \<and> \<not> truthyNum (p_endedAt p)
                          then wait_endedAt wait else p_endedAt p)
             in afterWait w p oc (readLatestAssistantReply w 0 (p_childSessionKey p)) 1
                  started ended [AgentWait (p_childRunId p) (settleTimeoutMs p)])
      else afterWait w p (p_outcome p) (p_roundOneReply p) 0 (p_startedAt p) (p_endedAt p) [])"

definition taskLabel :: "flow_params \<Rightarrow> string" where
  "taskLabel p = strOr (p_label p) (strOr (Some (p_task p)) ''task'')"

definition announceTypeOf :: "flow_params \<Rightarrow> announce_type" where
  "announceTypeOf p = (case p_announceType p of Some t \<Rightarrow> t | None \<Rightarrow> SubagentTask)"

text \<open>The message the flow builds from what it gathered.\<close>

definition flowMessage ::
  "world \<Rightarrow> flow_params \<Rightarrow> SubagentRunOutcome \<Rightarrow> string option \<Rightarrow> int option \<Rightarrow> int option
     \<Rightarrow> string" where
  "flowMessage w p oc reply started ended =
     buildTriggerMessage (announceTypeOf p) (taskLabel p) oc reply
       (buildSubagentStatsLine w (p_childSessionKey p) started ended)"

text \<open>Lines 595 to 638: queue or send.  The result is \<open>didAnnounce\<close> and the effects.\<close>

definition deliver :: "world \<Rightarrow> flow_params \<Rightarrow> string \<Rightarrow> bool \<times> effect list" where
  "deliver w p triggerMessage =
     (let requesterOrigin' =
            normalizeDeliveryContext (normalizeMessageChannel w) (normalizeAccountId w)
              (map_option deliveryContextJson (p_requesterOrigin p));
          (queued, qEffects) =
            maybeQueueSubagentAnnounce w (p_requesterSessionKey p) triggerMessage
              (Some (taskLabel p)) requesterOrigin'
      in if queued = Steered \<or> queued = Queued then (True, qEffects)
         else
           let directOrigin =
                 (case requesterOrigin' of
                    Some oc \<Rightarrow> Some oc
                  | None \<Rightarrow>
                      deliveryContextFromSession (normalizeMessageChannel w) (normalizeAccountId w)
                        (fst (loadRequesterSessionEntry w (p_requesterSessionKey p))));
               call = \<lparr>ac_sessionKey = p_requesterSessionKey p, ac_message = triggerMessage,
                       ac_deliver = True,
                       ac_channel = Option.bind directOrigin channel,
                       ac_accountId = Option.bind directOrigin accountId,
                       ac_to = Option.bind directOrigin to,
                       ac_threadId = threadIdText directOrigin\<rparr>
           in (agentCallReturns w call, qEffects @ [Agent call (agentCallReturns w call)]))"

text \<open>The \<open>finally\<close> block: patch the label, delete the child session.\<close>

definition finallyEffects :: "flow_params \<Rightarrow> bool \<Rightarrow> effect list" where
  "finallyEffects p shouldDeleteChildSession =
     (if truthyStr (p_label p)
      then [SessionsPatch (p_childSessionKey p) (strOr (p_label p) [])] else []) @
     (if shouldDeleteChildSession then [SessionsDelete (p_childSessionKey p) True] else [])"

definition runSubagentAnnounceFlow :: "world \<Rightarrow> flow_params \<Rightarrow> bool \<times> effect list" where
  "runSubagentAnnounceFlow w p =
     (case gatherReply w p of
        Deferred \<Rightarrow> (False, finallyEffects p False)
      | Threw effs \<Rightarrow> (False, effs @ finallyEffects p (p_cleanup p = Delete))
      | Gathered oc reply started ended effs \<Rightarrow>
          let (didAnnounce, dEffects) = deliver w p (flowMessage w p oc reply started ended)
          in (didAnnounce, effs @ dEffects @ finallyEffects p (p_cleanup p = Delete)))"

text \<open>
  Concrete inputs.  \<open>world0\<close>: no session store entries (so the requester has no session id
  and the send is direct), nothing active, every gateway call returns, reads give no reply.
  \<open>collectWorld active\<close>: the requester \<open>agent:main:main\<close> has session \<open>sess-1\<close> in mode
  \<open>collect\<close>, and its run is active or not.  \<open>skipParams\<close>: the child's first-round reply is
  exactly \<open>ANNOUNCE_SKIP\<close>.
\<close>

definition world0 :: world where
  "world0 = \<lparr>normalizeMessageChannel = nmc0, normalizeAccountId = naid0,
      mainKey = ''main'', mainSessionKey = ''agent:main:main'',
      resolveAgentIdFromSessionKey = (\<lambda>k. ''main''),
      loadSessionStore = (\<lambda>agent key. None),
      resolveQueueMode = (\<lambda>e. ModeCollect),
      isEmbeddedPiRunActive = (\<lambda>site sid. False),
      waitForEmbeddedPiRunEnd = (\<lambda>sid ms. True),
      queueEmbeddedPiMessage = (\<lambda>sid msg. False),
      agentWait = (\<lambda>rid ms. Some \<lparr>wait_status = WaitOk, wait_startedAt = None,
                                     wait_endedAt = None, wait_error = None\<rparr>),
      readLatestAssistantReply = (\<lambda>n key. None),
      retryPolls = 2,
      buildSubagentStatsLine = (\<lambda>key s e. ''Stats: runtime n/a''),
      agentCallReturns = (\<lambda>c. True),
      dateNow = 2000\<rparr>"

definition requesterEntry :: SessionEntry where
  "requesterEntry = \<lparr>sessionId = Some ''sess-1'', entryChannel = None, lastChannel = None,
      lastTo = None, lastAccountId = None, lastThreadId = None, deliveryContext = None,
      originThreadId = None\<rparr>"

definition collectWorld :: "bool \<Rightarrow> world" where
  "collectWorld active =
     world0\<lparr>loadSessionStore :=
               (\<lambda>agent key. if key = ''agent:main:main'' then Some requesterEntry else None),
             isEmbeddedPiRunActive := (\<lambda>site sid. site = 3 \<and> sid = ''sess-1'' \<and> active)\<rparr>"

definition skipParams :: flow_params where
  "skipParams = \<lparr>p_childSessionKey = ''agent:main:subagent:u1'', p_childRunId = ''r1'',
      p_requesterSessionKey = ''main'', p_requesterOrigin = None,
      p_requesterDisplayKey = ''main'', p_task = ''summarise foo'', p_timeoutMs = 30000,
      p_cleanup = Keep, p_roundOneReply = Some ''ANNOUNCE_SKIP'',
      p_waitForCompletion = Some False, p_startedAt = Some 1000, p_endedAt = Some 1500,
      p_label = Some ''foo'', p_outcome = Some \<lparr>status = StatusOk, error = None\<rparr>,
      p_announceType = None\<rparr>"

text \<open>The message an effect carries to the requester, if any.\<close>

fun messageOf :: "effect \<Rightarrow> string option" where
  "messageOf (QueueEmbeddedPiMessage sid msg accepted) = Some msg"
| "messageOf (EnqueueAnnounce k item mode) = Some (prompt item)"
| "messageOf (Agent c returned) = Some (ac_message c)"
| "messageOf e = None"

text \<open>Two runs whose outcome is \<open>error: boom\<close> while the child's reply says otherwise.\<close>

definition errorParams :: "string \<Rightarrow> flow_params" where
  "errorParams reply =
     skipParams\<lparr>p_roundOneReply := Some reply,
                p_outcome := Some \<lparr>status = StatusError, error = Some ''boom''\<rparr>\<rparr>"

text \<open>A world in which \<open>agent.wait\<close> answers \<open>timeout\<close> and the child session holds the reply
  \<open>partial\<close>, and two runs with outcome \<open>ok\<close> that differ in the reply they are given.\<close>

definition timeoutWorld :: world where
  "timeoutWorld =
     world0\<lparr>agentWait := (\<lambda>rid ms. Some \<lparr>wait_status = WaitTimeout, wait_startedAt = None,
                                              wait_endedAt = None, wait_error = None\<rparr>),
            readLatestAssistantReply := (\<lambda>n key. Some ''partial'')\<rparr>"

definition okParams :: "string option \<Rightarrow> flow_params" where
  "okParams reply = skipParams\<lparr>p_roundOneReply := reply, p_waitForCompletion := None\<rparr>"
section \<open>Lane queue with generations (the command queue of src/unnamed/part\_002)\<close>

text \<open>
  A JavaScript number, rounding aside: a real, one of the two infinities, or NaN.  The
  capacity \<open>maxConcurrent\<close> and the threshold \<open>warnAfterMs\<close> are numbers given by the caller;
  what \<open>Date.now()\<close> returns, and the waiting times, are integers.
\<close>

datatype number = Number real | Infinity | MinusInfinity | NaN

text \<open>\<open>a < b\<close> and \<open>a >= b\<close> (both false when an operand is NaN), \<open>Math.floor\<close> and
  \<open>Math.max(a, b)\<close>.\<close>

fun numLess :: "number \<Rightarrow> number \<Rightarrow> bool" where
  "numLess NaN b = False"
| "numLess a NaN = False"
| "numLess (Number a) (Number b) = (a < b)"
| "numLess (Number a) Infinity = True"
| "numLess (Number a) MinusInfinity = False"
| "numLess Infinity b = False"
| "numLess MinusInfinity MinusInfinity = False"
| "numLess MinusInfinity b = True"

definition numGe :: "number \<Rightarrow> number \<Rightarrow> bool" where
  "numGe a b = (a \<noteq> NaN \<and> b \<noteq> NaN \<and> \<not> numLess a b)"

definition mathFloor :: "number \<Rightarrow> number" where
  "mathFloor a = (case a of Number r \<Rightarrow> Number (of_int \<lfloor>r\<rfloor>) | _ \<Rightarrow> a)"

definition mathMax :: "number \<Rightarrow> number \<Rightarrow> number" where
  "mathMax a b = (if a = NaN \<or> b = NaN then NaN else if numLess a b then b else a)"

text \<open>
  A queue entry holds three closures (\<open>task\<close>, \<open>resolve\<close>, \<open>reject\<close>) and an optional
  callback \<open>onWait\<close>.  The model names the entry by a number chosen by the caller and
  records every call of one of its closures in a trace, together with the calls of the
  diagnostic logger (without the durations they print).

  The module calls \<open>entry.task()\<close> and \<open>entry.onWait\<close> at most once each, in the middle of its
  loop, so each of the two is given by what that one call does.  \<open>entry.task()\<close> either
  returns a promise, which settles later with a result or an error (both strings), or
  throws at once.  \<open>entry.onWait(waitedMs, queuedAhead)\<close> either returns or throws.  Neither
  calls a function of the module before it returns or throws; the diagnostic logger never
  throws.
\<close>

datatype task_start = Suspends | ThrowsSync string

datatype callback = Returns | Throws string

record QueueEntry =
  entryId :: nat
  task :: task_start
  enqueuedAt :: int
  warnAfterMs :: number
  onWait :: "callback option"

text \<open>What a promise is rejected with: a value caught by the \<open>catch\<close> block of the async
  closure, or the typed error of a cleared lane with its message.\<close>

datatype lane_error = Caught string | CommandLaneClearedError string

text \<open>
  The observations: the calls of the logger, of \<open>entry.onWait\<close>, \<open>entry.task\<close>,
  \<open>entry.resolve\<close> and \<open>entry.reject\<close>, and the three ways an exception leaves the module:
  an exported function throws to its caller (\<open>Threw\<close>); the executor of the promise that
  \<open>enqueueCommandInLane\<close> returns throws, which rejects that promise unless it is settled
  (\<open>ExecutorThrew\<close>); the promise of an async closure is rejected, which nobody handles
  (\<open>UnhandledRejection\<close>).
\<close>

datatype lane_obs =
    LogLaneEnqueue string int
  | LogLaneDequeue string int nat
  | OnWaitCalled nat int nat
  | WarnWaitExceeded string int nat
  | TaskStarted nat
  | DebugTaskDone string int nat
  | ErrorTaskFailed string string
  | Resolved nat string
  | Rejected nat lane_error
  | Threw string
  | ExecutorThrew nat string
  | UnhandledRejection string

record LaneState =
  lane :: string
  queue :: "QueueEntry list"
  activeTaskIds :: "nat list"
  maxConcurrent :: number
  draining :: bool
  generation :: nat

text \<open>An async closure started by \<open>pump\<close> and suspended at \<open>await entry.task()\<close>: it holds
  the lane state (by its lane name: lane states are never replaced or removed), the entry,
  the task id and the generation it was started under.\<close>

record running_task =
  rt_lane :: string
  rt_entry :: QueueEntry
  rt_taskId :: nat
  rt_generation :: nat

text \<open>The module state: the map \<open>lanes\<close> in insertion order, \<open>nextTaskId\<close>, the suspended
  closures (oldest first) and the trace.\<close>

record queue_state =
  lanes :: "(string \<times> LaneState) list"
  nextTaskId :: nat
  pending :: "running_task list"
  trace :: "lane_obs list"

definition initialQueueState :: queue_state where
  "initialQueueState = \<lparr>lanes = [], nextTaskId = 1, pending = [], trace = []\<rparr>"

definition CommandLane_Main :: string where
  "CommandLane_Main = ''main''"

text \<open>\<open>lane.trim() || CommandLane.Main\<close>.\<close>

definition cleanLane :: "string \<Rightarrow> string" where
  "cleanLane l = (if trim l = [] then CommandLane_Main else trim l)"

text \<open>Writing a lane state back under its key: the source mutates the object the map
  holds.\<close>

definition putLane :: "string \<Rightarrow> LaneState \<Rightarrow> queue_state \<Rightarrow> queue_state" where
  "putLane l st s = s\<lparr>lanes := AList.update l st (lanes s)\<rparr>"

definition getLaneState :: "string \<Rightarrow> queue_state \<Rightarrow> LaneState \<times> queue_state" where
  "getLaneState l s =
     (case map_of (lanes s) l of
        Some existing \<Rightarrow> (existing, s)
      | None \<Rightarrow>
          let created = \<lparr>lane = l, queue = [], activeTaskIds = [], maxConcurrent = Number 1,
                         draining = False, generation = 0\<rparr>
          in (created, s\<lparr>lanes := AList.update l created (lanes s)\<rparr>))"

definition completeTask :: "LaneState \<Rightarrow> nat \<Rightarrow> nat \<Rightarrow> bool \<times> LaneState" where
  "completeTask st taskId taskGeneration =
     (if taskGeneration \<noteq> generation st then (False, st)
      else (True, st\<lparr>activeTaskIds := removeAll taskId (activeTaskIds st)\<rparr>))"

text \<open>\<open>l.startsWith("auth-probe:") || l.startsWith("session:probe-")\<close>.\<close>

definition isProbeLane :: "string \<Rightarrow> bool" where
  "isProbeLane l = (startsWith l ''auth-probe:'' \<or> startsWith l ''session:probe-'')"

text \<open>
  \<open>pump\<close> is a loop, and it is called again from inside itself: when \<open>entry.task()\<close> throws at
  once, the \<open>catch\<close> block of the async closure runs before the closure returns to the loop,
  and calls \<open>pump()\<close>.  The model runs the loop one step at a time and keeps the \<open>catch\<close>
  blocks that wait for the \<open>pump\<close> they called in a stack of frames, the innermost first:
  each frame is the entry whose task threw and the error.
\<close>

type_synonym pump_frame = "QueueEntry \<times> string"

text \<open>The loop condition fails: the innermost \<open>pump\<close> clears \<open>draining\<close> and returns.  If a
  \<open>catch\<close> block called it, that block goes on to \<open>entry.reject(err)\<close> and returns to the
  loop that started its entry.  \<open>Inr\<close> is the return of the outermost \<open>pump\<close>, \<open>Inl\<close> the
  frames and state the loop goes on with.\<close>

definition finishPump ::
  "string \<Rightarrow> pump_frame list \<Rightarrow> LaneState \<Rightarrow> queue_state
     \<Rightarrow> (pump_frame list \<times> queue_state) + (string option \<times> queue_state)" where
  "finishPump l stk st s =
     (let s1 = putLane l (st\<lparr>draining := False\<rparr>) s
      in case stk of
           [] \<Rightarrow> Inr (None, s1)
         | (e, err) # stk' \<Rightarrow>
             Inl (stk', s1\<lparr>trace := trace s1 @ [Rejected (entryId e) (Caught err)]\<rparr>))"

text \<open>
  One iteration of the loop, for the head \<open>entry\<close> of lane state \<open>st\<close>.  The entry is shifted
  off the queue first.  If its wait reached the threshold, \<open>onWait\<close> is called; when that
  throws, the exception leaves the innermost \<open>pump\<close>: the outermost one throws to its caller
  (\<open>Inr\<close> with the error), an inner one was called by a \<open>catch\<close> block, whose closure ends in
  an unhandled rejection, and the loop that started that closure's entry goes on.
  Otherwise the entry gets a task id and \<open>entry.task()\<close> is called.  If it returns a promise
  the closure is suspended.  If it throws, the \<open>catch\<close> block completes the task, logs the
  error and calls \<open>pump()\<close>: a frame is pushed.
\<close>

definition startEntry ::
  "string \<Rightarrow> int \<Rightarrow> pump_frame list \<Rightarrow> LaneState \<Rightarrow> QueueEntry \<Rightarrow> QueueEntry list \<Rightarrow> queue_state
     \<Rightarrow> (pump_frame list \<times> queue_state) + (string option \<times> queue_state)" where
  "startEntry l now stk st entry rest s =
     (let waitedMs = now - enqueuedAt entry;
          exceeded = numGe (Number (of_int waitedMs)) (warnAfterMs entry);
          called = (if exceeded \<and> onWait entry \<noteq> None
                    then [OnWaitCalled (entryId entry) waitedMs (length rest)] else [])
      in case (if exceeded then onWait entry else None) of
           Some (Throws err) \<Rightarrow>
             (let s1 = (putLane l (st\<lparr>queue := rest\<rparr>) s)\<lparr>trace := trace s @ called\<rparr>
              in case stk of
                   [] \<Rightarrow> Inr (Some err, s1)
                 | frame # stk' \<Rightarrow>
                     Inl (stk', s1\<lparr>trace := trace s1 @ [UnhandledRejection err]\<rparr>))
         | _ \<Rightarrow>
             (let taskId = nextTaskId s;
                  taskGeneration = generation st;
                  st1 = st\<lparr>queue := rest, activeTaskIds := activeTaskIds st @ [taskId]\<rparr>;
                  tr = called
                       @ (if exceeded then [WarnWaitExceeded l waitedMs (length rest)] else [])
                       @ [LogLaneDequeue l waitedMs (length rest), TaskStarted (entryId entry)]
              in case task entry of
                   Suspends \<Rightarrow>
                     Inl (stk,
                          s\<lparr>lanes := AList.update l st1 (lanes s),
                            nextTaskId := Suc taskId,
                            pending := pending s @
                              [\<lparr>rt_lane = l, rt_entry = entry, rt_taskId = taskId,
                                rt_generation = taskGeneration\<rparr>],
                            trace := trace s @ tr\<rparr>)
                 | ThrowsSync err \<Rightarrow>
                     (let (completedCurrentGeneration, st2) =
                            completeTask st1 taskId taskGeneration;
                          s2 = s\<lparr>lanes := AList.update l st2 (lanes s),
                                 nextTaskId := Suc taskId,
                                 trace := trace s @ tr
                                   @ (if \<not> isProbeLane l then [ErrorTaskFailed l err] else [])\<rparr>
                      in if completedCurrentGeneration then Inl ((entry, err) # stk, s2)
                         else Inl (stk,
                                   s2\<lparr>trace := trace s2 @
                                        [Rejected (entryId entry) (Caught err)]\<rparr>))))"

text \<open>One evaluation of the loop condition
  \<open>state.activeTaskIds.size < state.maxConcurrent && state.queue.length > 0\<close>, and what
  follows.  The closure holds the lane state; the model looks it up under \<open>l\<close> (\<open>pump\<close>
  only runs for a lane that exists).\<close>

definition pumpStep ::
  "string \<Rightarrow> int \<Rightarrow> pump_frame list \<Rightarrow> queue_state
     \<Rightarrow> (pump_frame list \<times> queue_state) + (string option \<times> queue_state)" where
  "pumpStep l now stk s =
     (case map_of (lanes s) l of
        None \<Rightarrow> Inr (None, s)
      | Some st \<Rightarrow>
          (case queue st of
             [] \<Rightarrow> finishPump l stk st s
           | entry # rest \<Rightarrow>
               if numLess (Number (of_nat (length (activeTaskIds st)))) (maxConcurrent st)
               then startEntry l now stk st entry rest s
               else finishPump l stk st s))"

text \<open>Twice the length of the lane's queue plus the number of frames: it goes down with
  every step.\<close>

definition pumpMeasure :: "string \<Rightarrow> pump_frame list \<Rightarrow> queue_state \<Rightarrow> nat" where
  "pumpMeasure l stk s =
     2 * (case map_of (lanes s) l of None \<Rightarrow> 0 | Some st \<Rightarrow> length (queue st)) + length stk"

function pumpLoop ::
  "string \<Rightarrow> int \<Rightarrow> pump_frame list \<Rightarrow> queue_state \<Rightarrow> string option \<times> queue_state" where
  "pumpLoop l now stk s =
     (case pumpStep l now stk s of
        Inr result \<Rightarrow> result
      | Inl (stk', s') \<Rightarrow> pumpLoop l now stk' s')"
  by pat_completeness auto
termination
proof (relation "measure (\<lambda>(l, now, stk, s). pumpMeasure l stk s)")
  show "wf (measure (\<lambda>(l, now, stk, s). pumpMeasure l stk s))"
    by simp
next
  fix l :: string and now :: int and stk stk' :: "pump_frame list" and s s' :: queue_state
    and x
  assume "pumpStep l now stk s = Inl x" "(stk', s') = x"
  then have step: "pumpStep l now stk s = Inl (stk', s')" by simp
  have "pumpMeasure l stk' s' < pumpMeasure l stk s"
  proof (cases "map_of (lanes s) l")
    case None
    with step show ?thesis by (simp add: pumpStep_def)
  next
    case (Some st)
    have fin: "finishPump l stk st s = Inl (stk', s') \<Longrightarrow> ?thesis"
      using Some
      by (auto simp: finishPump_def putLane_def pumpMeasure_def Let_def update_conv'
          split: list.splits)
    have start: "startEntry l now stk st entry rest s = Inl (stk', s') \<Longrightarrow>
        queue st = entry # rest \<Longrightarrow> ?thesis" for entry rest
      using Some
      by (auto simp: startEntry_def putLane_def pumpMeasure_def Let_def update_conv'
          completeTask_def
          split: list.splits option.splits callback.splits task_start.splits if_splits)
    from step Some fin start show ?thesis
      by (auto simp: pumpStep_def split: list.splits if_splits)
  qed
  then show "((l, now, stk', s'), (l, now, stk, s))
       \<in> measure (\<lambda>(l, now, stk, s). pumpMeasure l stk s)"
    by simp
qed

text \<open>The state a step ends in.\<close>

definition stepState ::
  "(pump_frame list \<times> queue_state) + (string option \<times> queue_state) \<Rightarrow> queue_state" where
  "stepState r = (case r of Inl x \<Rightarrow> snd x | Inr y \<Rightarrow> snd y)"

text \<open>The defining equation of \<open>pumpLoop\<close> is unfolded by hand, one step at a time.\<close>

declare pumpLoop.simps [simp del]

text \<open>\<open>pump()\<close>, called from \<open>drainLane\<close> or from an async closure that resumes: the error it
  throws, if any, and the state it leaves.\<close>

definition pump :: "string \<Rightarrow> int \<Rightarrow> queue_state \<Rightarrow> string option \<times> queue_state" where
  "pump l now s = pumpLoop l now [] s"

definition drainLane :: "string \<Rightarrow> int \<Rightarrow> queue_state \<Rightarrow> string option \<times> queue_state" where
  "drainLane l now s =
     (let (st, s1) = getLaneState l s
      in if draining st then (None, s1)
         else pump l now (putLane l (st\<lparr>draining := True\<rparr>) s1))"

text \<open>\<open>setCommandLaneConcurrency(lane, maxConcurrent)\<close>: the error it throws to its caller, if
  any, and the state.\<close>

definition setCommandLaneConcurrency ::
  "string \<Rightarrow> number \<Rightarrow> int \<Rightarrow> queue_state \<Rightarrow> string option \<times> queue_state" where
  "setCommandLaneConcurrency l n now s =
     (let cleaned = cleanLane l;
          (st, s1) = getLaneState cleaned s
      in drainLane cleaned now
           (putLane cleaned (st\<lparr>maxConcurrent := mathMax (Number 1) (mathFloor n)\<rparr>) s1))"

text \<open>
  \<open>enqueueCommandInLane(lane, task, opts)\<close>: \<open>eid\<close> names the new entry, \<open>tk\<close> is what its task
  does when called, \<open>warn\<close> is \<open>opts?.warnAfterMs\<close> and \<open>cb\<close> is \<open>opts?.onWait\<close>.  The function
  always returns the promise; the push, the log and \<open>drainLane\<close> run in the promise's
  executor, and an exception of \<open>drainLane\<close> is caught by the promise constructor.
\<close>

definition enqueueCommandInLane ::
  "string \<Rightarrow> nat \<Rightarrow> task_start \<Rightarrow> number option \<Rightarrow> callback option \<Rightarrow> int \<Rightarrow> queue_state
     \<Rightarrow> queue_state" where
  "enqueueCommandInLane l eid tk warn cb now s =
     (let cleaned = cleanLane l;
          warnAfter = (case warn of Some v \<Rightarrow> v | None \<Rightarrow> Number 2000);
          (st, s1) = getLaneState cleaned s;
          st' = st\<lparr>queue := queue st @
                   [\<lparr>entryId = eid, task = tk, enqueuedAt = now, warnAfterMs = warnAfter,
                     onWait = cb\<rparr>]\<rparr>;
          s2 = (putLane cleaned st' s1)
                 \<lparr>trace := trace s1 @
                    [LogLaneEnqueue cleaned
                       (int (length (queue st')) + int (length (activeTaskIds st')))]\<rparr>;
          (thrown, s3) = drainLane cleaned now s2
      in case thrown of
           None \<Rightarrow> s3
         | Some err \<Rightarrow> s3\<lparr>trace := trace s3 @ [ExecutorThrew eid err]\<rparr>)"

definition enqueueCommand ::
  "nat \<Rightarrow> task_start \<Rightarrow> number option \<Rightarrow> callback option \<Rightarrow> int \<Rightarrow> queue_state \<Rightarrow> queue_state" where
  "enqueueCommand eid tk warn cb now s =
     enqueueCommandInLane CommandLane_Main eid tk warn cb now s"



definition clearedMessage :: "string \<Rightarrow> string" where
  "clearedMessage l =
     (if l \<noteq> [] then ''Command lane '' @ [CHR 0x22] @ l @ [CHR 0x22] @ '' cleared''
      else ''Command lane cleared'')"

definition clearCommandLane :: "string \<Rightarrow> queue_state \<Rightarrow> int \<times> queue_state" where
  "clearCommandLane l s =
     (let cleaned = cleanLane l
      in case map_of (lanes s) cleaned of
           None \<Rightarrow> (0, s)
         | Some st \<Rightarrow>
             (int (length (queue st)),
              (putLane cleaned (st\<lparr>queue := []\<rparr>) s)
                \<lparr>trace := trace s @
                   map (\<lambda>entry. Rejected (entryId entry)
                                    (CommandLaneClearedError (clearedMessage cleaned)))
                       (queue st)\<rparr>))"




text \<open>
  The \<open>catch\<close> block of the async closure \<open>r\<close>, entered with the caught value \<open>err\<close> after the
  closure has resumed: complete the task, log the error unless the lane is a probe lane,
  call \<open>pump()\<close> if the task belongs to the current generation, and reject the entry's
  promise.  If that \<open>pump()\<close> throws, the closure ends in an unhandled rejection and
  \<open>entry.reject\<close> is not called.
\<close>

definition catchBlock :: "running_task \<Rightarrow> string \<Rightarrow> int \<Rightarrow> queue_state \<Rightarrow> queue_state" where
  "catchBlock r err now s =
     (case map_of (lanes s) (rt_lane r) of
        None \<Rightarrow> s
      | Some st \<Rightarrow>
          let (completedCurrentGeneration, st') = completeTask st (rt_taskId r) (rt_generation r);
              s1 = putLane (rt_lane r) st' s;
              s2 = (if \<not> isProbeLane (rt_lane r)
                    then s1\<lparr>trace := trace s1 @ [ErrorTaskFailed (rt_lane r) err]\<rparr>
                    else s1)
          in if completedCurrentGeneration
             then (case pump (rt_lane r) now s2 of
                     (None, s3) \<Rightarrow>
                       s3\<lparr>trace := trace s3 @ [Rejected (entryId (rt_entry r)) (Caught err)]\<rparr>
                   | (Some err', s3) \<Rightarrow> s3\<lparr>trace := trace s3 @ [UnhandledRejection err']\<rparr>)
             else s2\<lparr>trace := trace s2 @ [Rejected (entryId (rt_entry r)) (Caught err)]\<rparr>)"

text \<open>
  The rest of the async closure, run when the promise of \<open>entry.task()\<close> settles: with an
  error (\<open>Inl\<close>) the \<open>catch\<close> block; with a value (\<open>Inr\<close>) the rest of the \<open>try\<close> block, whose
  \<open>pump()\<close> is inside the \<open>try\<close>, so that an exception of it enters the \<open>catch\<close> block too.
\<close>

definition taskSettled :: "running_task \<Rightarrow> string + string \<Rightarrow> int \<Rightarrow> queue_state \<Rightarrow> queue_state" where
  "taskSettled r res now s =
     (case res of
        Inl err \<Rightarrow> catchBlock r err now s
      | Inr result \<Rightarrow>
          (case map_of (lanes s) (rt_lane r) of
             None \<Rightarrow> s
           | Some st \<Rightarrow>
               let (completedCurrentGeneration, st') =
                     completeTask st (rt_taskId r) (rt_generation r);
                   s1 = putLane (rt_lane r) st' s
               in if completedCurrentGeneration
                  then (case pump (rt_lane r) now
                               (s1\<lparr>trace := trace s1 @
                                     [DebugTaskDone (rt_lane r) (int (length (activeTaskIds st')))
                                        (length (queue st'))]\<rparr>) of
                          (None, s2) \<Rightarrow>
                            s2\<lparr>trace := trace s2 @ [Resolved (entryId (rt_entry r)) result]\<rparr>
                        | (Some err, s2) \<Rightarrow> catchBlock r err now s2)
                  else s1\<lparr>trace := trace s1 @ [Resolved (entryId (rt_entry r)) result]\<rparr>))"

text \<open>
  What can happen to the module, each at a time \<open>now\<close>: a call of an exported function, or
  the \<open>k\<close>-th suspended closure resuming because its task settled (nothing happens when
  there is no such closure).  An exception thrown to the caller is recorded in the trace.
\<close>

datatype lane_call =
    EnqueueInLane string nat task_start "number option" "callback option"
  | EnqueueMain nat task_start "number option" "callback option"
  | SetConcurrency string number
  | TaskSettles nat "string + string"


definition settleAt :: "nat \<Rightarrow> string + string \<Rightarrow> int \<Rightarrow> queue_state \<Rightarrow> queue_state" where
  "settleAt k res now s =
     (if k < length (pending s)
      then taskSettled (pending s ! k) res now
             (s\<lparr>pending := take k (pending s) @ drop (Suc k) (pending s)\<rparr>)
      else s)"

definition recordThrow :: "string option \<times> queue_state \<Rightarrow> queue_state" where
  "recordThrow r =
     (case fst r of None \<Rightarrow> snd r | Some err \<Rightarrow> (snd r)\<lparr>trace := trace (snd r) @ [Threw err]\<rparr>)"

fun applyCall :: "int \<Rightarrow> lane_call \<Rightarrow> queue_state \<Rightarrow> queue_state" where
  "applyCall now (EnqueueInLane l eid tk warn cb) s = enqueueCommandInLane l eid tk warn cb now s"
| "applyCall now (EnqueueMain eid tk warn cb) s = enqueueCommand eid tk warn cb now s"
| "applyCall now (SetConcurrency l n) s = recordThrow (setCommandLaneConcurrency l n now s)"
| "applyCall now (TaskSettles k res) s = settleAt k res now s"



text \<open>
  What holds of every state the events can reach: the lanes have distinct names, each lane
  state carries its own name, and every suspended closure belongs to an existing lane and
  was started under a generation no later than the lane's.
\<close>

definition laneInv :: "queue_state \<Rightarrow> bool" where
  "laneInv s =
     (distinct (map fst (lanes s))
      \<and> (\<forall>l st. map_of (lanes s) l = Some st \<longrightarrow> lane st = l)
      \<and> (\<forall>r \<in> set (pending s). \<exists>st. map_of (lanes s) (rt_lane r) = Some st
             \<and> rt_generation r \<le> generation st))"

text \<open>Between two states: every lane of the first is a lane of the second, with a generation
  that is no smaller.\<close>

definition genLe :: "queue_state \<Rightarrow> queue_state \<Rightarrow> bool" where
  "genLe s s' =
     (\<forall>l st. map_of (lanes s) l = Some st \<longrightarrow>
        (\<exists>st'. map_of (lanes s') l = Some st' \<and> generation st \<le> generation st'))"


text \<open>
  An entry is quiet when its calls give the loop nothing to catch: \<open>onWait\<close>, if there is
  one, returns, and the task returns a promise.  \<open>pumpCount\<close> is the number of entries a
  \<open>pump\<close> of lane state \<open>st\<close> starts when the entries are quiet: what the queue holds, up to
  the free capacity, which is unbounded for \<open>Infinity\<close> and nothing for NaN.
\<close>

definition onWaitReturns :: "callback option \<Rightarrow> bool" where
  "onWaitReturns cb = (case cb of Some (Throws err) \<Rightarrow> False | _ \<Rightarrow> True)"





section \<open>Lane queue with a counter (src/process/command-queue.ts)\<close>

text \<open>
  The second implementation of the same module.  Its lane state counts the running tasks in
  \<open>active\<close>; it has no task ids, no generation and no \<open>resetAllLanes\<close>, and its
  \<open>clearCommandLane\<close> truncates the queue.  Names carry the suffix \<open>_cq\<close>; numbers, entries,
  observations, frames and calls are those of the previous section.
\<close>

record LaneState_cq =
  lane_cq :: string
  queue_cq :: "QueueEntry list"
  active_cq :: int
  maxConcurrent_cq :: number
  draining_cq :: bool

record queue_state_cq =
  lanes_cq :: "(string \<times> LaneState_cq) list"
  pending_cq :: "(string \<times> QueueEntry) list"
  trace_cq :: "lane_obs list"

definition initialQueueState_cq :: queue_state_cq where
  "initialQueueState_cq = \<lparr>lanes_cq = [], pending_cq = [], trace_cq = []\<rparr>"

definition putLane_cq :: "string \<Rightarrow> LaneState_cq \<Rightarrow> queue_state_cq \<Rightarrow> queue_state_cq" where
  "putLane_cq l st s = s\<lparr>lanes_cq := AList.update l st (lanes_cq s)\<rparr>"

definition getLaneState_cq :: "string \<Rightarrow> queue_state_cq \<Rightarrow> LaneState_cq \<times> queue_state_cq" where
  "getLaneState_cq l s =
     (case map_of (lanes_cq s) l of
        Some existing \<Rightarrow> (existing, s)
      | None \<Rightarrow>
          let created = \<lparr>lane_cq = l, queue_cq = [], active_cq = 0, maxConcurrent_cq = Number 1,
                         draining_cq = False\<rparr>
          in (created, s\<lparr>lanes_cq := AList.update l created (lanes_cq s)\<rparr>))"

definition finishPump_cq ::
  "string \<Rightarrow> pump_frame list \<Rightarrow> LaneState_cq \<Rightarrow> queue_state_cq
     \<Rightarrow> (pump_frame list \<times> queue_state_cq) + (string option \<times> queue_state_cq)" where
  "finishPump_cq l stk st s =
     (let s1 = putLane_cq l (st\<lparr>draining_cq := False\<rparr>) s
      in case stk of
           [] \<Rightarrow> Inr (None, s1)
         | (e, err) # stk' \<Rightarrow>
             Inl (stk', s1\<lparr>trace_cq := trace_cq s1 @ [Rejected (entryId e) (Caught err)]\<rparr>))"

text \<open>One iteration of the loop: as in the previous section, with \<open>state.active += 1\<close> for
  the task id, and \<open>state.active -= 1\<close> in the \<open>catch\<close> block, which always calls \<open>pump()\<close>.\<close>

definition startEntry_cq ::
  "string \<Rightarrow> int \<Rightarrow> pump_frame list \<Rightarrow> LaneState_cq \<Rightarrow> QueueEntry \<Rightarrow> QueueEntry list
     \<Rightarrow> queue_state_cq
     \<Rightarrow> (pump_frame list \<times> queue_state_cq) + (string option \<times> queue_state_cq)" where
  "startEntry_cq l now stk st entry rest s =
     (let waitedMs = now - enqueuedAt entry;
          exceeded = numGe (Number (of_int waitedMs)) (warnAfterMs entry);
          called = (if exceeded \<and> onWait entry \<noteq> None
                    then [OnWaitCalled (entryId entry) waitedMs (length rest)] else [])
      in case (if exceeded then onWait entry else None) of
           Some (Throws err) \<Rightarrow>
             (let s1 = (putLane_cq l (st\<lparr>queue_cq := rest\<rparr>) s)\<lparr>trace_cq := trace_cq s @ called\<rparr>
              in case stk of
                   [] \<Rightarrow> Inr (Some err, s1)
                 | frame # stk' \<Rightarrow>
                     Inl (stk', s1\<lparr>trace_cq := trace_cq s1 @ [UnhandledRejection err]\<rparr>))
         | _ \<Rightarrow>
             (let st1 = st\<lparr>queue_cq := rest, active_cq := active_cq st + 1\<rparr>;
                  tr = called
                       @ (if exceeded then [WarnWaitExceeded l waitedMs (length rest)] else [])
                       @ [LogLaneDequeue l waitedMs (length rest), TaskStarted (entryId entry)]
              in case task entry of
                   Suspends \<Rightarrow>
                     Inl (stk,
                          s\<lparr>lanes_cq := AList.update l st1 (lanes_cq s),
                            pending_cq := pending_cq s @ [(l, entry)],
                            trace_cq := trace_cq s @ tr\<rparr>)
                 | ThrowsSync err \<Rightarrow>
                     (let st2 = st1\<lparr>active_cq := active_cq st1 - 1\<rparr>
                      in Inl ((entry, err) # stk,
                              s\<lparr>lanes_cq := AList.update l st2 (lanes_cq s),
                                trace_cq := trace_cq s @ tr
                                  @ (if \<not> isProbeLane l then [ErrorTaskFailed l err]
                                     else [])\<rparr>))))"

definition pumpStep_cq ::
  "string \<Rightarrow> int \<Rightarrow> pump_frame list \<Rightarrow> queue_state_cq
     \<Rightarrow> (pump_frame list \<times> queue_state_cq) + (string option \<times> queue_state_cq)" where
  "pumpStep_cq l now stk s =
     (case map_of (lanes_cq s) l of
        None \<Rightarrow> Inr (None, s)
      | Some st \<Rightarrow>
          (case queue_cq st of
             [] \<Rightarrow> finishPump_cq l stk st s
           | entry # rest \<Rightarrow>
               if numLess (Number (of_int (active_cq st))) (maxConcurrent_cq st)
               then startEntry_cq l now stk st entry rest s
               else finishPump_cq l stk st s))"

definition pumpMeasure_cq :: "string \<Rightarrow> pump_frame list \<Rightarrow> queue_state_cq \<Rightarrow> nat" where
  "pumpMeasure_cq l stk s =
     2 * (case map_of (lanes_cq s) l of None \<Rightarrow> 0 | Some st \<Rightarrow> length (queue_cq st))
       + length stk"

function pumpLoop_cq ::
  "string \<Rightarrow> int \<Rightarrow> pump_frame list \<Rightarrow> queue_state_cq \<Rightarrow> string option \<times> queue_state_cq" where
  "pumpLoop_cq l now stk s =
     (case pumpStep_cq l now stk s of
        Inr result \<Rightarrow> result
      | Inl (stk', s') \<Rightarrow> pumpLoop_cq l now stk' s')"
  by pat_completeness auto
termination
proof (relation "measure (\<lambda>(l, now, stk, s). pumpMeasure_cq l stk s)")
  show "wf (measure (\<lambda>(l, now, stk, s). pumpMeasure_cq l stk s))"
    by simp
next
  fix l :: string and now :: int and stk stk' :: "pump_frame list" and s s' :: queue_state_cq
    and x
  assume "pumpStep_cq l now stk s = Inl x" "(stk', s') = x"
  then have step: "pumpStep_cq l now stk s = Inl (stk', s')" by simp
  have "pumpMeasure_cq l stk' s' < pumpMeasure_cq l stk s"
  proof (cases "map_of (lanes_cq s) l")
    case None
    with step show ?thesis by (simp add: pumpStep_cq_def)
  next
    case (Some st)
    have fin: "finishPump_cq l stk st s = Inl (stk', s') \<Longrightarrow> ?thesis"
      using Some
      by (auto simp: finishPump_cq_def putLane_cq_def pumpMeasure_cq_def Let_def update_conv'
          split: list.splits)
    have start: "startEntry_cq l now stk st entry rest s = Inl (stk', s') \<Longrightarrow>
        queue_cq st = entry # rest \<Longrightarrow> ?thesis" for entry rest
      using Some
      by (auto simp: startEntry_cq_def putLane_cq_def pumpMeasure_cq_def Let_def update_conv'
          split: list.splits option.splits callback.splits task_start.splits if_splits)
    from step Some fin start show ?thesis
      by (auto simp: pumpStep_cq_def split: list.splits if_splits)
  qed
  then show "((l, now, stk', s'), (l, now, stk, s))
       \<in> measure (\<lambda>(l, now, stk, s). pumpMeasure_cq l stk s)"
    by simp
qed

text \<open>The defining equation of \<open>pumpLoop_cq\<close> is unfolded by hand, one step at a time.\<close>

declare pumpLoop_cq.simps [simp del]

definition pump_cq :: "string \<Rightarrow> int \<Rightarrow> queue_state_cq \<Rightarrow> string option \<times> queue_state_cq" where
  "pump_cq l now s = pumpLoop_cq l now [] s"

definition drainLane_cq :: "string \<Rightarrow> int \<Rightarrow> queue_state_cq \<Rightarrow> string option \<times> queue_state_cq" where
  "drainLane_cq l now s =
     (let (st, s1) = getLaneState_cq l s
      in if draining_cq st then (None, s1)
         else pump_cq l now (putLane_cq l (st\<lparr>draining_cq := True\<rparr>) s1))"

definition setCommandLaneConcurrency_cq ::
  "string \<Rightarrow> number \<Rightarrow> int \<Rightarrow> queue_state_cq \<Rightarrow> string option \<times> queue_state_cq" where
  "setCommandLaneConcurrency_cq l n now s =
     (let cleaned = cleanLane l;
          (st, s1) = getLaneState_cq cleaned s
      in drainLane_cq cleaned now
           (putLane_cq cleaned (st\<lparr>maxConcurrent_cq := mathMax (Number 1) (mathFloor n)\<rparr>) s1))"

definition enqueueCommandInLane_cq ::
  "string \<Rightarrow> nat \<Rightarrow> task_start \<Rightarrow> number option \<Rightarrow> callback option \<Rightarrow> int \<Rightarrow> queue_state_cq
     \<Rightarrow> queue_state_cq" where
  "enqueueCommandInLane_cq l eid tk warn cb now s =
     (let cleaned = cleanLane l;
          warnAfter = (case warn of Some v \<Rightarrow> v | None \<Rightarrow> Number 2000);
          (st, s1) = getLaneState_cq cleaned s;
          st' = st\<lparr>queue_cq := queue_cq st @
                   [\<lparr>entryId = eid, task = tk, enqueuedAt = now, warnAfterMs = warnAfter,
                     onWait = cb\<rparr>]\<rparr>;
          s2 = (putLane_cq cleaned st' s1)
                 \<lparr>trace_cq := trace_cq s1 @
                    [LogLaneEnqueue cleaned (int (length (queue_cq st')) + active_cq st')]\<rparr>;
          (thrown, s3) = drainLane_cq cleaned now s2
      in case thrown of
           None \<Rightarrow> s3
         | Some err \<Rightarrow> s3\<lparr>trace_cq := trace_cq s3 @ [ExecutorThrew eid err]\<rparr>)"

definition enqueueCommand_cq ::
  "nat \<Rightarrow> task_start \<Rightarrow> number option \<Rightarrow> callback option \<Rightarrow> int \<Rightarrow> queue_state_cq
     \<Rightarrow> queue_state_cq" where
  "enqueueCommand_cq eid tk warn cb now s =
     enqueueCommandInLane_cq CommandLane_Main eid tk warn cb now s"

definition getQueueSize_cq :: "string \<Rightarrow> queue_state_cq \<Rightarrow> int" where
  "getQueueSize_cq l s =
     (case map_of (lanes_cq s) (cleanLane l) of
        None \<Rightarrow> 0
      | Some st \<Rightarrow> int (length (queue_cq st)) + active_cq st)"


text \<open>\<open>state.queue.length = 0\<close>: the entries are dropped, none of their closures is called.\<close>

definition clearCommandLane_cq :: "string \<Rightarrow> queue_state_cq \<Rightarrow> int \<times> queue_state_cq" where
  "clearCommandLane_cq l s =
     (let cleaned = cleanLane l
      in case map_of (lanes_cq s) cleaned of
           None \<Rightarrow> (0, s)
         | Some st \<Rightarrow>
             (int (length (queue_cq st)), putLane_cq cleaned (st\<lparr>queue_cq := []\<rparr>) s))"

text \<open>The \<open>catch\<close> block of the async closure of entry \<open>snd r\<close> in lane \<open>fst r\<close>, after the
  closure has resumed: it decrements \<open>active\<close>, whether or not the \<open>try\<close> block did so
  before.\<close>

definition catchBlock_cq ::
  "string \<times> QueueEntry \<Rightarrow> string \<Rightarrow> int \<Rightarrow> queue_state_cq \<Rightarrow> queue_state_cq" where
  "catchBlock_cq r err now s =
     (case map_of (lanes_cq s) (fst r) of
        None \<Rightarrow> s
      | Some st \<Rightarrow>
          let st' = st\<lparr>active_cq := active_cq st - 1\<rparr>;
              s1 = putLane_cq (fst r) st' s;
              s2 = (if \<not> isProbeLane (fst r)
                    then s1\<lparr>trace_cq := trace_cq s1 @ [ErrorTaskFailed (fst r) err]\<rparr>
                    else s1)
          in case pump_cq (fst r) now s2 of
               (None, s3) \<Rightarrow>
                 s3\<lparr>trace_cq := trace_cq s3 @ [Rejected (entryId (snd r)) (Caught err)]\<rparr>
             | (Some err', s3) \<Rightarrow> s3\<lparr>trace_cq := trace_cq s3 @ [UnhandledRejection err']\<rparr>)"

definition taskSettled_cq ::
  "string \<times> QueueEntry \<Rightarrow> string + string \<Rightarrow> int \<Rightarrow> queue_state_cq \<Rightarrow> queue_state_cq" where
  "taskSettled_cq r res now s =
     (case res of
        Inl err \<Rightarrow> catchBlock_cq r err now s
      | Inr result \<Rightarrow>
          (case map_of (lanes_cq s) (fst r) of
             None \<Rightarrow> s
           | Some st \<Rightarrow>
               let st' = st\<lparr>active_cq := active_cq st - 1\<rparr>;
                   s1 = putLane_cq (fst r) st' s
               in case pump_cq (fst r) now
                         (s1\<lparr>trace_cq := trace_cq s1 @
                               [DebugTaskDone (fst r) (active_cq st') (length (queue_cq st'))]\<rparr>) of
                    (None, s2) \<Rightarrow>
                      s2\<lparr>trace_cq := trace_cq s2 @ [Resolved (entryId (snd r)) result]\<rparr>
                  | (Some err, s2) \<Rightarrow> catchBlock_cq r err now s2))"

definition settleAt_cq :: "nat \<Rightarrow> string + string \<Rightarrow> int \<Rightarrow> queue_state_cq \<Rightarrow> queue_state_cq" where
  "settleAt_cq k res now s =
     (if k < length (pending_cq s)
      then taskSettled_cq (pending_cq s ! k) res now
             (s\<lparr>pending_cq := take k (pending_cq s) @ drop (Suc k) (pending_cq s)\<rparr>)
      else s)"

definition recordThrow_cq :: "string option \<times> queue_state_cq \<Rightarrow> queue_state_cq" where
  "recordThrow_cq r =
     (case fst r of
        None \<Rightarrow> snd r
      | Some err \<Rightarrow> (snd r)\<lparr>trace_cq := trace_cq (snd r) @ [Threw err]\<rparr>)"

fun applyCall_cq :: "int \<Rightarrow> lane_call \<Rightarrow> queue_state_cq \<Rightarrow> queue_state_cq" where
  "applyCall_cq now (EnqueueInLane l eid tk warn cb) s =
     enqueueCommandInLane_cq l eid tk warn cb now s"
| "applyCall_cq now (EnqueueMain eid tk warn cb) s = enqueueCommand_cq eid tk warn cb now s"
| "applyCall_cq now (SetConcurrency l n) s =
     recordThrow_cq (setCommandLaneConcurrency_cq l n now s)"
| "applyCall_cq now (TaskSettles k res) s = settleAt_cq k res now s"

definition runCalls :: "(int \<times> lane_call) list \<Rightarrow> queue_state \<Rightarrow> queue_state" where
  "runCalls cs s = fold (\<lambda>(now, c). applyCall now c) cs s"

definition runCalls_cq :: "(int \<times> lane_call) list \<Rightarrow> queue_state_cq \<Rightarrow> queue_state_cq" where
  "runCalls_cq cs s = fold (\<lambda>(now, c). applyCall_cq now c) cs s"

text \<open>
  The state of the queue with a counter that corresponds to a state of the queue with
  generations: each active set is replaced by its size, and the task ids and generations are
  forgotten; lanes, queues, capacities, suspended closures (in their order) and the trace are
  kept.
\<close>

definition countLane :: "LaneState \<Rightarrow> LaneState_cq" where
  "countLane st =
     \<lparr>lane_cq = lane st, queue_cq = queue st, active_cq = int (length (activeTaskIds st)),
      maxConcurrent_cq = maxConcurrent st, draining_cq = draining st\<rparr>"

definition countState :: "queue_state \<Rightarrow> queue_state_cq" where
  "countState s =
     \<lparr>lanes_cq = map (\<lambda>(k, st). (k, countLane st)) (lanes s),
      pending_cq = map (\<lambda>r. (rt_lane r, rt_entry r)) (pending s),
      trace_cq = trace s\<rparr>"



definition calmQueues :: "queue_state \<Rightarrow> bool" where
  "calmQueues s =
     (\<forall>l st. map_of (lanes s) l = Some st \<longrightarrow>
        list_all (\<lambda>e. onWaitReturns (onWait e)) (queue st))"

text \<open>Concrete inputs.  \<open>twoEnqueued\<close>: two tasks enqueued on \<open>main\<close>, of which the first starts
  and the second waits; as calls, and as events.\<close>

definition twoEnqueued :: "(int \<times> lane_call) list" where
  "twoEnqueued = [(100, EnqueueMain 1 Suspends None None), (110, EnqueueMain 2 Suspends None None)]"






section \<open>Properties of the registry\<close>

lemma truthyNum_iff: "truthyNum v \<longleftrightarrow> v \<noteq> None \<and> v \<noteq> Some 0"
  by (cases v) (simp_all add: truthyNum_def)

lemma truthyBool_iff: "truthyBool v \<longleftrightarrow> v = Some True"
  by (cases v) (simp_all add: truthyBool_def)

lemma beginSubagentCleanup_true_iff:
  "fst (beginSubagentCleanup rid g) \<longleftrightarrow>
     (\<exists>e. subagentRuns g rid = Some e \<and> \<not> truthyNum (cleanupCompletedAt e)
          \<and> \<not> truthyBool (cleanupHandled e))"
  by (auto simp: beginSubagentCleanup_def split: option.splits)

lemma beginSubagentCleanup_sets_handled:
  assumes "fst (beginSubagentCleanup rid g)"
  shows "\<exists>e. subagentRuns g rid = Some e \<and>
           subagentRuns (snd (beginSubagentCleanup rid g)) =
             (subagentRuns g)(rid \<mapsto> e\<lparr>cleanupHandled := Some True\<rparr>) \<and>
           saved (snd (beginSubagentCleanup rid g)) =
             saved g @ [\<lparr>version = 2,
                          runs = ((subagentRuns g)(rid \<mapsto> e\<lparr>cleanupHandled := Some True\<rparr>))
                                   (''__proto__'' := None)\<rparr>]"
  using assms
  by (auto simp: beginSubagentCleanup_def persistSubagentRuns_def saveSubagentRegistryToDisk_def
      REGISTRY_VERSION_def split: option.splits if_splits)

lemma beginSubagentCleanup_false_keeps:
  "\<not> fst (beginSubagentCleanup rid g) \<Longrightarrow> snd (beginSubagentCleanup rid g) = g"
  by (auto simp: beginSubagentCleanup_def split: option.splits if_splits)

lemma handled_blocks_begin:
  "subagentRuns h rid = Some e \<Longrightarrow> cleanupHandled e = Some True \<Longrightarrow>
   \<not> fst (beginSubagentCleanup rid h)"
  by (simp add: beginSubagentCleanup_true_iff truthyBool_iff)

lemma begin_handled_after:
  "fst (beginSubagentCleanup rid g) \<Longrightarrow>
    \<exists>e'. subagentRuns (snd (beginSubagentCleanup rid g)) rid = Some e' \<and> cleanupHandled e' = Some True"
  using beginSubagentCleanup_sets_handled[of rid g] by auto

lemma lifecycle_handled_after:
  "fst (onLifecycleEvent evt now g) \<Longrightarrow>
    \<exists>e'. subagentRuns (snd (onLifecycleEvent evt now g)) (evt_runId evt) = Some e'
        \<and> cleanupHandled e' = Some True"
  by (auto simp: onLifecycleEvent_def Let_def dest!: begin_handled_after
      split: option.splits if_splits)

lemma wait_handled_after:
  "fst (onAgentWaitResult rid w now g) \<Longrightarrow>
    \<exists>e'. subagentRuns (snd (onAgentWaitResult rid w now g)) rid = Some e'
        \<and> cleanupHandled e' = Some True"
  by (auto simp: onAgentWaitResult_def Let_def dest!: begin_handled_after
      split: option.splits if_splits)

lemma handled_blocks_lifecycle:
  "subagentRuns h (evt_runId evt) = Some e \<Longrightarrow> cleanupHandled e = Some True \<Longrightarrow>
   \<not> fst (onLifecycleEvent evt now h)"
  by (auto simp: onLifecycleEvent_def Let_def beginSubagentCleanup_true_iff truthyBool_iff
      persistSubagentRuns_def split: option.splits if_splits)

lemma handled_blocks_wait:
  "subagentRuns h rid = Some e \<Longrightarrow> cleanupHandled e = Some True \<Longrightarrow>
   \<not> fst (onAgentWaitResult rid w now h)"
  by (auto simp: onAgentWaitResult_def Let_def beginSubagentCleanup_true_iff truthyBool_iff
      persistSubagentRuns_def split: option.splits if_splits)

text \<open>
  Claim C1, as the code has it.  \<open>beginSubagentCleanup\<close> returns true exactly when the
  record exists, its \<open>cleanupCompletedAt\<close> is falsy (unset, or the number 0, which the test
  \<open>if (entry.cleanupCompletedAt)\<close> does not tell from unset) and its \<open>cleanupHandled\<close> is not
  true.  A call that returns true leaves \<open>cleanupHandled = true\<close>; in any later state where
  the flag is still true the call returns false; so a second call right after a successful
  one fails, and of the lifecycle listener and the \<open>agent.wait\<close> watcher, run one after the
  other in either order, at most one launches the announce flow.
\<close>

theorem beginSubagentCleanup_at_most_once:
  "(fst (beginSubagentCleanup rid g) \<longleftrightarrow>
      (\<exists>e. subagentRuns g rid = Some e
           \<and> (cleanupCompletedAt e = None \<or> cleanupCompletedAt e = Some 0)
           \<and> cleanupHandled e \<noteq> Some True))
   \<and> (fst (beginSubagentCleanup rid g) \<longrightarrow>
        (\<exists>e'. subagentRuns (snd (beginSubagentCleanup rid g)) rid = Some e'
            \<and> cleanupHandled e' = Some True))
   \<and> (\<forall>h e. subagentRuns h rid = Some e \<and> cleanupHandled e = Some True
          \<longrightarrow> \<not> fst (beginSubagentCleanup rid h))
   \<and> \<not> (fst (beginSubagentCleanup rid g)
         \<and> fst (beginSubagentCleanup rid (snd (beginSubagentCleanup rid g))))
   \<and> \<not> (fst (onLifecycleEvent evt now g)
         \<and> fst (onAgentWaitResult (evt_runId evt) w now' (snd (onLifecycleEvent evt now g))))
   \<and> \<not> (fst (onAgentWaitResult (evt_runId evt) w now' g)
         \<and> fst (onLifecycleEvent evt now (snd (onAgentWaitResult (evt_runId evt) w now' g))))"
proof (intro conjI)
  show "fst (beginSubagentCleanup rid g) \<longleftrightarrow>
      (\<exists>e. subagentRuns g rid = Some e
           \<and> (cleanupCompletedAt e = None \<or> cleanupCompletedAt e = Some 0)
           \<and> cleanupHandled e \<noteq> Some True)"
    by (simp add: beginSubagentCleanup_true_iff truthyNum_iff truthyBool_iff)
  show "fst (beginSubagentCleanup rid g) \<longrightarrow>
        (\<exists>e'. subagentRuns (snd (beginSubagentCleanup rid g)) rid = Some e'
            \<and> cleanupHandled e' = Some True)"
    using begin_handled_after by blast
  show "\<forall>h e. subagentRuns h rid = Some e \<and> cleanupHandled e = Some True
          \<longrightarrow> \<not> fst (beginSubagentCleanup rid h)"
    using handled_blocks_begin by blast
  show "\<not> (fst (beginSubagentCleanup rid g)
         \<and> fst (beginSubagentCleanup rid (snd (beginSubagentCleanup rid g))))"
    using begin_handled_after handled_blocks_begin by blast
  show "\<not> (fst (onLifecycleEvent evt now g)
         \<and> fst (onAgentWaitResult (evt_runId evt) w now' (snd (onLifecycleEvent evt now g))))"
    using lifecycle_handled_after handled_blocks_wait by blast
  show "\<not> (fst (onAgentWaitResult (evt_runId evt) w now' g)
         \<and> fst (onLifecycleEvent evt now (snd (onAgentWaitResult (evt_runId evt) w now' g))))"
    using wait_handled_after handled_blocks_lifecycle by blast
qed

text \<open>The theorem at the fresh run \<open>r1\<close>: the first call wins and sets the flag, the second
  loses.\<close>

theorem beginSubagentCleanup_at_most_once_witness:
  "fst (beginSubagentCleanup ''r1'' registry0)
   \<and> (\<exists>e'. subagentRuns (snd (beginSubagentCleanup ''r1'' registry0)) ''r1'' = Some e'
          \<and> cleanupHandled e' = Some True)
   \<and> \<not> fst (beginSubagentCleanup ''r1'' (snd (beginSubagentCleanup ''r1'' registry0)))"
proof -
  have a: "fst (beginSubagentCleanup ''r1'' registry0)"
    by (simp add: beginSubagentCleanup_def registry0_def run0_def truthyNum_def truthyBool_def)
  from beginSubagentCleanup_at_most_once[of "''r1''" registry0] a show ?thesis
    by blast
qed

text \<open>Claim C1 as it is worded (true only if \<open>cleanupCompletedAt\<close> is unset) fails on a record
  whose \<open>cleanupCompletedAt\<close> is the number 0: the field is set, and the call returns true.\<close>

theorem beginSubagentCleanup_unset_counterexample:
  "\<not> (fst (beginSubagentCleanup ''r1'' registryZero) \<longleftrightarrow>
      (\<exists>e. subagentRuns registryZero ''r1'' = Some e \<and> cleanupCompletedAt e = None
           \<and> cleanupHandled e \<noteq> Some True))"
  by (simp add: beginSubagentCleanup_def registryZero_def run0_def truthyNum_def truthyBool_def)

lemma finalize_Delete:
  "subagentRuns g rid = Some e \<Longrightarrow>
   finalizeSubagentCleanup rid Delete didAnnounce now g =
     persistSubagentRuns (g\<lparr>subagentRuns := (subagentRuns g)(rid := None)\<rparr>)"
  by (simp add: finalizeSubagentCleanup_def)

lemma finalize_Keep_failed:
  "subagentRuns g rid = Some e \<Longrightarrow>
   finalizeSubagentCleanup rid Keep False now g =
     persistSubagentRuns
       (g\<lparr>subagentRuns := (subagentRuns g)(rid \<mapsto> e\<lparr>cleanupHandled := Some False\<rparr>)\<rparr>)"
  by (simp add: finalizeSubagentCleanup_def)

lemma finalize_Keep_announced:
  "subagentRuns g rid = Some e \<Longrightarrow>
   finalizeSubagentCleanup rid Keep True now g =
     persistSubagentRuns
       (g\<lparr>subagentRuns := (subagentRuns g)(rid \<mapsto> e\<lparr>cleanupCompletedAt := Some now\<rparr>)\<rparr>)"
  by (simp add: finalizeSubagentCleanup_def)

lemma persist_runs [simp]: "subagentRuns (persistSubagentRuns g) = subagentRuns g"
  by (simp add: persistSubagentRuns_def)

lemma persist_saved:
  "saved (persistSubagentRuns g) =
     saved g @ [\<lparr>version = 2, runs = (subagentRuns g)(''__proto__'' := None)\<rparr>]"
  by (simp add: persistSubagentRuns_def saveSubagentRegistryToDisk_def REGISTRY_VERSION_def)

text \<open>
  Claim C3.  On a registered run \<open>finalizeSubagentCleanup\<close> does exactly one of three things,
  chosen by \<open>cleanup\<close> and \<open>didAnnounce\<close>, and in each it persists: it hands \<open>saveJsonFile\<close> one
  version-2 envelope, whose \<open>runs\<close> are the runs of the new map (all but a run stored under
  the key \<open>__proto__\<close>, which the copy into a plain object loses).  With \<open>delete\<close> the record
  leaves the map; otherwise, without an announcement, \<open>cleanupHandled\<close> becomes false and
  nothing else of the record changes, so that an unset \<open>cleanupCompletedAt\<close> stays unset and
  the next \<open>beginSubagentCleanup\<close> succeeds; otherwise \<open>cleanupCompletedAt\<close> becomes the
  current time.
\<close>

theorem finalizeSubagentCleanup_cases:
  assumes "subagentRuns g rid = Some e"
  shows "saved (finalizeSubagentCleanup rid cl didAnnounce now g) =
           saved g @ [\<lparr>version = 2,
                       runs = (subagentRuns (finalizeSubagentCleanup rid cl didAnnounce now g))
                                (''__proto__'' := None)\<rparr>]
    \<and> (cl = Delete \<longrightarrow>
           subagentRuns (finalizeSubagentCleanup rid cl didAnnounce now g) =
             (subagentRuns g)(rid := None))
    \<and> (cl \<noteq> Delete \<and> \<not> didAnnounce \<longrightarrow>
           subagentRuns (finalizeSubagentCleanup rid cl didAnnounce now g) =
             (subagentRuns g)(rid \<mapsto> e\<lparr>cleanupHandled := Some False\<rparr>))
    \<and> (cl \<noteq> Delete \<and> \<not> didAnnounce \<and> cleanupCompletedAt e = None \<longrightarrow>
           (\<exists>e'. subagentRuns (finalizeSubagentCleanup rid cl didAnnounce now g) rid = Some e'
               \<and> cleanupHandled e' = Some False \<and> cleanupCompletedAt e' = None)
           \<and> fst (beginSubagentCleanup rid (finalizeSubagentCleanup rid cl didAnnounce now g)))
    \<and> (cl \<noteq> Delete \<and> didAnnounce \<longrightarrow>
           subagentRuns (finalizeSubagentCleanup rid cl didAnnounce now g) =
             (subagentRuns g)(rid \<mapsto> e\<lparr>cleanupCompletedAt := Some now\<rparr>))"
proof (cases cl)
  case Delete
  then show ?thesis
    using assms by (simp add: finalize_Delete persist_saved)
next
  case Keep
  show ?thesis
  proof (cases didAnnounce)
    case True
    with Keep show ?thesis
      using assms by (simp add: finalize_Keep_announced persist_saved)
  next
    case False
    with Keep show ?thesis
      using assms
      by (simp add: finalize_Keep_failed persist_saved beginSubagentCleanup_true_iff
          truthyNum_iff truthyBool_iff)
  qed
qed

text \<open>The three branches at the fresh run \<open>r1\<close> of \<open>registry0\<close>.\<close>

theorem finalizeSubagentCleanup_cases_witness:
  "subagentRuns (finalizeSubagentCleanup ''r1'' Delete True 5000 registry0) = Map.empty
   \<and> subagentRuns (finalizeSubagentCleanup ''r1'' Keep False 5000 registry0) =
       [''r1'' \<mapsto> run0\<lparr>cleanupHandled := Some False\<rparr>]
   \<and> fst (beginSubagentCleanup ''r1'' (finalizeSubagentCleanup ''r1'' Keep False 5000 registry0))
   \<and> subagentRuns (finalizeSubagentCleanup ''r1'' Keep True 5000 registry0) =
       [''r1'' \<mapsto> run0\<lparr>cleanupCompletedAt := Some 5000\<rparr>]
   \<and> saved (finalizeSubagentCleanup ''r1'' Keep True 5000 registry0) =
       [\<lparr>version = 2, runs = [''r1'' \<mapsto> run0\<lparr>cleanupCompletedAt := Some 5000\<rparr>]\<rparr>]"
proof -
  have a: "subagentRuns registry0 ''r1'' = Some run0"
    by (simp add: registry0_def)
  have b: "cleanupCompletedAt run0 = None"
    by (simp add: run0_def)
  have c: "subagentRuns registry0 = [''r1'' \<mapsto> run0]" "saved registry0 = []"
    by (simp_all add: registry0_def)
  have d: "[''r1'' \<mapsto> r](''__proto__'' := None) = [''r1'' \<mapsto> r]" for r :: SubagentRunRecord
    by (simp add: fun_eq_iff)
  from finalizeSubagentCleanup_cases[OF a, of Delete True 5000]
       finalizeSubagentCleanup_cases[OF a, of Keep False 5000]
       finalizeSubagentCleanup_cases[OF a, of Keep True 5000] b c
  show ?thesis by (simp add: d)
qed

section \<open>Properties of the node subscription index\<close>

lemma removeAll_Nil_iff: "removeAll x xs = [] \<longleftrightarrow> set xs \<subseteq> {x}"
  by (induction xs) auto

lemma dap_lookup:
  "deleteAndPrune key x m k =
     (if k = key then (case m key of None \<Rightarrow> None
                       | Some xs \<Rightarrow> if removeAll x xs = [] then None else Some (removeAll x xs))
      else m k)"
  by (auto simp: deleteAndPrune_def Let_def split: option.splits)

lemma member_dap:
  "hasMember (deleteAndPrune key x m) k y = (hasMember m k y \<and> \<not> (k = key \<and> y = x))"
  by (auto simp: hasMember_def dap_lookup removeAll_Nil_iff split: option.splits)

lemma nonempty_dap: "m k \<noteq> Some [] \<Longrightarrow> deleteAndPrune key x m k \<noteq> Some []"
  by (auto simp: dap_lookup split: option.splits)

lemma member_fold_dap:
  "hasMember (fold (\<lambda>key. deleteAndPrune key x) keys m) k y =
     (hasMember m k y \<and> \<not> (k \<in> set keys \<and> y = x))"
proof (induction keys arbitrary: m)
  case Nil
  show ?case by simp
next
  case (Cons a keys)
  have "hasMember (fold (\<lambda>key. deleteAndPrune key x) (a # keys) m) k y =
        hasMember (fold (\<lambda>key. deleteAndPrune key x) keys (deleteAndPrune a x m)) k y"
    by simp
  also have "\<dots> = (hasMember (deleteAndPrune a x m) k y \<and> \<not> (k \<in> set keys \<and> y = x))"
    by (rule Cons.IH)
  also have "\<dots> = (hasMember m k y \<and> \<not> (k \<in> set (a # keys) \<and> y = x))"
    by (auto simp: member_dap)
  finally show ?case .
qed

lemma nonempty_fold_dap:
  "m k \<noteq> Some [] \<Longrightarrow> fold (\<lambda>key. deleteAndPrune key x) keys m k \<noteq> Some []"
proof (induction keys arbitrary: m)
  case Nil
  then show ?case by simp
next
  case (Cons a keys)
  from Cons.prems have "deleteAndPrune a x m k \<noteq> Some []"
    by (rule nonempty_dap)
  then have "fold (\<lambda>key. deleteAndPrune key x) keys (deleteAndPrune a x m) k \<noteq> Some []"
    by (rule Cons.IH)
  then show ?case by simp
qed

lemma member_upd: "hasMember (m(k' \<mapsto> ys)) k y = (if k = k' then y \<in> set ys else hasMember m k y)"
  by (simp add: hasMember_def)

lemma member_del: "hasMember (m(k' := None)) k y = (k \<noteq> k' \<and> hasMember m k y)"
  by (simp add: hasMember_def)

lemma member_None: "m k = None \<Longrightarrow> hasMember m k y = False"
  by (simp add: hasMember_def)

lemma member_Some: "m k = Some ys \<Longrightarrow> hasMember m k y = (y \<in> set ys)"
  by (simp add: hasMember_def)

lemma inv_create:
  "symmetric createNodeSubscriptionManager \<and> noEmptySets createNodeSubscriptionManager"
  by (simp add: symmetric_def noEmptySets_def createNodeSubscriptionManager_def hasMember_def)

lemma subscribe_inv:
  assumes "symmetric m" "noEmptySets m"
  shows "symmetric (subscribe n s m) \<and> noEmptySets (subscribe n s m)"
proof -
  let ?n = "trim n" and ?s = "trim s"
  show ?thesis
  proof (cases "?n = [] \<or> ?s = [] \<or> hasMember (nodeSubscriptions m) ?n ?s")
    case True
    then have "subscribe n s m = m"
      by (auto simp: subscribe_def Let_def hasMember_def split: option.splits)
    with assms show ?thesis by simp
  next
    case False
    define nodeSet where "nodeSet = (case nodeSubscriptions m ?n of None \<Rightarrow> [] | Some xs \<Rightarrow> xs)"
    define sessionSet where "sessionSet = (case sessionSubscribers m ?s of None \<Rightarrow> [] | Some ys \<Rightarrow> ys)"
    have eq: "subscribe n s m =
        m\<lparr>nodeSubscriptions := (nodeSubscriptions m)(?n \<mapsto> nodeSet @ [?s]),
          sessionSubscribers := (sessionSubscribers m)(?s \<mapsto> setAdd ?n sessionSet)\<rparr>"
      using False
      by (auto simp: subscribe_def Let_def hasMember_def nodeSet_def sessionSet_def split: option.splits)
    have ns: "\<And>y. y \<in> set nodeSet \<longleftrightarrow> hasMember (nodeSubscriptions m) ?n y"
      by (simp add: nodeSet_def hasMember_def split: option.splits)
    have ss: "\<And>y. y \<in> set sessionSet \<longleftrightarrow> hasMember (sessionSubscribers m) ?s y"
      by (simp add: sessionSet_def hasMember_def split: option.splits)
    have sym: "\<And>a b. hasMember (nodeSubscriptions m) a b = hasMember (sessionSubscribers m) b a"
      using assms(1) by (simp add: symmetric_def)
    have "symmetric (subscribe n s m)"
      unfolding symmetric_def eq
      by (auto simp: member_upd setAdd_def ns ss sym)
    moreover have "noEmptySets (subscribe n s m)"
      using assms(2) unfolding noEmptySets_def eq
      by (auto simp: setAdd_def)
    ultimately show ?thesis ..
  qed
qed

lemma unsubscribe_inv:
  assumes "symmetric m" "noEmptySets m"
  shows "symmetric (unsubscribe n s m) \<and> noEmptySets (unsubscribe n s m)"
proof -
  have sym: "\<And>a b. hasMember (nodeSubscriptions m) a b = hasMember (sessionSubscribers m) b a"
    using assms(1) by (simp add: symmetric_def)
  have "symmetric (unsubscribe n s m)"
    unfolding symmetric_def unsubscribe_def Let_def
    by (auto simp: member_dap sym)
  moreover have "noEmptySets (unsubscribe n s m)"
    using assms(2) unfolding noEmptySets_def unsubscribe_def Let_def
    by (auto simp: nonempty_dap)
  ultimately show ?thesis ..
qed

lemma unsubscribeAll_inv:
  assumes "symmetric m" "noEmptySets m"
  shows "symmetric (unsubscribeAll n m) \<and> noEmptySets (unsubscribeAll n m)"
proof (cases "nodeSubscriptions m (trim n)")
  case None
  then have "unsubscribeAll n m = m"
    by (simp add: unsubscribeAll_def)
  with assms show ?thesis by simp
next
  case (Some nodeSet)
  have eq: "unsubscribeAll n m =
      m\<lparr>sessionSubscribers :=
          fold (\<lambda>sessionKey. deleteAndPrune sessionKey (trim n)) nodeSet (sessionSubscribers m),
        nodeSubscriptions := (nodeSubscriptions m)(trim n := None)\<rparr>"
    using Some by (simp add: unsubscribeAll_def Let_def)
  have sym: "\<And>a b. hasMember (nodeSubscriptions m) a b = hasMember (sessionSubscribers m) b a"
    using assms(1) by (simp add: symmetric_def)
  have ns: "y \<in> set nodeSet \<longleftrightarrow> hasMember (sessionSubscribers m) y (trim n)" for y
    using member_Some[of "nodeSubscriptions m" "trim n" nodeSet y] Some sym[of "trim n" y] by simp
  have "symmetric (unsubscribeAll n m)"
    unfolding symmetric_def eq
    by (auto simp: member_fold_dap member_del sym ns)
  moreover have "noEmptySets (unsubscribeAll n m)"
    using assms(2) unfolding noEmptySets_def eq
    by (auto simp: nonempty_fold_dap)
  ultimately show ?thesis ..
qed

lemma applyOp_inv:
  "symmetric m \<and> noEmptySets m \<Longrightarrow> symmetric (applyOp op m) \<and> noEmptySets (applyOp op m)"
  by (cases op) (simp_all add: subscribe_inv unsubscribe_inv unsubscribeAll_inv)

lemma fold_applyOp_inv:
  "symmetric m \<and> noEmptySets m \<Longrightarrow>
   symmetric (fold applyOp ops m) \<and> noEmptySets (fold applyOp ops m)"
proof (induction ops arbitrary: m)
  case Nil
  then show ?case by simp
next
  case (Cons op ops)
  from Cons.prems have "symmetric (applyOp op m) \<and> noEmptySets (applyOp op m)"
    by (rule applyOp_inv)
  then have "symmetric (fold applyOp ops (applyOp op m)) \<and> noEmptySets (fold applyOp ops (applyOp op m))"
    by (rule Cons.IH)
  then show ?case by simp
qed

text \<open>
  Claim C8.  After any sequence of \<open>subscribe\<close>, \<open>unsubscribe\<close> and \<open>unsubscribeAll\<close> from the
  empty manager, session \<open>s\<close> is in \<open>nodeSubscriptions[n]\<close> exactly when node \<open>n\<close> is in
  \<open>sessionSubscribers[s]\<close>, for all \<open>n\<close> and \<open>s\<close>, and no key of either map holds an empty set.
\<close>

theorem node_subscriptions_symmetric:
  "(\<forall>n s. hasMember (nodeSubscriptions (runOps ops)) n s
          = hasMember (sessionSubscribers (runOps ops)) s n)
   \<and> (\<forall>k. nodeSubscriptions (runOps ops) k \<noteq> Some []
          \<and> sessionSubscribers (runOps ops) k \<noteq> Some [])"
  using fold_applyOp_inv[OF inv_create, of ops]
  by (simp add: runOps_def symmetric_def noEmptySets_def)

lemma runOps_ops0:
  "nodeSubscriptions (runOps ops0) = [''node-c'' \<mapsto> [''s3'']]"
  "sessionSubscribers (runOps ops0) = [''s3'' \<mapsto> [''node-c'']]"
  by (auto simp: runOps_def ops0_def subscribe_def unsubscribe_def unsubscribeAll_def trim_def
      isWhiteSpace_def createNodeSubscriptionManager_def setAdd_def deleteAndPrune_def Let_def)

text \<open>The theorem at \<open>ops0\<close>, whose final maps are \<open>node-c \<mapsto> {s3}\<close> and \<open>s3 \<mapsto> {node-c}\<close>.\<close>

theorem node_subscriptions_symmetric_witness:
  "hasMember (nodeSubscriptions (runOps ops0)) ''node-c'' ''s3''
   \<and> hasMember (sessionSubscribers (runOps ops0)) ''s3'' ''node-c''
   \<and> \<not> hasMember (nodeSubscriptions (runOps ops0)) ''node-a'' ''s1''
   \<and> \<not> hasMember (sessionSubscribers (runOps ops0)) ''s1'' ''node-a''
   \<and> nodeSubscriptions (runOps ops0) ''node-a'' \<noteq> Some []"
proof -
  have a: "hasMember (nodeSubscriptions (runOps ops0)) ''node-c'' ''s3''"
    by (simp add: runOps_ops0 hasMember_def)
  have b: "\<not> hasMember (nodeSubscriptions (runOps ops0)) ''node-a'' ''s1''"
    by (simp add: runOps_ops0 hasMember_def)
  from node_subscriptions_symmetric[of ops0] a b show ?thesis
    by blast
qed

section \<open>Properties of the registry loader\<close>

lemma loadLoop_lookup:
  "distinct (map fst rs) \<Longrightarrow> (k, e) \<in> set rs \<Longrightarrow> validEntry e \<Longrightarrow>
   fst (loadLoop nmc naid leg rs (out, m)) k = Some (migrateEntry nmc naid leg e)"
proof (induction rs arbitrary: out m)
  case Nil
  then show ?case by simp
next
  case (Cons a rs)
  obtain k' e' where a: "a = (k', e')" by (cases a)
  show ?case
  proof (cases "(k, e) \<in> set rs")
    case True
    with Cons.prems have "distinct (map fst rs)" by simp
    from Cons.IH[OF this True Cons.prems(3)] show ?thesis
      by (simp add: a)
  next
    case False
    with Cons.prems a have ke: "k' = k" "e' = e" by auto
    from Cons.prems a ke have notin: "k \<notin> fst ` set rs" by auto
    have keep: "fst (loadLoop nmc naid leg rs (out', m')) k = out' k" for out' m'
      using notin
    proof (induction rs arbitrary: out' m')
      case Nil
      then show ?case by simp
    next
      case (Cons b rs)
      obtain kb eb where b: "b = (kb, eb)" by (cases b)
      from Cons.prems b have "kb \<noteq> k" "k \<notin> fst ` set rs" by auto
      then show ?case by (simp add: b Cons.IH)
    qed
    show ?thesis
      using Cons.prems(3) by (simp add: a ke keep)
  qed
qed

lemma loadLoop_migrated_legacy:
  "snd (loadLoop nmc naid True rs (out, m)) = (m \<or> (\<exists>x \<in> set rs. validEntry (snd x)))"
proof (induction rs arbitrary: out m)
  case Nil
  show ?case by simp
next
  case (Cons a rs)
  obtain k' e' where a: "a = (k', e')" by (cases a)
  show ?case
    by (cases "validEntry e'") (simp_all add: a Cons.IH)
qed

lemma loadLoop_migrated_current:
  "snd (loadLoop nmc naid False rs (out, m)) = m"
proof (induction rs arbitrary: out m)
  case Nil
  show ?case by simp
next
  case (Cons a rs)
  obtain k' e' where a: "a = (k', e')" by (cases a)
  show ?case
    by (cases "validEntry e'") (simp_all add: a Cons.IH)
qed

lemma load_v1:
  assumes "map_of fs ''version'' = Some (JNum 1)" "map_of fs ''runs'' = Some (JObj rs)"
  shows "loadSubagentRegistryFromDisk nmc naid (Some (JObj fs)) =
     (fst (loadLoop nmc naid True rs (Map.empty, False)),
      if (\<exists>x \<in> set rs. validEntry (snd x))
      then Some \<lparr>version = 2,
                  runs = (fst (loadLoop nmc naid True rs (Map.empty, False)))
                           (''__proto__'' := None)\<rparr>
      else None)"
  using assms
  by (simp add: loadSubagentRegistryFromDisk_def objectEntries_def Let_def split_beta
      loadLoop_migrated_legacy saveSubagentRegistryToDisk_def REGISTRY_VERSION_def)

text \<open>
  Claim C7, as the code has it.  Take a version-1 file and any entry of its \<open>runs\<close> that is
  an object with a non-empty string \<open>runId\<close> (the keys of a parsed object are distinct).  The
  loaded map holds a record under the entry's key, in which
  \<^item> \<open>cleanupCompletedAt\<close> is the entry's own when that is a number, and otherwise
    \<open>announceCompletedAt\<close> when that is a number;
  \<^item> \<open>cleanupHandled\<close> is the entry's own when that is a boolean, and otherwise the
    truthiness of \<open>announceHandled\<close>, or of the migrated \<open>cleanupCompletedAt\<close> when
    \<open>announceHandled\<close> is absent;
  \<^item> \<open>requesterOrigin\<close> is, when the entry has none, the normalised context made of
    \<open>requesterChannel\<close> and \<open>requesterAccountId\<close> (each when a string);
  and the loader hands \<open>saveJsonFile\<close> a version-2 envelope whose \<open>runs\<close> are the loaded records,
  all but one stored under the key \<open>__proto__\<close>, which the copy into a plain object loses.
\<close>

theorem load_v1_migration:
  assumes "map_of fs ''version'' = Some (JNum 1)"
    and "map_of fs ''runs'' = Some (JObj rs)"
    and "distinct (map fst rs)"
    and "(rid, e) \<in> set rs"
    and "validEntry e"
  shows "\<exists>r. fst (loadSubagentRegistryFromDisk nmc naid (Some (JObj fs))) rid = Some r
     \<and> (asNumber (getField e ''cleanupCompletedAt'') = None \<longrightarrow>
          m_cleanupCompletedAt r = asNumber (getField e ''announceCompletedAt''))
     \<and> (asNumber (getField e ''cleanupCompletedAt'') = Some n \<longrightarrow>
          m_cleanupCompletedAt r = Some n)
     \<and> (asBoolean (getField e ''cleanupHandled'') = None \<longrightarrow>
          m_cleanupHandled r =
            Some (truthy (nullish (getField e ''announceHandled'')
                                  (map_option JNum (m_cleanupCompletedAt r)))))
     \<and> (asBoolean (getField e ''cleanupHandled'') = None
          \<and> getField e ''announceHandled'' = Some (JBool b) \<longrightarrow>
          m_cleanupHandled r = Some b)
     \<and> (asBoolean (getField e ''cleanupHandled'') = None
          \<and> getField e ''announceHandled'' = None \<longrightarrow>
          m_cleanupHandled r = Some (truthyNum (m_cleanupCompletedAt r)))
     \<and> (asBoolean (getField e ''cleanupHandled'') = Some b' \<longrightarrow> m_cleanupHandled r = Some b')
     \<and> (nullish (getField e ''requesterOrigin'') None = None \<longrightarrow>
          m_requesterOrigin r =
            normalizeDeliveryContext nmc naid
              (Some (JObj (field ''channel''
                             (map_option JStr (asString (getField e ''requesterChannel''))) @
                           field ''accountId''
                             (map_option JStr (asString (getField e ''requesterAccountId'')))))))
     \<and> snd (loadSubagentRegistryFromDisk nmc naid (Some (JObj fs))) =
          Some \<lparr>version = 2,
                runs = (fst (loadSubagentRegistryFromDisk nmc naid (Some (JObj fs))))
                         (''__proto__'' := None)\<rparr>"
proof -
  let ?r = "migrateEntry nmc naid True e"
  have valid: "\<exists>x \<in> set rs. validEntry (snd x)"
    using assms(4,5) by force
  have look: "fst (loadSubagentRegistryFromDisk nmc naid (Some (JObj fs))) rid = Some ?r"
    by (simp add: load_v1[OF assms(1,2)] loadLoop_lookup[OF assms(3,4,5)])
  have resave: "snd (loadSubagentRegistryFromDisk nmc naid (Some (JObj fs))) =
          Some \<lparr>version = 2,
                runs = (fst (loadSubagentRegistryFromDisk nmc naid (Some (JObj fs))))
                         (''__proto__'' := None)\<rparr>"
    using valid by (simp add: load_v1[OF assms(1,2)])
  have c1: "asNumber (getField e ''cleanupCompletedAt'') = None \<longrightarrow>
          m_cleanupCompletedAt ?r = asNumber (getField e ''announceCompletedAt'')"
    by (simp add: migrateEntry_def Let_def)
  have c2: "asNumber (getField e ''cleanupCompletedAt'') = Some n \<longrightarrow>
          m_cleanupCompletedAt ?r = Some n"
    by (simp add: migrateEntry_def Let_def)
  have h1: "asBoolean (getField e ''cleanupHandled'') = None \<longrightarrow>
          m_cleanupHandled ?r =
            Some (truthy (nullish (getField e ''announceHandled'')
                                  (map_option JNum (m_cleanupCompletedAt ?r))))"
    by (simp add: migrateEntry_def Let_def)
  have h2: "asBoolean (getField e ''cleanupHandled'') = None
          \<and> getField e ''announceHandled'' = Some (JBool b) \<longrightarrow>
          m_cleanupHandled ?r = Some b"
    by (simp add: migrateEntry_def Let_def)
  have h3: "asBoolean (getField e ''cleanupHandled'') = None
          \<and> getField e ''announceHandled'' = None \<longrightarrow>
          m_cleanupHandled ?r = Some (truthyNum (m_cleanupCompletedAt ?r))"
    by (cases "m_cleanupCompletedAt ?r") (auto simp: migrateEntry_def Let_def truthyNum_def)
  have h4: "asBoolean (getField e ''cleanupHandled'') = Some b' \<longrightarrow> m_cleanupHandled ?r = Some b'"
    by (simp add: migrateEntry_def Let_def)
  have o: "nullish (getField e ''requesterOrigin'') None = None \<longrightarrow>
          m_requesterOrigin ?r =
            normalizeDeliveryContext nmc naid
              (Some (JObj (field ''channel''
                             (map_option JStr (asString (getField e ''requesterChannel''))) @
                           field ''accountId''
                             (map_option JStr (asString (getField e ''requesterAccountId''))))))"
  proof (cases "getField e ''requesterOrigin''")
    case None
    then show ?thesis by (simp add: migrateEntry_def Let_def)
  next
    case (Some v)
    then show ?thesis by (cases v) (simp_all add: migrateEntry_def Let_def)
  qed
  show ?thesis
    by (rule exI[of _ ?r]) (intro conjI look resave c1 c2 h1 h2 h3 h4 o)
qed

lemma load_legacyFile:
  "fst (loadSubagentRegistryFromDisk nmc0 naid0 (Some legacyFile)) ''r1'' =
     Some \<lparr>m_requesterOrigin =
              Some \<lparr>channel = Some ''slack'', to = None, accountId = Some ''acct-1'',
                     threadId = None\<rparr>,
            m_cleanupCompletedAt = Some 1700, m_cleanupHandled = Some True,
            m_rest = [(''runId'', JStr ''r1''),
                      (''childSessionKey'', JStr ''agent:main:subagent:u1'')]\<rparr>"
  by (simp add: loadSubagentRegistryFromDisk_def legacyFile_def legacyRun_def objectEntries_def
      validEntry_def migrateEntry_def normalizeDeliveryContext_def field_def orElse_def
      nonEmpty_def nmc0_def naid0_def trim_def isWhiteSpace_def legacyKeys_def computedKeys_def
      Let_def)

text \<open>The theorem at \<open>legacyFile\<close>: run \<open>r1\<close> comes back completed at 1700, handled, with
  origin \<open>{channel: slack, accountId: acct-1}\<close>, and the file is written again as version 2.\<close>

theorem load_v1_migration_witness:
  "map_option m_cleanupCompletedAt
       (fst (loadSubagentRegistryFromDisk nmc0 naid0 (Some legacyFile)) ''r1'') = Some (Some 1700)
   \<and> map_option m_cleanupHandled
       (fst (loadSubagentRegistryFromDisk nmc0 naid0 (Some legacyFile)) ''r1'') = Some (Some True)
   \<and> map_option m_requesterOrigin
       (fst (loadSubagentRegistryFromDisk nmc0 naid0 (Some legacyFile)) ''r1'') =
         Some (Some \<lparr>channel = Some ''slack'', to = None, accountId = Some ''acct-1'',
                      threadId = None\<rparr>)
   \<and> snd (loadSubagentRegistryFromDisk nmc0 naid0 (Some legacyFile)) =
         Some \<lparr>version = 2,
               runs = (fst (loadSubagentRegistryFromDisk nmc0 naid0 (Some legacyFile)))
                        (''__proto__'' := None)\<rparr>"
proof -
  have f: "legacyFile = JObj [(''version'', JNum 1), (''runs'', JObj [(''r1'', legacyRun)])]"
    by (simp add: legacyFile_def)
  have a1: "map_of [(''version'', JNum 1), (''runs'', JObj [(''r1'', legacyRun)])] ''version''
              = Some (JNum 1)"
    by simp
  have a2: "map_of [(''version'', JNum 1), (''runs'', JObj [(''r1'', legacyRun)])] ''runs''
              = Some (JObj [(''r1'', legacyRun)])"
    by simp
  have a3: "distinct (map fst [(''r1'', legacyRun)])"
    by simp
  have a4: "(''r1'', legacyRun) \<in> set [(''r1'', legacyRun)]"
    by simp
  have a5: "validEntry legacyRun"
    by (simp add: validEntry_def legacyRun_def)
  from load_v1_migration[OF a1 a2 a3 a4 a5, of nmc0 naid0]
  have "snd (loadSubagentRegistryFromDisk nmc0 naid0 (Some legacyFile)) =
         Some \<lparr>version = 2,
               runs = (fst (loadSubagentRegistryFromDisk nmc0 naid0 (Some legacyFile)))
                        (''__proto__'' := None)\<rparr>"
    unfolding f by blast
  then show ?thesis
    by (simp add: load_legacyFile)
qed

text \<open>A run stored under the key \<open>__proto__\<close> is loaded and migrated, and the envelope written
  afterwards has no runs.\<close>

lemma load_protoFile:
  "map_option m_cleanupCompletedAt
       (fst (loadSubagentRegistryFromDisk nmc0 naid0 (Some protoFile)) ''__proto__'')
     = Some (Some 1700)
   \<and> snd (loadSubagentRegistryFromDisk nmc0 naid0 (Some protoFile))
     = Some \<lparr>version = 2, runs = Map.empty\<rparr>"
  by (simp add: loadSubagentRegistryFromDisk_def protoFile_def legacyRun_def objectEntries_def
      validEntry_def migrateEntry_def saveSubagentRegistryToDisk_def REGISTRY_VERSION_def
      Let_def fun_eq_iff)

text \<open>Claim C7 as it is worded fails on two version-1 files.  The empty one is not written
  again: nothing was migrated.  In the other the run has \<open>cleanupCompletedAt = 5\<close> next to
  \<open>announceCompletedAt = 7\<close>, and the loaded record keeps 5: the new field wins.\<close>

theorem load_v1_migration_counterexample:
  "snd (loadSubagentRegistryFromDisk nmc0 naid0 (Some emptyLegacyFile)) = None
   \<and> getField mixedRun ''announceCompletedAt'' = Some (JNum 7)
   \<and> map_option m_cleanupCompletedAt
       (fst (loadSubagentRegistryFromDisk nmc0 naid0 (Some mixedFile)) ''r1'') = Some (Some 5)"
  by (simp add: loadSubagentRegistryFromDisk_def emptyLegacyFile_def mixedFile_def mixedRun_def
      objectEntries_def validEntry_def migrateEntry_def Let_def)

section \<open>Properties of the announce flow\<close>

lemma collectWorld_entry:
  "fst (loadRequesterSessionEntry (collectWorld active) ''main'') = Some requesterEntry"
  "resolveRequesterStoreKey (collectWorld active) ''main'' = ''agent:main:main''"
  "resolveQueueMode (collectWorld active) requesterEntry = ModeCollect"
  "isEmbeddedPiRunActive (collectWorld active) 3 ''sess-1'' = active"
  "sessionId requesterEntry = Some ''sess-1''"
  by (simp_all add: loadRequesterSessionEntry_def resolveRequesterStoreKey_def collectWorld_def
      world0_def requesterEntry_def startsWith_def trim_def isWhiteSpace_def Let_def)

text \<open>
  Claim C4, as the code has it.  When the requester's session entry has a session id and
  the resolved mode is \<open>collect\<close>, \<open>maybeQueueSubagentAnnounce\<close> enqueues the message and
  answers \<open>"queued"\<close> exactly when the requester's run is active, and the flow then announces
  by that one enqueued item; when the run is not active, it does nothing and answers
  \<open>"none"\<close>, and the flow falls through to the direct send: from the point where the message
  is built, all it does is one \<open>agent\<close> call with \<open>deliver = true\<close> and the message, to the
  requester's session, followed by the \<open>finally\<close> block.
\<close>

theorem collect_enqueues_only_when_active:
  assumes "fst (loadRequesterSessionEntry w (p_requesterSessionKey p)) = Some e"
    and "sessionId e = Some sid" and "sid \<noteq> []"
    and "resolveQueueMode w e = ModeCollect"
  shows "fst (maybeQueueSubagentAnnounce w (p_requesterSessionKey p) msg summary ro) =
           (if isEmbeddedPiRunActive w 3 sid then Queued else NoQueue)
     \<and> snd (maybeQueueSubagentAnnounce w (p_requesterSessionKey p) msg summary ro) =
           (if isEmbeddedPiRunActive w 3 sid
            then [EnqueueAnnounce (resolveRequesterStoreKey w (p_requesterSessionKey p))
                    \<lparr>prompt = msg, summaryLine = summary, enqueuedAt = dateNow w,
                     sessionKey = resolveRequesterStoreKey w (p_requesterSessionKey p),
                     origin = resolveAnnounceOrigin w (Some e) ro\<rparr> ModeCollect]
            else [])
     \<and> (isEmbeddedPiRunActive w 3 sid \<longrightarrow>
          deliver w p msg =
            (True,
             [EnqueueAnnounce (resolveRequesterStoreKey w (p_requesterSessionKey p))
                \<lparr>prompt = msg, summaryLine = Some (taskLabel p), enqueuedAt = dateNow w,
                 sessionKey = resolveRequesterStoreKey w (p_requesterSessionKey p),
                 origin = resolveAnnounceOrigin w (Some e)
                   (normalizeDeliveryContext (normalizeMessageChannel w) (normalizeAccountId w)
                      (map_option deliveryContextJson (p_requesterOrigin p)))\<rparr> ModeCollect]))
     \<and> (\<not> isEmbeddedPiRunActive w 3 sid \<longrightarrow>
          (\<exists>call. ac_sessionKey call = p_requesterSessionKey p \<and> ac_message call = msg
              \<and> ac_deliver call
              \<and> deliver w p msg =
                   (agentCallReturns w call, [Agent call (agentCallReturns w call)])))
     \<and> (\<forall>oc reply st en effs.
          gatherReply w p = Gathered oc reply st en effs
          \<and> \<not> isEmbeddedPiRunActive w 3 sid \<longrightarrow>
          (\<exists>call. ac_sessionKey call = p_requesterSessionKey p
              \<and> ac_message call = flowMessage w p oc reply st en \<and> ac_deliver call
              \<and> runSubagentAnnounceFlow w p =
                   (agentCallReturns w call,
                    effs @ [Agent call (agentCallReturns w call)]
                      @ finallyEffects p (p_cleanup p = Delete))))"
proof -
  have q: "maybeQueueSubagentAnnounce w (p_requesterSessionKey p) m summary' ro' =
      (if isEmbeddedPiRunActive w 3 sid
       then (Queued, [EnqueueAnnounce (resolveRequesterStoreKey w (p_requesterSessionKey p))
                    \<lparr>prompt = m, summaryLine = summary', enqueuedAt = dateNow w,
                     sessionKey = resolveRequesterStoreKey w (p_requesterSessionKey p),
                     origin = resolveAnnounceOrigin w (Some e) ro'\<rparr> ModeCollect])
       else (NoQueue, []))" for m summary' ro'
    using assms by (simp add: maybeQueueSubagentAnnounce_def Let_def)
  have d: "\<not> isEmbeddedPiRunActive w 3 sid \<Longrightarrow>
          \<exists>call. ac_sessionKey call = p_requesterSessionKey p \<and> ac_message call = m
              \<and> ac_deliver call
              \<and> deliver w p m =
                   (agentCallReturns w call, [Agent call (agentCallReturns w call)])" for m
    by (simp add: deliver_def q Let_def)
  have f: "\<exists>call. ac_sessionKey call = p_requesterSessionKey p
              \<and> ac_message call = flowMessage w p oc reply st en \<and> ac_deliver call
              \<and> runSubagentAnnounceFlow w p =
                   (agentCallReturns w call,
                    effs @ [Agent call (agentCallReturns w call)]
                      @ finallyEffects p (p_cleanup p = Delete))"
    if g: "gatherReply w p = Gathered oc reply st en effs"
      and n: "\<not> isEmbeddedPiRunActive w 3 sid" for oc reply st en effs
  proof -
    from d[OF n, of "flowMessage w p oc reply st en"] obtain call where
      c: "ac_sessionKey call = p_requesterSessionKey p"
         "ac_message call = flowMessage w p oc reply st en" "ac_deliver call"
         "deliver w p (flowMessage w p oc reply st en) =
            (agentCallReturns w call, [Agent call (agentCallReturns w call)])"
      by blast
    have "runSubagentAnnounceFlow w p =
                   (agentCallReturns w call,
                    effs @ [Agent call (agentCallReturns w call)]
                      @ finallyEffects p (p_cleanup p = Delete))"
      by (simp add: runSubagentAnnounceFlow_def g c(4))
    with c(1,2,3) show ?thesis by blast
  qed
  have f': "\<forall>oc reply st en effs.
          gatherReply w p = Gathered oc reply st en effs
          \<and> \<not> isEmbeddedPiRunActive w 3 sid \<longrightarrow>
          (\<exists>call. ac_sessionKey call = p_requesterSessionKey p
              \<and> ac_message call = flowMessage w p oc reply st en \<and> ac_deliver call
              \<and> runSubagentAnnounceFlow w p =
                   (agentCallReturns w call,
                    effs @ [Agent call (agentCallReturns w call)]
                      @ finallyEffects p (p_cleanup p = Delete)))"
    using f by blast
  show ?thesis
    by (intro conjI impI d f') (simp_all add: q deliver_def Let_def)
qed

lemma skipParams_requester: "p_requesterSessionKey skipParams = ''main''"
  by (simp add: skipParams_def)

text \<open>The theorem at \<open>collectWorld\<close>: with an active run the message for \<open>main\<close> is queued;
  with an idle one the answer is \<open>"none"\<close> and the message goes out by an \<open>agent\<close> call.\<close>

theorem collect_enqueues_only_when_active_witness:
  "fst (maybeQueueSubagentAnnounce (collectWorld True) ''main'' ''done'' None None) = Queued
   \<and> fst (maybeQueueSubagentAnnounce (collectWorld False) ''main'' ''done'' None None) = NoQueue
   \<and> (\<exists>call. ac_sessionKey call = ''main'' \<and> ac_message call = ''done'' \<and> ac_deliver call
          \<and> deliver (collectWorld False) skipParams ''done'' = (True, [Agent call True]))"
proof -
  have s: "''sess-1'' \<noteq> []" by simp
  have e: "fst (loadRequesterSessionEntry (collectWorld a) (p_requesterSessionKey skipParams))
            = Some requesterEntry" for a
    unfolding skipParams_requester by (rule collectWorld_entry(1))
  have r: "agentCallReturns (collectWorld False) c = True" for c
    by (simp add: collectWorld_def world0_def)
  note t = collect_enqueues_only_when_active[OF e collectWorld_entry(5) s collectWorld_entry(3),
      of True "''done''" None None]
  note f = collect_enqueues_only_when_active[OF e collectWorld_entry(5) s collectWorld_entry(3),
      of False "''done''" None None]
  have a: "fst (maybeQueueSubagentAnnounce (collectWorld True) ''main'' ''done'' None None) = Queued"
    using t[THEN conjunct1] by (simp add: collectWorld_entry(4) skipParams_requester)
  have b: "fst (maybeQueueSubagentAnnounce (collectWorld False) ''main'' ''done'' None None) = NoQueue"
    using f[THEN conjunct1] by (simp add: collectWorld_entry(4) skipParams_requester)
  have c: "\<exists>call. ac_sessionKey call = ''main'' \<and> ac_message call = ''done'' \<and> ac_deliver call
          \<and> deliver (collectWorld False) skipParams ''done'' = (True, [Agent call True])"
    using f[THEN conjunct2, THEN conjunct2, THEN conjunct2, THEN conjunct1]
    by (simp add: collectWorld_entry(4) skipParams_requester r)
  from a b c show ?thesis by (intro conjI)
qed

text \<open>Claim C4 as it is worded fails when the requester's run is not active: the entry has
  a session id, the mode is \<open>collect\<close>, and the answer is \<open>"none"\<close>.\<close>

theorem collect_always_enqueues_counterexample:
  "map_option sessionId (fst (loadRequesterSessionEntry (collectWorld False) ''main''))
      = Some (Some ''sess-1'')
   \<and> map_option (resolveQueueMode (collectWorld False))
        (fst (loadRequesterSessionEntry (collectWorld False) ''main'')) = Some ModeCollect
   \<and> maybeQueueSubagentAnnounce (collectWorld False) ''main'' ''done'' None None = (NoQueue, [])"
  by (simp add: collectWorld_entry maybeQueueSubagentAnnounce_def Let_def)

text \<open>
  Claim C2 at a failing input.  The child's reply is exactly \<open>ANNOUNCE_SKIP\<close>; the flow has
  no test for it, builds the message with the reply under \<open>Findings:\<close> and delivers it by an
  \<open>agent\<close> call to the requester session, returning \<open>true\<close>.
\<close>

theorem announce_skip_is_published:
  "p_roundOneReply skipParams = Some ''ANNOUNCE_SKIP''
   \<and> runSubagentAnnounceFlow world0 skipParams =
      (True,
       [Agent \<lparr>ac_sessionKey = ''main'',
               ac_message =
                 joinLines
                   [''A subagent task '' @ [CHR 0x22] @ ''foo'' @ [CHR 0x22]
                      @ '' just completed successfully.'',
                    [], ''Findings:'', ''ANNOUNCE_SKIP'', [], ''Stats: runtime n/a'', [],
                    instructionLine1, instructionLine2, instructionLine3],
               ac_deliver = True, ac_channel = None, ac_accountId = None, ac_to = None,
               ac_threadId = None\<rparr> True,
        SessionsPatch ''agent:main:subagent:u1'' ''foo''])
   \<and> list_ex publishes (snd (runSubagentAnnounceFlow world0 skipParams))"
proof -
  have msg: "flowMessage world0 skipParams \<lparr>status = StatusOk, error = None\<rparr>
                            (Some ''ANNOUNCE_SKIP'') (Some 1000) (Some 1500) =
     joinLines [''A subagent task '' @ [CHR 0x22] @ ''foo'' @ [CHR 0x22]
                  @ '' just completed successfully.'',
       [], ''Findings:'', ''ANNOUNCE_SKIP'', [], ''Stats: runtime n/a'', [],
       instructionLine1, instructionLine2, instructionLine3]"
    by (simp add: flowMessage_def buildTriggerMessage_def announceTypeOf_def taskLabel_def
        skipParams_def world0_def strOr_def truthyStr_def statusLabel_def announceTypeText_def)
  have run: "runSubagentAnnounceFlow world0 skipParams =
    (True,
     [Agent \<lparr>ac_sessionKey = ''main'',
             ac_message = flowMessage world0 skipParams \<lparr>status = StatusOk, error = None\<rparr>
                            (Some ''ANNOUNCE_SKIP'') (Some 1000) (Some 1500),
             ac_deliver = True, ac_channel = None, ac_accountId = None, ac_to = None,
             ac_threadId = None\<rparr> True,
      SessionsPatch ''agent:main:subagent:u1'' ''foo''])"
    by (simp add: runSubagentAnnounceFlow_def gatherReply_def afterWait_def childSessionId_def
        loadSessionEntryByKey_def world0_def skipParams_def truthyStr_def trimTruthy_def
        deliver_def maybeQueueSubagentAnnounce_def loadRequesterSessionEntry_def
        normalizeDeliveryContext_def deliveryContextFromSession_def finallyEffects_def
        strOr_def threadIdText_def Let_def isWhiteSpace_def trim_def)
  have reply: "p_roundOneReply skipParams = Some ''ANNOUNCE_SKIP''"
    by (simp add: skipParams_def)
  show ?thesis
    unfolding run msg using reply by simp
qed

lemma afterWait_effects:
  "afterWait w p oc0 r0 k st en effs = Gathered oc r st' en' effs' \<Longrightarrow> effs' = effs"
  by (auto simp: afterWait_def Let_def split: if_splits)

lemma gather_effects:
  assumes "gatherReply w p = Gathered oc r st en effs"
  shows "\<forall>e \<in> set effs. messageOf e = None"
proof -
  have "effs = [] \<or> effs = [AgentWait (p_childRunId p) (settleTimeoutMs p)]"
    using assms
    by (auto simp: gatherReply_def Let_def split: if_splits option.splits
        dest!: afterWait_effects)
  then show ?thesis by auto
qed

lemma maybeQueue_messages:
  "e \<in> set (snd (maybeQueueSubagentAnnounce w key m summary ro)) \<Longrightarrow> messageOf e = Some m'
   \<Longrightarrow> m' = m"
  by (auto simp: maybeQueueSubagentAnnounce_def Let_def split: option.splits if_splits)

lemma deliver_messages:
  "e \<in> set (snd (deliver w p m)) \<Longrightarrow> messageOf e = Some m' \<Longrightarrow> m' = m"
  by (auto simp: deliver_def Let_def split_beta split: if_splits dest: maybeQueue_messages)

lemma finally_messages: "e \<in> set (finallyEffects p b) \<Longrightarrow> messageOf e = None"
  by (auto simp: finallyEffects_def split: if_splits)

lemma flow_messages:
  assumes "gatherReply w p = Gathered oc r st en effs"
    and "e \<in> set (snd (runSubagentAnnounceFlow w p))" and "messageOf e = Some m"
  shows "m = flowMessage w p oc r st en"
proof -
  from assms(1,2) have "e \<in> set effs \<or> e \<in> set (snd (deliver w p (flowMessage w p oc r st en)))
      \<or> e \<in> set (finallyEffects p (p_cleanup p = Delete))"
    by (auto simp: runSubagentAnnounceFlow_def split_beta)
  then show ?thesis
    using gather_effects[OF assms(1)] assms(3) deliver_messages finally_messages
    by fastforce
qed

lemma statusLabel_table:
  "statusLabel oc =
     (case status oc of
        StatusOk \<Rightarrow> ''completed successfully''
      | StatusTimeout \<Rightarrow> ''timed out''
      | StatusError \<Rightarrow>
          ''failed: '' @ (case error oc of Some (c # cs) \<Rightarrow> c # cs | _ \<Rightarrow> ''unknown error'')
      | StatusUnknown \<Rightarrow> ''finished with unknown status'')"
  by (cases "status oc")
     (auto simp: statusLabel_def strOr_def truthyStr_def split: option.splits list.splits)

lemma buildTriggerMessage_header:
  "buildTriggerMessage ty lbl oc reply stats =
     ''A '' @ announceTypeText ty @ '' '' @ [CHR 0x22] @ lbl @ [CHR 0x22] @ '' just ''
       @ statusLabel oc @ ''.'' @ [CHR 0x0A]
       @ joinLines [[], ''Findings:'', strOr reply ''(no output)'', [], stats, [],
                    instructionLine1, instructionLine2, instructionLine3]"
  by (simp add: buildTriggerMessage_def)

lemma afterWait_outcome:
  "afterWait w p oc0 r0 k st en effs = Gathered oc r st' en' effs' \<Longrightarrow>
   oc = (case oc0 of Some v \<Rightarrow> v | None \<Rightarrow> \<lparr>status = StatusUnknown, error = None\<rparr>)"
  by (auto simp: afterWait_def Let_def split: if_splits)

lemma gather_outcome:
  assumes "gatherReply w p = Gathered oc r st en effs"
  shows "oc = (case (if \<not> truthyStr (p_roundOneReply p) \<and> p_waitForCompletion p \<noteq> Some False
             then (case agentWait w (p_childRunId p) (settleTimeoutMs p) of
                     Some a \<Rightarrow>
                       (if wait_status a = WaitTimeout
                        then Some \<lparr>status = StatusTimeout, error = None\<rparr>
                        else if wait_status a = WaitError
                        then Some \<lparr>status = StatusError, error = wait_error a\<rparr>
                        else if wait_status a = WaitOk
                        then Some \<lparr>status = StatusOk, error = None\<rparr>
                        else p_outcome p)
                   | None \<Rightarrow> p_outcome p)
             else p_outcome p) of Some v \<Rightarrow> v | None \<Rightarrow> \<lparr>status = StatusUnknown, error = None\<rparr>)"
proof (cases "\<not> truthyStr (p_roundOneReply p) \<and> p_waitForCompletion p \<noteq> Some False")
  case True
  have nd: "\<not> (case childSessionId w p of
            None \<Rightarrow> False
          | Some cid \<Rightarrow>
              isEmbeddedPiRunActive w 0 cid
              \<and> \<not> waitForEmbeddedPiRunEnd w cid (settleTimeoutMs p)
              \<and> isEmbeddedPiRunActive w 1 cid)"
  proof
    assume "case childSessionId w p of
            None \<Rightarrow> False
          | Some cid \<Rightarrow>
              isEmbeddedPiRunActive w 0 cid
              \<and> \<not> waitForEmbeddedPiRunEnd w cid (settleTimeoutMs p)
              \<and> isEmbeddedPiRunActive w 1 cid"
    then have "gatherReply w p = Deferred" by (simp add: gatherReply_def)
    with assms show False by simp
  qed
  show ?thesis
  proof (cases "agentWait w (p_childRunId p) (settleTimeoutMs p)")
    case None
    with True assms nd show ?thesis
      unfolding if_P[OF True] by (simp add: gatherReply_def)
  next
    case (Some a)
    from assms True Some have
      "afterWait w p (if wait_status a = WaitTimeout
                        then Some \<lparr>status = StatusTimeout, error = None\<rparr>
                        else if wait_status a = WaitError
                        then Some \<lparr>status = StatusError, error = wait_error a\<rparr>
                        else if wait_status a = WaitOk
                        then Some \<lparr>status = StatusOk, error = None\<rparr>
                        else p_outcome p)
          (readLatestAssistantReply w 0 (p_childSessionKey p)) 1
          (if wait_startedAt a \<noteq> None \<and> \<not> truthyNum (p_startedAt p)
                            then wait_startedAt a else p_startedAt p)
          (if wait_endedAt a \<noteq> None \<and> \<not> truthyNum (p_endedAt p)
                          then wait_endedAt a else p_endedAt p)
          [AgentWait (p_childRunId p) (settleTimeoutMs p)] = Gathered oc r st en effs"
      using nd by (simp add: gatherReply_def Let_def)
    from afterWait_outcome[OF this] show ?thesis
      unfolding if_P[OF True] Some option.case by simp
  qed
next
  case False
  with assms have
    "afterWait w p (p_outcome p) (p_roundOneReply p) 0 (p_startedAt p) (p_endedAt p) []
       = Gathered oc r st en effs"
    by (auto simp: gatherReply_def split: if_splits)
  from afterWait_outcome[OF this] show ?thesis
    unfolding if_not_P[OF False] by simp
qed

lemma message_gathered:
  assumes "e \<in> set (snd (runSubagentAnnounceFlow w p))" and "messageOf e = Some m"
  shows "\<exists>oc r st en effs. gatherReply w p = Gathered oc r st en effs"
proof (cases "gatherReply w p")
  case Deferred
  with assms finally_messages[of e p False] show ?thesis
    by (simp add: runSubagentAnnounceFlow_def)
next
  case (Threw effs)
  have "effs = [AgentWait (p_childRunId p) (settleTimeoutMs p)]"
    using Threw
    by (auto simp: gatherReply_def afterWait_def Let_def split: if_splits option.splits)
  with Threw assms finally_messages[of e p "p_cleanup p = Delete"] show ?thesis
    by (auto simp: runSubagentAnnounceFlow_def)
next
  case (Gathered oc r st en effs)
  then show ?thesis by blast
qed

lemma flow_message_header:
  assumes "e \<in> set (snd (runSubagentAnnounceFlow w p))" and "messageOf e = Some m"
  shows "\<exists>rest. m = ''A '' @ announceTypeText (announceTypeOf p) @ '' '' @ [CHR 0x22] @ taskLabel p
             @ [CHR 0x22] @ '' just ''
             @ (case (if \<not> truthyStr (p_roundOneReply p) \<and> p_waitForCompletion p \<noteq> Some False
                      then (case agentWait w (p_childRunId p) (settleTimeoutMs p) of
                              Some a \<Rightarrow>
                                (if wait_status a = WaitTimeout
                                 then Some \<lparr>status = StatusTimeout, error = None\<rparr>
                                 else if wait_status a = WaitError
                                 then Some \<lparr>status = StatusError, error = wait_error a\<rparr>
                                 else if wait_status a = WaitOk
                                 then Some \<lparr>status = StatusOk, error = None\<rparr>
                                 else p_outcome p)
                            | None \<Rightarrow> p_outcome p)
                      else p_outcome p) of
                  None \<Rightarrow> ''finished with unknown status''
                | Some oc \<Rightarrow>
                    (case status oc of
                       StatusOk \<Rightarrow> ''completed successfully''
                     | StatusTimeout \<Rightarrow> ''timed out''
                     | StatusError \<Rightarrow>
                         ''failed: '' @ (case error oc of Some (c # cs) \<Rightarrow> c # cs
                                         | _ \<Rightarrow> ''unknown error'')
                     | StatusUnknown \<Rightarrow> ''finished with unknown status''))
             @ ''.'' @ [CHR 0x0A] @ rest"
proof -
  let ?sig = "if \<not> truthyStr (p_roundOneReply p) \<and> p_waitForCompletion p \<noteq> Some False
                      then (case agentWait w (p_childRunId p) (settleTimeoutMs p) of
                              Some a \<Rightarrow>
                                (if wait_status a = WaitTimeout
                                 then Some \<lparr>status = StatusTimeout, error = None\<rparr>
                                 else if wait_status a = WaitError
                                 then Some \<lparr>status = StatusError, error = wait_error a\<rparr>
                                 else if wait_status a = WaitOk
                                 then Some \<lparr>status = StatusOk, error = None\<rparr>
                                 else p_outcome p)
                            | None \<Rightarrow> p_outcome p)
                      else p_outcome p"
  from message_gathered[OF assms] obtain oc r st en effs where
    g: "gatherReply w p = Gathered oc r st en effs" by blast
  have oc: "oc = (case ?sig of Some v \<Rightarrow> v | None \<Rightarrow> \<lparr>status = StatusUnknown, error = None\<rparr>)"
    by (rule gather_outcome[OF g])
  have m: "m = flowMessage w p oc r st en"
    using g assms by (rule flow_messages)
  have lbl: "statusLabel oc =
     (case ?sig of
        None \<Rightarrow> ''finished with unknown status''
      | Some oc \<Rightarrow>
          (case status oc of
             StatusOk \<Rightarrow> ''completed successfully''
           | StatusTimeout \<Rightarrow> ''timed out''
           | StatusError \<Rightarrow>
               ''failed: '' @ (case error oc of Some (c # cs) \<Rightarrow> c # cs
                               | _ \<Rightarrow> ''unknown error'')
           | StatusUnknown \<Rightarrow> ''finished with unknown status''))"
    unfolding oc by (cases ?sig) (simp_all only: option.case statusLabel_table
        SubagentRunOutcome.simps outcome_status.case)
  let ?rest = "joinLines [[], ''Findings:'', strOr r ''(no output)'', [],
       buildSubagentStatsLine w (p_childSessionKey p) st en, [],
       instructionLine1, instructionLine2, instructionLine3]"
  have "m = ''A '' @ announceTypeText (announceTypeOf p) @ '' '' @ [CHR 0x22] @ taskLabel p
             @ [CHR 0x22] @ '' just '' @ statusLabel oc @ ''.'' @ [CHR 0x0A] @ ?rest"
    unfolding m flowMessage_def buildTriggerMessage_header by (rule refl)
  then show ?thesis unfolding lbl by (rule exI[of _ ?rest])
qed

lemma signal_cong:
  assumes "p_outcome p1 = p_outcome p2"
    and "(\<not> truthyStr (p_roundOneReply p1) \<and> p_waitForCompletion p1 \<noteq> Some False)
           = (\<not> truthyStr (p_roundOneReply p2) \<and> p_waitForCompletion p2 \<noteq> Some False)"
    and "\<not> truthyStr (p_roundOneReply p1) \<and> p_waitForCompletion p1 \<noteq> Some False \<longrightarrow>
           map_option (\<lambda>a. (wait_status a, wait_error a))
             (agentWait w1 (p_childRunId p1) (settleTimeoutMs p1))
         = map_option (\<lambda>a. (wait_status a, wait_error a))
             (agentWait w2 (p_childRunId p2) (settleTimeoutMs p2))"
  shows "(if \<not> truthyStr (p_roundOneReply p1) \<and> p_waitForCompletion p1 \<noteq> Some False
            then (case agentWait w1 (p_childRunId p1) (settleTimeoutMs p1) of
                    Some a \<Rightarrow>
                      (if wait_status a = WaitTimeout
                       then Some \<lparr>status = StatusTimeout, error = None\<rparr>
                       else if wait_status a = WaitError
                       then Some \<lparr>status = StatusError, error = wait_error a\<rparr>
                       else if wait_status a = WaitOk
                       then Some \<lparr>status = StatusOk, error = None\<rparr>
                       else p_outcome p1)
                  | None \<Rightarrow> p_outcome p1)
            else p_outcome p1)
       = (if \<not> truthyStr (p_roundOneReply p2) \<and> p_waitForCompletion p2 \<noteq> Some False
            then (case agentWait w2 (p_childRunId p2) (settleTimeoutMs p2) of
                    Some a \<Rightarrow>
                      (if wait_status a = WaitTimeout
                       then Some \<lparr>status = StatusTimeout, error = None\<rparr>
                       else if wait_status a = WaitError
                       then Some \<lparr>status = StatusError, error = wait_error a\<rparr>
                       else if wait_status a = WaitOk
                       then Some \<lparr>status = StatusOk, error = None\<rparr>
                       else p_outcome p2)
                  | None \<Rightarrow> p_outcome p2)
            else p_outcome p2)"
proof (cases "\<not> truthyStr (p_roundOneReply p1) \<and> p_waitForCompletion p1 \<noteq> Some False")
  case True
  with assms(2) have T2: "\<not> truthyStr (p_roundOneReply p2) \<and> p_waitForCompletion p2 \<noteq> Some False"
    by simp
  from assms(3) True have eq: "map_option (\<lambda>a. (wait_status a, wait_error a))
             (agentWait w1 (p_childRunId p1) (settleTimeoutMs p1))
         = map_option (\<lambda>a. (wait_status a, wait_error a))
             (agentWait w2 (p_childRunId p2) (settleTimeoutMs p2))"
    by simp
  show ?thesis
    unfolding if_P[OF True] if_P[OF T2]
  proof (cases "agentWait w1 (p_childRunId p1) (settleTimeoutMs p1)")
    case None
    with eq have "agentWait w2 (p_childRunId p2) (settleTimeoutMs p2) = None" by simp
    with None assms(1) show "(case agentWait w1 (p_childRunId p1) (settleTimeoutMs p1) of
                    Some a \<Rightarrow>
                      (if wait_status a = WaitTimeout
                       then Some \<lparr>status = StatusTimeout, error = None\<rparr>
                       else if wait_status a = WaitError
                       then Some \<lparr>status = StatusError, error = wait_error a\<rparr>
                       else if wait_status a = WaitOk
                       then Some \<lparr>status = StatusOk, error = None\<rparr>
                       else p_outcome p1)
                  | None \<Rightarrow> p_outcome p1)
       = (case agentWait w2 (p_childRunId p2) (settleTimeoutMs p2) of
                    Some a \<Rightarrow>
                      (if wait_status a = WaitTimeout
                       then Some \<lparr>status = StatusTimeout, error = None\<rparr>
                       else if wait_status a = WaitError
                       then Some \<lparr>status = StatusError, error = wait_error a\<rparr>
                       else if wait_status a = WaitOk
                       then Some \<lparr>status = StatusOk, error = None\<rparr>
                       else p_outcome p2)
                  | None \<Rightarrow> p_outcome p2)"
      by simp
  next
    case (Some a)
    with eq obtain b where b: "agentWait w2 (p_childRunId p2) (settleTimeoutMs p2) = Some b"
      "wait_status b = wait_status a" "wait_error b = wait_error a"
      by (cases "agentWait w2 (p_childRunId p2) (settleTimeoutMs p2)") auto
    with Some assms(1) show "(case agentWait w1 (p_childRunId p1) (settleTimeoutMs p1) of
                    Some a \<Rightarrow>
                      (if wait_status a = WaitTimeout
                       then Some \<lparr>status = StatusTimeout, error = None\<rparr>
                       else if wait_status a = WaitError
                       then Some \<lparr>status = StatusError, error = wait_error a\<rparr>
                       else if wait_status a = WaitOk
                       then Some \<lparr>status = StatusOk, error = None\<rparr>
                       else p_outcome p1)
                  | None \<Rightarrow> p_outcome p1)
       = (case agentWait w2 (p_childRunId p2) (settleTimeoutMs p2) of
                    Some a \<Rightarrow>
                      (if wait_status a = WaitTimeout
                       then Some \<lparr>status = StatusTimeout, error = None\<rparr>
                       else if wait_status a = WaitError
                       then Some \<lparr>status = StatusError, error = wait_error a\<rparr>
                       else if wait_status a = WaitOk
                       then Some \<lparr>status = StatusOk, error = None\<rparr>
                       else p_outcome p2)
                  | None \<Rightarrow> p_outcome p2)"
      by simp
  qed
next
  case False
  with assms(2) have F2: "\<not> (\<not> truthyStr (p_roundOneReply p2) \<and> p_waitForCompletion p2 \<noteq> Some False)"
    by simp
  show ?thesis
    unfolding if_not_P[OF False] if_not_P[OF F2] by (rule assms(1))
qed

text \<open>
  Claim C9, as the code has it.  The flow takes the outcome from its parameters, unless it
  asks \<open>agent.wait\<close>, which it does exactly when \<open>roundOneReply\<close> is absent or empty and
  \<open>waitForCompletion\<close> is not \<open>false\<close>; an answer \<open>timeout\<close>, \<open>error\<close> or \<open>ok\<close> then replaces
  it.  Take two runs, in any surroundings, with the same \<open>outcome\<close> parameter, that both ask
  \<open>agent.wait\<close> or both do not, and that get the same status and error from it if they ask.
  Whatever their replies (given or read from the child session), timestamps and labels,
  every message either run hands to the requester (steered, enqueued or sent) begins
  \<open>A <type> "<label>" just <phrase>.\<close> followed by a line break, with one and the same
  phrase, given by that signal: \<open>completed successfully\<close> for \<open>ok\<close>, \<open>timed out\<close> for
  \<open>timeout\<close>, \<open>failed: \<close> and the error (or \<open>unknown error\<close> when it is missing or empty) for
  \<open>error\<close>, and \<open>finished with unknown status\<close> otherwise.
\<close>

theorem status_phrase_from_runtime_signal:
  assumes "e1 \<in> set (snd (runSubagentAnnounceFlow w1 p1))" and "messageOf e1 = Some m1"
    and "e2 \<in> set (snd (runSubagentAnnounceFlow w2 p2))" and "messageOf e2 = Some m2"
    and "p_outcome p1 = p_outcome p2"
    and "(\<not> truthyStr (p_roundOneReply p1) \<and> p_waitForCompletion p1 \<noteq> Some False)
           = (\<not> truthyStr (p_roundOneReply p2) \<and> p_waitForCompletion p2 \<noteq> Some False)"
    and "\<not> truthyStr (p_roundOneReply p1) \<and> p_waitForCompletion p1 \<noteq> Some False \<longrightarrow>
           map_option (\<lambda>a. (wait_status a, wait_error a))
             (agentWait w1 (p_childRunId p1) (settleTimeoutMs p1))
         = map_option (\<lambda>a. (wait_status a, wait_error a))
             (agentWait w2 (p_childRunId p2) (settleTimeoutMs p2))"
  shows "\<exists>signal phrase rest1 rest2.
      signal =
        (if \<not> truthyStr (p_roundOneReply p1) \<and> p_waitForCompletion p1 \<noteq> Some False
            then (case agentWait w1 (p_childRunId p1) (settleTimeoutMs p1) of
                    Some a \<Rightarrow>
                      (if wait_status a = WaitTimeout
                       then Some \<lparr>status = StatusTimeout, error = None\<rparr>
                       else if wait_status a = WaitError
                       then Some \<lparr>status = StatusError, error = wait_error a\<rparr>
                       else if wait_status a = WaitOk
                       then Some \<lparr>status = StatusOk, error = None\<rparr>
                       else p_outcome p1)
                  | None \<Rightarrow> p_outcome p1)
            else p_outcome p1)
    \<and> phrase =
        (case signal of
           None \<Rightarrow> ''finished with unknown status''
         | Some oc \<Rightarrow>
             (case status oc of
                StatusOk \<Rightarrow> ''completed successfully''
              | StatusTimeout \<Rightarrow> ''timed out''
              | StatusError \<Rightarrow>
                  ''failed: '' @ (case error oc of Some (c # cs) \<Rightarrow> c # cs
                                  | _ \<Rightarrow> ''unknown error'')
              | StatusUnknown \<Rightarrow> ''finished with unknown status''))
    \<and> m1 = ''A '' @ announceTypeText (announceTypeOf p1) @ '' '' @ [CHR 0x22] @ taskLabel p1
             @ [CHR 0x22] @ '' just '' @ phrase @ ''.'' @ [CHR 0x0A] @ rest1
    \<and> m2 = ''A '' @ announceTypeText (announceTypeOf p2) @ '' '' @ [CHR 0x22] @ taskLabel p2
             @ [CHR 0x22] @ '' just '' @ phrase @ ''.'' @ [CHR 0x0A] @ rest2"
proof -
  let ?sig = "(if \<not> truthyStr (p_roundOneReply p1) \<and> p_waitForCompletion p1 \<noteq> Some False
            then (case agentWait w1 (p_childRunId p1) (settleTimeoutMs p1) of
                    Some a \<Rightarrow>
                      (if wait_status a = WaitTimeout
                       then Some \<lparr>status = StatusTimeout, error = None\<rparr>
                       else if wait_status a = WaitError
                       then Some \<lparr>status = StatusError, error = wait_error a\<rparr>
                       else if wait_status a = WaitOk
                       then Some \<lparr>status = StatusOk, error = None\<rparr>
                       else p_outcome p1)
                  | None \<Rightarrow> p_outcome p1)
            else p_outcome p1)"
  let ?phrase = "(case ?sig of
           None \<Rightarrow> ''finished with unknown status''
         | Some oc \<Rightarrow>
             (case status oc of
                StatusOk \<Rightarrow> ''completed successfully''
              | StatusTimeout \<Rightarrow> ''timed out''
              | StatusError \<Rightarrow>
                  ''failed: '' @ (case error oc of Some (c # cs) \<Rightarrow> c # cs
                                  | _ \<Rightarrow> ''unknown error'')
              | StatusUnknown \<Rightarrow> ''finished with unknown status''))"
  from flow_message_header[OF assms(1,2)] obtain rest1 where
    b1: "m1 = ''A '' @ announceTypeText (announceTypeOf p1) @ '' '' @ [CHR 0x22] @ taskLabel p1
             @ [CHR 0x22] @ '' just '' @ ?phrase @ ''.'' @ [CHR 0x0A] @ rest1"
    by (elim exE)
  from flow_message_header[OF assms(3,4)] obtain rest2 where
    b2: "m2 = ''A '' @ announceTypeText (announceTypeOf p2) @ '' '' @ [CHR 0x22] @ taskLabel p2
             @ [CHR 0x22] @ '' just '' @ ?phrase @ ''.'' @ [CHR 0x0A] @ rest2"
    unfolding signal_cong[OF assms(5,6,7), symmetric] by (elim exE)
  show ?thesis
    by (rule exI[of _ ?sig], rule exI[of _ ?phrase], rule exI[of _ rest1], rule exI[of _ rest2])
       (intro conjI refl b1 b2)
qed

lemma error_gather:
  "gatherReply world0 (errorParams ''success'') =
     Gathered \<lparr>status = StatusError, error = Some ''boom''\<rparr> (Some ''success'')
       (Some 1000) (Some 1500) []"
  "gatherReply world0 (errorParams ''all good'') =
     Gathered \<lparr>status = StatusError, error = Some ''boom''\<rparr> (Some ''all good'')
       (Some 1000) (Some 1500) []"
  by (simp_all add: gatherReply_def afterWait_def childSessionId_def loadSessionEntryByKey_def
      world0_def skipParams_def errorParams_def truthyStr_def trimTruthy_def Let_def
      isWhiteSpace_def trim_def)

lemma deliver_world0:
  "p_requesterSessionKey p = ''main'' \<Longrightarrow> p_requesterOrigin p = None \<Longrightarrow>
   deliver world0 p m =
     (True, [Agent \<lparr>ac_sessionKey = ''main'', ac_message = m, ac_deliver = True,
                     ac_channel = None, ac_accountId = None, ac_to = None,
                     ac_threadId = None\<rparr> True])"
  by (simp add: deliver_def maybeQueueSubagentAnnounce_def loadRequesterSessionEntry_def
      world0_def normalizeDeliveryContext_def deliveryContextFromSession_def threadIdText_def
      Let_def)

lemma errorParams_requester:
  "p_requesterSessionKey (errorParams r) = ''main''" "p_requesterOrigin (errorParams r) = None"
  by (simp_all add: errorParams_def skipParams_def)

lemma error_flow:
  "Agent \<lparr>ac_sessionKey = ''main'',
          ac_message = flowMessage world0 (errorParams ''success'')
                         \<lparr>status = StatusError, error = Some ''boom''\<rparr> (Some ''success'')
                         (Some 1000) (Some 1500),
          ac_deliver = True, ac_channel = None, ac_accountId = None, ac_to = None,
          ac_threadId = None\<rparr> True
     \<in> set (snd (runSubagentAnnounceFlow world0 (errorParams ''success'')))"
  "Agent \<lparr>ac_sessionKey = ''main'',
          ac_message = flowMessage world0 (errorParams ''all good'')
                         \<lparr>status = StatusError, error = Some ''boom''\<rparr> (Some ''all good'')
                         (Some 1000) (Some 1500),
          ac_deliver = True, ac_channel = None, ac_accountId = None, ac_to = None,
          ac_threadId = None\<rparr> True
     \<in> set (snd (runSubagentAnnounceFlow world0 (errorParams ''all good'')))"
  by (simp_all add: runSubagentAnnounceFlow_def error_gather deliver_world0 errorParams_requester)

lemma errorParams_finally:
  "finallyEffects (errorParams r) (p_cleanup (errorParams r) = Delete)
     = [SessionsPatch ''agent:main:subagent:u1'' ''foo'']"
  by (simp add: finallyEffects_def errorParams_def skipParams_def truthyStr_def strOr_def)

lemma error_runs:
  "snd (runSubagentAnnounceFlow world0 (errorParams ''success'')) =
     [Agent \<lparr>ac_sessionKey = ''main'',
          ac_message = flowMessage world0 (errorParams ''success'')
                         \<lparr>status = StatusError, error = Some ''boom''\<rparr> (Some ''success'')
                         (Some 1000) (Some 1500),
          ac_deliver = True, ac_channel = None, ac_accountId = None, ac_to = None,
          ac_threadId = None\<rparr> True,
      SessionsPatch ''agent:main:subagent:u1'' ''foo'']"
  "snd (runSubagentAnnounceFlow world0 (errorParams ''all good'')) =
     [Agent \<lparr>ac_sessionKey = ''main'',
          ac_message = flowMessage world0 (errorParams ''all good'')
                         \<lparr>status = StatusError, error = Some ''boom''\<rparr> (Some ''all good'')
                         (Some 1000) (Some 1500),
          ac_deliver = True, ac_channel = None, ac_accountId = None, ac_to = None,
          ac_threadId = None\<rparr> True,
      SessionsPatch ''agent:main:subagent:u1'' ''foo'']"
  by (simp_all add: runSubagentAnnounceFlow_def error_gather deliver_world0 errorParams_requester
      errorParams_finally)

text \<open>The theorem at two runs whose outcome is \<open>error: boom\<close>, one whose child replied
  \<open>success\<close> and one whose child replied \<open>all good\<close>: what each run does is one \<open>agent\<close> call
  and the patch of the label, and both messages begin
  \<open>A subagent task "foo" just failed: boom.\<close>\<close>

theorem status_phrase_from_runtime_signal_witness:
  "\<exists>rest1 rest2.
     snd (runSubagentAnnounceFlow world0 (errorParams ''success'')) =
       [Agent \<lparr>ac_sessionKey = ''main'',
            ac_message = ''A subagent task '' @ [CHR 0x22] @ ''foo'' @ [CHR 0x22]
                           @ '' just failed: boom.'' @ [CHR 0x0A] @ rest1,
            ac_deliver = True, ac_channel = None, ac_accountId = None, ac_to = None,
            ac_threadId = None\<rparr> True,
        SessionsPatch ''agent:main:subagent:u1'' ''foo'']
   \<and> snd (runSubagentAnnounceFlow world0 (errorParams ''all good'')) =
       [Agent \<lparr>ac_sessionKey = ''main'',
            ac_message = ''A subagent task '' @ [CHR 0x22] @ ''foo'' @ [CHR 0x22]
                           @ '' just failed: boom.'' @ [CHR 0x0A] @ rest2,
            ac_deliver = True, ac_channel = None, ac_accountId = None, ac_to = None,
            ac_threadId = None\<rparr> True,
        SessionsPatch ''agent:main:subagent:u1'' ''foo'']"
proof -
  let ?m1 = "flowMessage world0 (errorParams ''success'')
               \<lparr>status = StatusError, error = Some ''boom''\<rparr> (Some ''success'')
               (Some 1000) (Some 1500)"
  let ?m2 = "flowMessage world0 (errorParams ''all good'')
               \<lparr>status = StatusError, error = Some ''boom''\<rparr> (Some ''all good'')
               (Some 1000) (Some 1500)"
  have ty: "announceTypeText (announceTypeOf (errorParams r)) = ''subagent task''"
           "taskLabel (errorParams r) = ''foo''"
           "p_outcome (errorParams r) = Some \<lparr>status = StatusError, error = Some ''boom''\<rparr>"
           "p_roundOneReply (errorParams r) = Some r" for r
    by (simp_all add: announceTypeOf_def announceTypeText_def taskLabel_def errorParams_def
        skipParams_def strOr_def truthyStr_def)
  have tr: "truthyStr (Some ''success'')" "truthyStr (Some ''all good'')"
    by (simp_all add: truthyStr_def)
  have k: "messageOf (Agent \<lparr>ac_sessionKey = ''main'', ac_message = m, ac_deliver = True,
             ac_channel = None, ac_accountId = None, ac_to = None, ac_threadId = None\<rparr> True)
           = Some m" for m
    by simp
  have h5: "p_outcome (errorParams ''success'') = p_outcome (errorParams ''all good'')"
    by (simp add: ty)
  have h6: "(\<not> truthyStr (p_roundOneReply (errorParams ''success''))
              \<and> p_waitForCompletion (errorParams ''success'') \<noteq> Some False)
           = (\<not> truthyStr (p_roundOneReply (errorParams ''all good''))
              \<and> p_waitForCompletion (errorParams ''all good'') \<noteq> Some False)"
    by (simp add: ty tr)
  have h7: "\<not> truthyStr (p_roundOneReply (errorParams ''success''))
              \<and> p_waitForCompletion (errorParams ''success'') \<noteq> Some False \<longrightarrow>
           map_option (\<lambda>a. (wait_status a, wait_error a))
             (agentWait world0 (p_childRunId (errorParams ''success''))
                (settleTimeoutMs (errorParams ''success'')))
         = map_option (\<lambda>a. (wait_status a, wait_error a))
             (agentWait world0 (p_childRunId (errorParams ''all good''))
                (settleTimeoutMs (errorParams ''all good'')))"
    by (simp add: ty tr)
  from status_phrase_from_runtime_signal[OF error_flow(1) k error_flow(2) k h5 h6 h7]
  have "\<exists>rest1 rest2.
      ?m1 = ''A subagent task '' @ [CHR 0x22] @ ''foo'' @ [CHR 0x22]
                           @ '' just failed: boom.'' @ [CHR 0x0A] @ rest1
    \<and> ?m2 = ''A subagent task '' @ [CHR 0x22] @ ''foo'' @ [CHR 0x22]
                           @ '' just failed: boom.'' @ [CHR 0x0A] @ rest2"
    by (simp add: ty tr)
  then obtain rest1 rest2 where
      a: "?m1 = ''A subagent task '' @ [CHR 0x22] @ ''foo'' @ [CHR 0x22]
                           @ '' just failed: boom.'' @ [CHR 0x0A] @ rest1"
    and b: "?m2 = ''A subagent task '' @ [CHR 0x22] @ ''foo'' @ [CHR 0x22]
                           @ '' just failed: boom.'' @ [CHR 0x0A] @ rest2"
    by (elim exE conjE)
  show ?thesis
    by (rule exI[of _ rest1], rule exI[of _ rest2])
       (simp only: error_runs a[symmetric] b[symmetric] simp_thms)
qed

text \<open>Claim C9 as it is worded fails on two runs with the same outcome parameter \<open>ok\<close>, where
  \<open>agent.wait\<close> would answer \<open>timeout\<close>: the run that is given the reply \<open>done\<close> does not ask
  and says \<open>completed successfully\<close>; the run that is given no reply asks and says
  \<open>timed out\<close>.\<close>

theorem status_phrase_reply_presence_counterexample:
  "p_outcome (okParams (Some ''done'')) = p_outcome (okParams None)
   \<and> snd (runSubagentAnnounceFlow timeoutWorld (okParams (Some ''done''))) =
       [Agent \<lparr>ac_sessionKey = ''main'',
               ac_message =
                 joinLines
                   [''A subagent task '' @ [CHR 0x22] @ ''foo'' @ [CHR 0x22]
                      @ '' just completed successfully.'',
                    [], ''Findings:'', ''done'', [], ''Stats: runtime n/a'', [],
                    instructionLine1, instructionLine2, instructionLine3],
               ac_deliver = True, ac_channel = None, ac_accountId = None, ac_to = None,
               ac_threadId = None\<rparr> True,
        SessionsPatch ''agent:main:subagent:u1'' ''foo'']
   \<and> snd (runSubagentAnnounceFlow timeoutWorld (okParams None)) =
       [AgentWait ''r1'' 30000,
        Agent \<lparr>ac_sessionKey = ''main'',
               ac_message =
                 joinLines
                   [''A subagent task '' @ [CHR 0x22] @ ''foo'' @ [CHR 0x22]
                      @ '' just timed out.'',
                    [], ''Findings:'', ''partial'', [], ''Stats: runtime n/a'', [],
                    instructionLine1, instructionLine2, instructionLine3],
               ac_deliver = True, ac_channel = None, ac_accountId = None, ac_to = None,
               ac_threadId = None\<rparr> True,
        SessionsPatch ''agent:main:subagent:u1'' ''foo'']"
proof -
  have m1: "flowMessage timeoutWorld (okParams (Some ''done'')) \<lparr>status = StatusOk, error = None\<rparr>
                            (Some ''done'') (Some 1000) (Some 1500) =
     joinLines [''A subagent task '' @ [CHR 0x22] @ ''foo'' @ [CHR 0x22]
                  @ '' just completed successfully.'',
       [], ''Findings:'', ''done'', [], ''Stats: runtime n/a'', [],
       instructionLine1, instructionLine2, instructionLine3]"
    by (simp add: flowMessage_def buildTriggerMessage_def announceTypeOf_def taskLabel_def
        okParams_def skipParams_def timeoutWorld_def world0_def strOr_def truthyStr_def
        statusLabel_def announceTypeText_def)
  have m2: "flowMessage timeoutWorld (okParams None) \<lparr>status = StatusTimeout, error = None\<rparr>
                            (Some ''partial'') (Some 1000) (Some 1500) =
     joinLines [''A subagent task '' @ [CHR 0x22] @ ''foo'' @ [CHR 0x22]
                  @ '' just timed out.'',
       [], ''Findings:'', ''partial'', [], ''Stats: runtime n/a'', [],
       instructionLine1, instructionLine2, instructionLine3]"
    by (simp add: flowMessage_def buildTriggerMessage_def announceTypeOf_def taskLabel_def
        okParams_def skipParams_def timeoutWorld_def world0_def strOr_def truthyStr_def
        statusLabel_def announceTypeText_def)
  have r1: "snd (runSubagentAnnounceFlow timeoutWorld (okParams (Some ''done''))) =
     [Agent \<lparr>ac_sessionKey = ''main'',
             ac_message = flowMessage timeoutWorld (okParams (Some ''done''))
                            \<lparr>status = StatusOk, error = None\<rparr>
                            (Some ''done'') (Some 1000) (Some 1500),
             ac_deliver = True, ac_channel = None, ac_accountId = None, ac_to = None,
             ac_threadId = None\<rparr> True,
      SessionsPatch ''agent:main:subagent:u1'' ''foo'']"
    by (simp add: runSubagentAnnounceFlow_def gatherReply_def afterWait_def childSessionId_def
        loadSessionEntryByKey_def timeoutWorld_def world0_def okParams_def skipParams_def
        truthyStr_def trimTruthy_def
        deliver_def maybeQueueSubagentAnnounce_def loadRequesterSessionEntry_def
        normalizeDeliveryContext_def deliveryContextFromSession_def finallyEffects_def
        strOr_def threadIdText_def Let_def isWhiteSpace_def trim_def)
  have r2: "snd (runSubagentAnnounceFlow timeoutWorld (okParams None)) =
     [AgentWait ''r1'' 30000,
      Agent \<lparr>ac_sessionKey = ''main'',
             ac_message = flowMessage timeoutWorld (okParams None)
                            \<lparr>status = StatusTimeout, error = None\<rparr>
                            (Some ''partial'') (Some 1000) (Some 1500),
             ac_deliver = True, ac_channel = None, ac_accountId = None, ac_to = None,
             ac_threadId = None\<rparr> True,
      SessionsPatch ''agent:main:subagent:u1'' ''foo'']"
    by (simp add: runSubagentAnnounceFlow_def gatherReply_def afterWait_def childSessionId_def
        loadSessionEntryByKey_def timeoutWorld_def world0_def okParams_def skipParams_def
        truthyStr_def trimTruthy_def truthyNum_def settleTimeoutMs_def
        deliver_def maybeQueueSubagentAnnounce_def loadRequesterSessionEntry_def
        normalizeDeliveryContext_def deliveryContextFromSession_def finallyEffects_def
        strOr_def threadIdText_def Let_def isWhiteSpace_def trim_def)
  have o: "p_outcome (okParams (Some ''done'')) = p_outcome (okParams None)"
    by (simp add: okParams_def)
  show ?thesis
    unfolding r1 r2 m1 m2 using o by simp
qed
section \<open>Properties of the lane queues\<close>

subsection \<open>One step of the pump, and the loop\<close>

lemma putLane_fields [simp]:
  "map_of (lanes (putLane l st s)) = (map_of (lanes s))(l \<mapsto> st)"
  "nextTaskId (putLane l st s) = nextTaskId s"
  "pending (putLane l st s) = pending s"
  "trace (putLane l st s) = trace s"
  by (simp_all add: putLane_def update_conv')

lemma map_of_Some_key: "map_of xs k = Some v \<Longrightarrow> k \<in> fst ` set xs"
  by (metis domI dom_map_of_conv_image_fst)

lemma update_keys_same: "map_of xs k = Some v \<Longrightarrow> map fst (AList.update k v' xs) = map fst xs"
  using map_of_Some_key[of xs k v] by (simp add: update_keys)



text \<open>What one step of the loop does to the state: the lane's state is replaced by one with
  the same name, generation and capacity, whose queue is the old one or its tail; and either
  nothing is started, or the head is started and suspended, or the head is started, throws
  at once and is completed.\<close>

lemma pumpStep_shape:
  assumes "map_of (lanes s) l = Some st"
  shows "\<exists>st' tr.
      map_of (lanes (stepState (pumpStep l now stk s))) = (map_of (lanes s))(l \<mapsto> st')
    \<and> map fst (lanes (stepState (pumpStep l now stk s))) = map fst (lanes s)
    \<and> trace (stepState (pumpStep l now stk s)) = trace s @ tr
    \<and> lane st' = lane st \<and> generation st' = generation st
    \<and> maxConcurrent st' = maxConcurrent st
    \<and> ((nextTaskId (stepState (pumpStep l now stk s)) = nextTaskId s
          \<and> pending (stepState (pumpStep l now stk s)) = pending s
          \<and> activeTaskIds st' = activeTaskIds st
          \<and> (queue st' = queue st \<or> queue st' = tl (queue st)))
        \<or> (nextTaskId (stepState (pumpStep l now stk s)) = Suc (nextTaskId s)
          \<and> queue st \<noteq> [] \<and> queue st' = tl (queue st)
          \<and> ((pending (stepState (pumpStep l now stk s)) =
                 pending s @ [\<lparr>rt_lane = l, rt_entry = hd (queue st), rt_taskId = nextTaskId s,
                                rt_generation = generation st\<rparr>]
               \<and> activeTaskIds st' = activeTaskIds st @ [nextTaskId s])
              \<or> (pending (stepState (pumpStep l now stk s)) = pending s
               \<and> activeTaskIds st' = removeAll (nextTaskId s) (activeTaskIds st @ [nextTaskId s])))))"
proof -
  have key: "map fst (AList.update l x (lanes s)) = map fst (lanes s)" for x
    using assms by (rule update_keys_same)
  have fin: "\<exists>st' tr.
      map_of (lanes (stepState (finishPump l stk st s))) = (map_of (lanes s))(l \<mapsto> st')
    \<and> map fst (lanes (stepState (finishPump l stk st s))) = map fst (lanes s)
    \<and> trace (stepState (finishPump l stk st s)) = trace s @ tr
    \<and> lane st' = lane st \<and> generation st' = generation st
    \<and> maxConcurrent st' = maxConcurrent st
    \<and> nextTaskId (stepState (finishPump l stk st s)) = nextTaskId s
    \<and> pending (stepState (finishPump l stk st s)) = pending s
    \<and> activeTaskIds st' = activeTaskIds st \<and> queue st' = queue st"
    by (rule exI[of _ "st\<lparr>draining := False\<rparr>"])
       (auto simp: finishPump_def stepState_def Let_def putLane_def key update_conv'
          split: list.splits)
  show ?thesis
  proof (cases "queue st")
    case Nil
    then have "pumpStep l now stk s = finishPump l stk st s"
      using assms by (simp add: pumpStep_def)
    with fin show ?thesis by metis
  next
    case (Cons entry rest)
    show ?thesis
    proof (cases "numLess (Number (of_nat (length (activeTaskIds st)))) (maxConcurrent st)")
      case False
      then have "pumpStep l now stk s = finishPump l stk st s"
        using assms Cons by (simp add: pumpStep_def)
      with fin show ?thesis by metis
    next
      case True
      then have p: "pumpStep l now stk s = startEntry l now stk st entry rest s"
        using assms Cons by (simp add: pumpStep_def)
      let ?w = "now - enqueuedAt entry"
      let ?ex = "numGe (Number (of_int ?w)) (warnAfterMs entry)"
      show ?thesis
      proof (cases "\<exists>err. ?ex \<and> onWait entry = Some (Throws err)")
        case True
        then obtain err where e: "?ex" "onWait entry = Some (Throws err)" by blast
        show ?thesis
          unfolding p
          by (rule exI[of _ "st\<lparr>queue := rest\<rparr>"])
             (auto simp: startEntry_def stepState_def Let_def putLane_def key update_conv' e Cons
                simp del: of_int_diff split: list.splits)
      next
        case False
        then have ne: "(case (if ?ex then onWait entry else None) of
             Some (Throws err) \<Rightarrow> a err | _ \<Rightarrow> b) = b" for a :: "string \<Rightarrow> 'z" and b :: 'z
          by (auto split: option.splits callback.splits)
        show ?thesis
        proof (cases "task entry")
          case Suspends
          show ?thesis
            unfolding p
            by (rule exI[of _ "st\<lparr>queue := rest,
                                 activeTaskIds := activeTaskIds st @ [nextTaskId s]\<rparr>"])
               (simp add: startEntry_def stepState_def Let_def key update_conv' ne Cons Suspends
                  del: of_int_diff)
        next
          case (ThrowsSync err)
          show ?thesis
            unfolding p
            by (rule exI[of _ "st\<lparr>queue := rest,
                  activeTaskIds := removeAll (nextTaskId s) (activeTaskIds st @ [nextTaskId s])\<rparr>"])
               (simp add: startEntry_def stepState_def Let_def key update_conv' ne Cons ThrowsSync
                  completeTask_def del: of_int_diff)
        qed
      qed
    qed
  qed
qed

lemma pumpStep_None:
  "map_of (lanes s) l = None \<Longrightarrow> pumpStep l now stk s = Inr (None, s)"
  by (simp add: pumpStep_def)

text \<open>Induction over the steps of the loop, for a property of the frames and the state.\<close>

lemma pumpLoop_rule:
  assumes "I stk s"
    and "\<And>stk s stk' s'. I stk s \<Longrightarrow> pumpStep l now stk s = Inl (stk', s') \<Longrightarrow> I stk' s'"
    and "\<And>stk s r s'. I stk s \<Longrightarrow> pumpStep l now stk s = Inr (r, s') \<Longrightarrow> Q r s'"
  shows "Q (fst (pumpLoop l now stk s)) (snd (pumpLoop l now stk s))"
  using assms
proof (induction l now stk s rule: pumpLoop.induct)
  case (1 l now stk s)
  note inv = "1.prems"(1) and step = "1.prems"(2) and fin = "1.prems"(3)
  show ?case
  proof (cases "pumpStep l now stk s")
    case (Inl x)
    obtain stk' s' where x: "x = (stk', s')" by (cases x)
    from Inl x have "pumpStep l now stk s = Inl (stk', s')" by simp
    from step[OF inv this] have "I stk' s'" .
    from "1.IH"[OF Inl x[symmetric] this step fin] show ?thesis
      by (subst (1 2) pumpLoop.simps) (simp add: Inl x)
  next
    case (Inr y)
    obtain r s' where y: "y = (r, s')" by (cases y)
    from Inr y have "pumpStep l now stk s = Inr (r, s')" by simp
    from fin[OF inv this] have "Q r s'" .
    then show ?thesis
      by (subst (1 2) pumpLoop.simps) (simp add: Inr y)
  qed
qed

lemma pumpLoop_state_rule:
  assumes "P s"
    and step: "\<And>stk s. P s \<Longrightarrow> P (stepState (pumpStep l now stk s))"
  shows "P (snd (pumpLoop l now stk s))"
proof -
  have "(\<lambda>r s'. P s') (fst (pumpLoop l now stk s)) (snd (pumpLoop l now stk s))"
  proof (rule pumpLoop_rule[where I = "\<lambda>stk s. P s"])
    show "P s" by (rule assms(1))
  next
    fix stk s stk' s'
    assume "P s" "pumpStep l now stk s = Inl (stk', s')"
    with step[of s stk] show "P s'" by (simp add: stepState_def)
  next
    fix stk s r s'
    assume "P s" "pumpStep l now stk s = Inr (r, s')"
    with step[of s stk] show "P s'" by (simp add: stepState_def)
  qed
  then show ?thesis .
qed

lemma pumpLoop_None: "map_of (lanes s) l = None \<Longrightarrow> pumpLoop l now stk s = (None, s)"
  by (subst pumpLoop.simps) (simp add: pumpStep_None)

subsection \<open>The invariant\<close>



lemma laneInv_trace [simp]: "laneInv (s\<lparr>trace := tr\<rparr>) = laneInv s"
  by (simp add: laneInv_def)

























subsection \<open>Generations never go down\<close>



lemma genLe_trace [simp]: "genLe s (t\<lparr>trace := tr\<rparr>) = genLe s t"
  by (simp add: genLe_def)

lemma genLe_pending [simp]:
  "genLe (s\<lparr>pending := ps\<rparr>) t = genLe s t" "genLe s (t\<lparr>pending := ps\<rparr>) = genLe s t"
  by (simp_all add: genLe_def)





















subsection \<open>A completion from an earlier generation\<close>


subsection \<open>Closures are only added\<close>






subsection \<open>The pump on quiet entries, in closed form\<close>







lemma pumpLoop_keys:
  "map_of (lanes s) l = Some st \<Longrightarrow> map fst (lanes (snd (pumpLoop l now stk s))) = map fst (lanes s)"
proof (rule pumpLoop_state_rule[where P = "\<lambda>t::queue_state. map_of (lanes t) l \<noteq> None
     \<and> map fst (lanes t) = map fst (lanes s)", THEN conjunct2])
  assume "map_of (lanes s) l = Some st"
  then show "map_of (lanes s) l \<noteq> None \<and> map fst (lanes s) = map fst (lanes s)" by simp
next
  fix stk and t :: queue_state
  assume a: "map_of (lanes t) l \<noteq> None \<and> map fst (lanes t) = map fst (lanes s)"
  then obtain x where x: "map_of (lanes t) l = Some x" by auto
  from pumpStep_shape[OF x, of now stk] a
  show "map_of (lanes (stepState (pumpStep l now stk t))) l \<noteq> None
     \<and> map fst (lanes (stepState (pumpStep l now stk t))) = map fst (lanes s)"
    by auto
qed







subsection \<open>Reset and late completions\<close>












subsection \<open>Clearing a lane\<close>

text \<open>The queue with generations rejects every entry it removes, with the error that names
  the lane, and leaves the active set, the tasks in flight and the task counter alone.\<close>

lemma clearCommandLane_rejects_queued:
  assumes "map_of (lanes s) (cleanLane l) = Some st"
  shows "fst (clearCommandLane l s) = int (length (queue st))
     \<and> map_of (lanes (snd (clearCommandLane l s)))
         = (map_of (lanes s))(cleanLane l \<mapsto> st\<lparr>queue := []\<rparr>)
     \<and> activeTaskIds (st\<lparr>queue := []\<rparr>) = activeTaskIds st
     \<and> pending (snd (clearCommandLane l s)) = pending s
     \<and> nextTaskId (snd (clearCommandLane l s)) = nextTaskId s
     \<and> trace (snd (clearCommandLane l s))
         = trace s @ map (\<lambda>entry. Rejected (entryId entry)
               (CommandLaneClearedError
                  (''Command lane '' @ [CHR 0x22] @ cleanLane l @ [CHR 0x22] @ '' cleared'')))
             (queue st)"
proof -
  have ne: "cleanLane l \<noteq> []" by (simp add: cleanLane_def CommandLane_Main_def)
  show ?thesis using assms ne
    by (simp add: clearCommandLane_def Let_def clearedMessage_def putLane_def
        AList.update_conv' fun_eq_iff)
qed

lemma clearCommandLane_cq_silent:
  "trace_cq (snd (clearCommandLane_cq l s)) = trace_cq s"
  by (simp add: clearCommandLane_cq_def Let_def putLane_cq_def split: option.splits)


text \<open>
  Claim C5.  \<open>clearCommandLane\<close> of src/process/command-queue.ts removes the queued entries and
  returns their number, and calls no \<open>reject\<close>: after two calls of \<open>enqueueCommand\<close> (task 1
  running, entry 2 queued), clearing \<open>main\<close> returns 1, the size of the lane goes from 2 to 1,
  and the trace is the one before the call, so the promise of entry 2 is never settled.  On the
  same input the queue of src/unnamed/part\_002 rejects promise 2 with
  \<open>CommandLaneClearedError\<close> and the message \<open>Command lane "main" cleared\<close>.
\<close>

theorem clearCommandLane_cq_drops_without_rejecting:
  "fst (clearCommandLane_cq ''main'' (runCalls_cq twoEnqueued initialQueueState_cq)) = 1
   \<and> getQueueSize_cq ''main'' (runCalls_cq twoEnqueued initialQueueState_cq) = 2
   \<and> getQueueSize_cq ''main''
        (snd (clearCommandLane_cq ''main'' (runCalls_cq twoEnqueued initialQueueState_cq))) = 1
   \<and> trace_cq (snd (clearCommandLane_cq ''main'' (runCalls_cq twoEnqueued initialQueueState_cq)))
       = [LogLaneEnqueue ''main'' 1, LogLaneDequeue ''main'' 0 0, TaskStarted 1,
          LogLaneEnqueue ''main'' 2]
   \<and> trace (snd (clearCommandLane ''main'' (runCalls twoEnqueued initialQueueState)))
       = [LogLaneEnqueue ''main'' 1, LogLaneDequeue ''main'' 0 0, TaskStarted 1,
          LogLaneEnqueue ''main'' 2,
          Rejected 2 (CommandLaneClearedError
             (''Command lane '' @ [CHR 0x22] @ ''main'' @ [CHR 0x22] @ '' cleared''))]"
  by code_simp

section \<open>The two lane queues compared\<close>

subsection \<open>The queue with a counter simulates the queue with generations\<close>

lemma countState_fields [simp]:
  "lanes_cq (countState s) = map (\<lambda>(k, st). (k, countLane st)) (lanes s)"
  "pending_cq (countState s) = map (\<lambda>r. (rt_lane r, rt_entry r)) (pending s)"
  "trace_cq (countState s) = trace s"
  by (simp_all add: countState_def)

lemma countLane_fields [simp]:
  "lane_cq (countLane st) = lane st"
  "queue_cq (countLane st) = queue st"
  "active_cq (countLane st) = int (length (activeTaskIds st))"
  "maxConcurrent_cq (countLane st) = maxConcurrent st"
  "draining_cq (countLane st) = draining st"
  by (simp_all add: countLane_def)


lemma countState_upd [simp]:
  "countState (s\<lparr>trace := tr\<rparr>) = (countState s)\<lparr>trace_cq := tr\<rparr>"
  "countState (s\<lparr>pending := ps\<rparr>) = (countState s)\<lparr>pending_cq := map (\<lambda>r. (rt_lane r, rt_entry r)) ps\<rparr>"
  "countState (s\<lparr>nextTaskId := n\<rparr>) = countState s"
  "countState (s\<lparr>lanes := ls\<rparr>) = (countState s)\<lparr>lanes_cq := map (\<lambda>(k, st). (k, countLane st)) ls\<rparr>"
  by (simp_all add: countState_def)

lemma countLane_upd [simp]:
  "countLane (st\<lparr>draining := b\<rparr>) = (countLane st)\<lparr>draining_cq := b\<rparr>"
  "countLane (st\<lparr>maxConcurrent := m\<rparr>) = (countLane st)\<lparr>maxConcurrent_cq := m\<rparr>"
  "countLane (st\<lparr>queue := q\<rparr>) = (countLane st)\<lparr>queue_cq := q\<rparr>"
  "countLane (st\<lparr>activeTaskIds := ids\<rparr>) = (countLane st)\<lparr>active_cq := int (length ids)\<rparr>"
  by (simp_all add: countLane_def)

lemma putLane_cq_fields [simp]:
  "pending_cq (putLane_cq l st s) = pending_cq s"
  "trace_cq (putLane_cq l st s) = trace_cq s"
  "map_of (lanes_cq (putLane_cq l st s)) = (map_of (lanes_cq s))(l \<mapsto> st)"
  by (simp_all add: putLane_cq_def update_conv')

















subsection \<open>Callbacks that return\<close>


lemma calmQueues_pending [simp]: "calmQueues (s\<lparr>pending := ps\<rparr>) = calmQueues s"
  by (simp add: calmQueues_def)





















lemma recordThrow_None: "fst r = None \<Longrightarrow> recordThrow r = snd r"
  by (simp add: recordThrow_def)













end
